(* ===== verification/SP_Prelude.thy ===== *)
theory SP_Prelude
  imports Main "HOL-Library.Word" "HOL-Library.Monad_Syntax"
begin

text \<open>
  Shared vocabulary of the development: Go's fixed-width signed integers as \<open>int\<close> with the
  wrap-around written out, Go's truncating division, and generic lemmas on lists and sums
  the components share. The collections \<open>go_arith\<close> (machine arithmetic in range) and
  \<open>sp_inv\<close> (invariant preservation) are filled by the components.
\<close>

named_theorems go_arith
named_theorems sp_inv

section \<open>Go's signed integers\<close>

text \<open>\<open>i64 x\<close> and \<open>i32 x\<close> are what a Go expression of type int64 (or int) and int32 holds
  when its mathematical value is \<open>x\<close>: two's complement wrap-around.\<close>

definition MinInt64 :: int where
  "MinInt64 = - (2 ^ 63)"

definition MaxInt64 :: int where
  "MaxInt64 = 2 ^ 63 - 1"

definition i64 :: "int \<Rightarrow> int" where
  "i64 x = (x + 2 ^ 63) mod 2 ^ 64 - 2 ^ 63"

definition i32 :: "int \<Rightarrow> int" where
  "i32 x = (x + 2 ^ 31) mod 2 ^ 32 - 2 ^ 31"

definition in_i64 :: "int \<Rightarrow> bool" where
  "in_i64 x \<longleftrightarrow> - (2 ^ 63) \<le> x \<and> x < 2 ^ 63"

definition in_i32 :: "int \<Rightarrow> bool" where
  "in_i32 x \<longleftrightarrow> - (2 ^ 31) \<le> x \<and> x < 2 ^ 31"

text \<open>Go's \<open>/\<close> truncates towards zero, and \<open>MinInt64 / -1\<close> is \<open>MinInt64\<close>.\<close>

definition go_div :: "int \<Rightarrow> int \<Rightarrow> int" where
  "go_div a b = i64 (sgn a * sgn b * (\<bar>a\<bar> div \<bar>b\<bar>))"

lemma in_i64_i64 [simp]: "in_i64 (i64 x)"
proof -
  have "0 \<le> (x + 2 ^ 63) mod 2 ^ 64" "(x + 2 ^ 63) mod 2 ^ 64 < 2 ^ 64" by simp_all
  then show ?thesis by (simp add: in_i64_def i64_def)
qed

lemma in_i32_i32 [simp]: "in_i32 (i32 x)"
proof -
  have "0 \<le> (x + 2 ^ 31) mod 2 ^ 32" "(x + 2 ^ 31) mod 2 ^ 32 < 2 ^ 32" by simp_all
  then show ?thesis by (simp add: in_i32_def i32_def)
qed

lemma i64_id [go_arith]: "in_i64 x \<Longrightarrow> i64 x = x"
  by (simp add: in_i64_def i64_def)

lemma i32_id [go_arith]: "in_i32 x \<Longrightarrow> i32 x = x"
  by (simp add: in_i32_def i32_def)

lemma i64_eq_iff: "i64 x = x \<longleftrightarrow> in_i64 x"
  by (metis in_i64_i64 i64_id)

lemma in_i32_in_i64 [simp]: "in_i32 x \<Longrightarrow> in_i64 x"
  by (simp add: in_i32_def in_i64_def)

text \<open>Wrap-around is modular, so adding back what was subtracted restores the value.\<close>

lemma i64_sub_add: "in_i64 a \<Longrightarrow> i64 (i64 (a - b) + b) = a"
proof -
  assume a: "in_i64 a"
  have "i64 (i64 (a - b) + b) = ((a - b + 2 ^ 63) mod 2 ^ 64 + b) mod 2 ^ 64 - 2 ^ 63"
    by (simp add: i64_def)
  also have "\<dots> = (a - b + 2 ^ 63 + b) mod 2 ^ 64 - 2 ^ 63"
    by (simp only: mod_add_left_eq)
  also have "\<dots> = i64 a" by (simp add: i64_def)
  finally show ?thesis using a by (simp add: i64_id)
qed

lemma i32_sub_add: "in_i32 a \<Longrightarrow> i32 (i32 (a - b) + b) = a"
proof -
  assume a: "in_i32 a"
  have "i32 (i32 (a - b) + b) = ((a - b + 2 ^ 31) mod 2 ^ 32 + b) mod 2 ^ 32 - 2 ^ 31"
    by (simp add: i32_def)
  also have "\<dots> = (a - b + 2 ^ 31 + b) mod 2 ^ 32 - 2 ^ 31"
    by (simp only: mod_add_left_eq)
  also have "\<dots> = i32 a" by (simp add: i32_def)
  finally show ?thesis using a by (simp add: i32_id)
qed

section \<open>Decimal printing\<close>

text \<open>Go's \<open>%d\<close> on a non-negative and on an arbitrary integer.\<close>

fun decimal :: "nat \<Rightarrow> string" where
  "decimal n = (if n < 10 then [char_of (48 + n)] else decimal (n div 10) @ [char_of (48 + n mod 10)])"

definition decimal_int :: "int \<Rightarrow> string" where
  "decimal_int i = (if i < 0 then CHR ''-'' # decimal (nat (- i)) else decimal (nat i))"

declare decimal.simps [simp del]

lemma decimal_digits: "set (decimal n) \<subseteq> set ''0123456789''"
proof (induction n rule: decimal.induct)
  case (1 n)
  have "\<forall>m \<in> set [0..<10]. char_of (48 + m :: nat) \<in> set ''0123456789''" by code_simp
  then have d: "char_of (48 + m) \<in> set ''0123456789''" if "m < 10" for m :: nat
    using that by (metis atLeastLessThan_iff le0 set_upt)
  show ?case using 1 d [of n] d [of "n mod 10"] by (subst decimal.simps) auto
qed

section \<open>Integer division\<close>

lemma int_div_le_self: "0 \<le> a \<Longrightarrow> 0 < b \<Longrightarrow> a div b \<le> (a :: int)"
  using zdiv_mono2 [of a 1 b] by simp

lemma int_le_div_iff: "0 < c \<Longrightarrow> x \<le> y div c \<longleftrightarrow> x * c \<le> (y :: int)"
proof
  assume c: "0 < c" and "x \<le> y div c"
  then have "x * c \<le> (y div c) * c" by (simp add: mult_right_mono)
  also have "\<dots> \<le> y" using c pos_mod_sign [of c y] div_mult_mod_eq [of y c] by linarith
  finally show "x * c \<le> y" .
next
  assume c: "0 < c" and "x * c \<le> y"
  then have "(x * c) div c \<le> y div c" by (intro zdiv_mono1) simp_all
  then show "x \<le> y div c" using c by simp
qed

section \<open>Binary search\<close>

text \<open>\<open>sort.Search(n, f)\<close> of Go's standard library is \<open>go_search f 0 n\<close>: it halves the interval
  \<open>[i, j)\<close> and returns the first index at which \<open>f\<close> holds when \<open>f\<close> is monotone.\<close>

function go_search :: "(nat \<Rightarrow> bool) \<Rightarrow> nat \<Rightarrow> nat \<Rightarrow> nat" where
  "go_search f i j =
    (if i < j then
       (let h = (i + j) div 2 in if \<not> f h then go_search f (h + 1) j else go_search f i h)
     else i)"
  by pat_completeness auto
termination by (relation "measure (\<lambda>(f, i, j). j - i)") (auto simp: Let_def)

declare go_search.simps [simp del]

lemma go_search_correct:
  assumes "i \<le> j" "\<And>a b. a \<le> b \<Longrightarrow> b < n \<Longrightarrow> f a \<Longrightarrow> f b" "j \<le> n"
    "\<And>k. k < i \<Longrightarrow> \<not> f k" "\<And>k. j \<le> k \<Longrightarrow> k < n \<Longrightarrow> f k"
  shows "go_search f i j \<le> n \<and> (\<forall>k < go_search f i j. \<not> f k) \<and> (\<forall>k. go_search f i j \<le> k \<longrightarrow> k < n \<longrightarrow> f k)"
  using assms
proof (induction f i j rule: go_search.induct)
  case (1 f i j)
  define h where "h = (i + j) div 2"
  show ?case
  proof (cases "i < j")
    case False
    then have "go_search f i j = i" by (simp add: go_search.simps [of f i j])
    then show ?thesis using False 1(3-) by auto
  next
    case True
    then have h: "i \<le> h" "h < j" by (auto simp: h_def)
    show ?thesis
    proof (cases "f h")
      case False
      have "\<not> f k" if "k < h + 1" for k
        using False 1(4) [of k h] h 1(5) that by (metis Suc_eq_plus1 less_Suc_eq_le order_less_le_trans)
      then have below: "\<And>k. k < h + 1 \<Longrightarrow> \<not> f k" .
      have eq: "go_search f i j = go_search f (h + 1) j"
        using True False by (subst go_search.simps) (simp add: h_def)
      show ?thesis
        unfolding eq by (rule 1(1) [OF True h_def False _ 1(4,5) below 1(7)]) (use h in auto)
    next
      case fh: True
      have above: "\<And>k. h \<le> k \<Longrightarrow> k < n \<Longrightarrow> f k" using 1(4) fh by blast
      have eq: "go_search f i j = go_search f i h"
        using True fh by (subst go_search.simps) (simp add: h_def)
      show ?thesis
        unfolding eq by (rule 1(2) [OF True h_def _ h(1) 1(4) _ 1(6) above]) (use h fh 1(5) in auto)
    qed
  qed
qed

lemma go_search_first:
  assumes "\<forall>a b. a \<le> b \<longrightarrow> b < n \<longrightarrow> f a \<longrightarrow> f b"
  shows "go_search f 0 n \<le> n" "k < go_search f 0 n \<Longrightarrow> \<not> f k" "go_search f 0 n \<le> k \<Longrightarrow> k < n \<Longrightarrow> f k"
  using go_search_correct [of 0 n n f] assms by auto

lemma filter_single: "distinct xs \<Longrightarrow> x \<in> set xs \<Longrightarrow> filter (\<lambda>y. y = x) xs = [x]"
  by (induction xs) (auto simp: filter_empty_conv)

lemma length_le_1:
  assumes "distinct xs" "\<And>x y. x \<in> set xs \<Longrightarrow> y \<in> set xs \<Longrightarrow> x = y"
  shows "length xs \<le> 1"
proof -
  have "card (set xs) \<le> Suc 0" unfolding card_le_Suc0_iff_eq [OF finite_set] using assms(2) by blast
  then show ?thesis using distinct_card [OF assms(1)] by simp
qed

end
