(* ===== verification/Limits.thy ===== *)
theory Limits
  imports SP_Prelude
begin

text \<open>
  Resource limits: \<open>base/types/gfsplimit/limit.go\<close> (the protobuf message \<open>GfSpLimit\<close> and its
  methods, \<open>GfSpLimiter\<close>) and the stub limits of \<open>core/rcmgr/limit.go\<close> (\<open>NullLimit\<close>,
  \<open>Unlimited\<close>). The interface \<open>rcmgr.Limit\<close> is the datatype \<open>Limit\<close>, one constructor per
  implementation, and each interface method is a function that dispatches on it.
  \<open>Memory\<close> is an int64 and every other field of \<open>GfSpLimit\<close> an int32; \<open>wf_limit\<close> states these
  ranges and \<open>Add\<close>/\<open>Sub\<close> wrap as Go does.
\<close>

section \<open>Data\<close>

datatype Direction = DirInbound | DirOutbound

datatype ReserveTaskPriority =
  ReserveTaskPriorityUnknown | ReserveTaskPriorityHigh | ReserveTaskPriorityMedium | ReserveTaskPriorityLow

text \<open>The reservation priorities of \<open>core/rcmgr\<close> (uint8 constants).\<close>

definition ReservationPriorityLow :: "8 word" where
  "ReservationPriorityLow = 101"

definition ReservationPriorityMedium :: "8 word" where
  "ReservationPriorityMedium = 152"

definition ReservationPriorityHigh :: "8 word" where
  "ReservationPriorityHigh = 203"

definition ReservationPriorityAlways :: "8 word" where
  "ReservationPriorityAlways = 255"

record ScopeStat =
  st_Memory :: int
  st_NumTasksHigh :: int
  st_NumTasksMedium :: int
  st_NumTasksLow :: int
  st_NumConnsInbound :: int
  st_NumConnsOutbound :: int
  st_NumFD :: int

record GfSpLimit =
  l_Memory :: int
  l_Tasks :: int
  l_TasksHighPriority :: int
  l_TasksMediumPriority :: int
  l_TasksLowPriority :: int
  l_Fd :: int
  l_Conns :: int
  l_ConnsInbound :: int
  l_ConnsOutbound :: int

datatype Limit = GfSp GfSpLimit | NullLimit | Unlimited

section \<open>Getters\<close>

fun GetMemoryLimit :: "Limit \<Rightarrow> int" where
  "GetMemoryLimit (GfSp m) = l_Memory m"
| "GetMemoryLimit NullLimit = 0"
| "GetMemoryLimit Unlimited = MaxInt64"

fun GetFDLimit :: "Limit \<Rightarrow> int" where
  "GetFDLimit (GfSp m) = l_Fd m"
| "GetFDLimit NullLimit = 0"
| "GetFDLimit Unlimited = MaxInt64"

fun GetConnLimit :: "Limit \<Rightarrow> Direction \<Rightarrow> int" where
  "GetConnLimit (GfSp m) dir = (if dir = DirOutbound then l_ConnsOutbound m else l_ConnsInbound m)"
| "GetConnLimit NullLimit dir = 0"
| "GetConnLimit Unlimited dir = MaxInt64"

fun GetConnTotalLimit :: "Limit \<Rightarrow> int" where
  "GetConnTotalLimit (GfSp m) = l_Conns m"
| "GetConnTotalLimit NullLimit = 0"
| "GetConnTotalLimit Unlimited = MaxInt64"

fun GetTaskLimit :: "Limit \<Rightarrow> ReserveTaskPriority \<Rightarrow> int" where
  "GetTaskLimit (GfSp m) priority =
     (if priority = ReserveTaskPriorityHigh then l_TasksHighPriority m
      else if priority = ReserveTaskPriorityMedium then l_TasksMediumPriority m
      else l_TasksLowPriority m)"
| "GetTaskLimit NullLimit priority = 0"
| "GetTaskLimit Unlimited priority = MaxInt64"

fun GetTaskTotalLimit :: "Limit \<Rightarrow> int" where
  "GetTaskTotalLimit (GfSp m) = l_Tasks m"
| "GetTaskTotalLimit NullLimit = 0"
| "GetTaskTotalLimit Unlimited = MaxInt64"

text \<open>The stubs return a nil \<open>*ScopeStat\<close>.\<close>

fun limit_ScopeStat :: "Limit \<Rightarrow> ScopeStat option" where
  "limit_ScopeStat (GfSp m) = Some
     \<lparr>st_Memory = l_Memory m,
      st_NumTasksHigh = GetTaskLimit (GfSp m) ReserveTaskPriorityHigh,
      st_NumTasksMedium = GetTaskLimit (GfSp m) ReserveTaskPriorityMedium,
      st_NumTasksLow = GetTaskLimit (GfSp m) ReserveTaskPriorityLow,
      st_NumConnsInbound = GetConnLimit (GfSp m) DirInbound,
      st_NumConnsOutbound = GetConnLimit (GfSp m) DirOutbound,
      st_NumFD = GetFDLimit (GfSp m)\<rparr>"
| "limit_ScopeStat NullLimit = None"
| "limit_ScopeStat Unlimited = None"

section \<open>Comparison and arithmetic\<close>

fun NotLess :: "Limit \<Rightarrow> Limit \<Rightarrow> bool" where
  "NotLess (GfSp m) x =
     (if GetMemoryLimit (GfSp m) < GetMemoryLimit x then False
      else if GetFDLimit (GfSp m) < GetFDLimit x then False
      else if GetTaskTotalLimit (GfSp m) < GetTaskTotalLimit x then False
      else if GetConnLimit (GfSp m) DirOutbound < GetConnLimit x DirOutbound then False
      else if GetConnLimit (GfSp m) DirInbound < GetConnLimit x DirInbound then False
      else if GetConnTotalLimit (GfSp m) < GetConnTotalLimit x then False
      else if GetTaskLimit (GfSp m) ReserveTaskPriorityHigh < GetTaskLimit x ReserveTaskPriorityHigh then False
      else if GetTaskLimit (GfSp m) ReserveTaskPriorityMedium < GetTaskLimit x ReserveTaskPriorityMedium then False
      else if GetTaskLimit (GfSp m) ReserveTaskPriorityLow < GetTaskLimit x ReserveTaskPriorityLow then False
      else True)"
| "NotLess NullLimit x = False"
| "NotLess Unlimited x = True"

fun limit_Add :: "Limit \<Rightarrow> Limit \<Rightarrow> Limit" where
  "limit_Add (GfSp m) x = GfSp
     \<lparr>l_Memory = i64 (l_Memory m + GetMemoryLimit x),
      l_Tasks = i32 (l_Tasks m + i32 (GetTaskTotalLimit x)),
      l_TasksHighPriority = i32 (l_TasksHighPriority m + i32 (GetTaskLimit x ReserveTaskPriorityHigh)),
      l_TasksMediumPriority = i32 (l_TasksMediumPriority m + i32 (GetTaskLimit x ReserveTaskPriorityMedium)),
      l_TasksLowPriority = i32 (l_TasksLowPriority m + i32 (GetTaskLimit x ReserveTaskPriorityLow)),
      l_Fd = i32 (l_Fd m + i32 (GetFDLimit x)),
      l_Conns = i32 (l_Conns m + i32 (GetConnTotalLimit x)),
      l_ConnsInbound = i32 (l_ConnsInbound m + i32 (GetConnLimit x DirInbound)),
      l_ConnsOutbound = i32 (l_ConnsOutbound m + i32 (GetConnLimit x DirOutbound))\<rparr>"
| "limit_Add NullLimit x = NullLimit"
| "limit_Add Unlimited x = Unlimited"

fun limit_Sub :: "Limit \<Rightarrow> Limit \<Rightarrow> bool \<times> Limit" where
  "limit_Sub (GfSp m) x =
     (if \<not> NotLess (GfSp m) x then (False, GfSp m)
      else (True, GfSp
       \<lparr>l_Memory = i64 (l_Memory m - GetMemoryLimit x),
        l_Tasks = i32 (l_Tasks m - i32 (GetTaskTotalLimit x)),
        l_TasksHighPriority = i32 (l_TasksHighPriority m - i32 (GetTaskLimit x ReserveTaskPriorityHigh)),
        l_TasksMediumPriority = i32 (l_TasksMediumPriority m - i32 (GetTaskLimit x ReserveTaskPriorityMedium)),
        l_TasksLowPriority = i32 (l_TasksLowPriority m - i32 (GetTaskLimit x ReserveTaskPriorityLow)),
        l_Fd = i32 (l_Fd m - i32 (GetFDLimit x)),
        l_Conns = i32 (l_Conns m - i32 (GetConnTotalLimit x)),
        l_ConnsInbound = i32 (l_ConnsInbound m - i32 (GetConnLimit x DirInbound)),
        l_ConnsOutbound = i32 (l_ConnsOutbound m - i32 (GetConnLimit x DirOutbound))\<rparr>))"
| "limit_Sub NullLimit x = (False, NullLimit)"
| "limit_Sub Unlimited x = (True, Unlimited)"

fun limit_Equal :: "Limit \<Rightarrow> Limit \<Rightarrow> bool" where
  "limit_Equal (GfSp m) x =
     (if GetMemoryLimit (GfSp m) \<noteq> GetMemoryLimit x then False
      else if GetFDLimit (GfSp m) \<noteq> GetFDLimit x then False
      else if GetTaskTotalLimit (GfSp m) \<noteq> GetTaskTotalLimit x then False
      else if GetConnLimit (GfSp m) DirOutbound \<noteq> GetConnLimit x DirOutbound then False
      else if GetConnLimit (GfSp m) DirInbound \<noteq> GetConnLimit x DirInbound then False
      else if GetConnTotalLimit (GfSp m) \<noteq> GetConnTotalLimit x then False
      else if GetTaskLimit (GfSp m) ReserveTaskPriorityHigh \<noteq> GetTaskLimit x ReserveTaskPriorityHigh then False
      else if GetTaskLimit (GfSp m) ReserveTaskPriorityMedium \<noteq> GetTaskLimit x ReserveTaskPriorityMedium then False
      else if GetTaskLimit (GfSp m) ReserveTaskPriorityLow \<noteq> GetTaskLimit x ReserveTaskPriorityLow then False
      else True)"
| "limit_Equal NullLimit x = False"
| "limit_Equal Unlimited x = True"

section \<open>Limiters\<close>

record GfSpLimiter =
  lr_System :: GfSpLimit
  lr_Transient :: GfSpLimit
  lr_ServiceLimit :: "string \<rightharpoonup> GfSpLimit"

datatype Limiter = GfSpLr GfSpLimiter | NullLr | UnlimitedLr

fun GetSystemLimits :: "Limiter \<Rightarrow> Limit option" where
  "GetSystemLimits (GfSpLr m) = Some (GfSp (lr_System m))"
| "GetSystemLimits NullLr = None"
| "GetSystemLimits UnlimitedLr = Some Unlimited"

fun GetTransientLimits :: "Limiter \<Rightarrow> Limit option" where
  "GetTransientLimits (GfSpLr m) = Some (GfSp (lr_Transient m))"
| "GetTransientLimits NullLr = None"
| "GetTransientLimits UnlimitedLr = Some Unlimited"

fun GetServiceLimits :: "Limiter \<Rightarrow> string \<Rightarrow> Limit option" where
  "GetServiceLimits (GfSpLr m) svc =
     (case lr_ServiceLimit m svc of None \<Rightarrow> None | Some l \<Rightarrow> Some (GfSp l))"
| "GetServiceLimits NullLr svc = None"
| "GetServiceLimits UnlimitedLr svc = Some Unlimited"

section \<open>Type invariant\<close>

definition wf_gfsp_limit :: "GfSpLimit \<Rightarrow> bool" where
  "wf_gfsp_limit m \<longleftrightarrow> in_i64 (l_Memory m) \<and> in_i32 (l_Tasks m) \<and> in_i32 (l_TasksHighPriority m)
     \<and> in_i32 (l_TasksMediumPriority m) \<and> in_i32 (l_TasksLowPriority m) \<and> in_i32 (l_Fd m)
     \<and> in_i32 (l_Conns m) \<and> in_i32 (l_ConnsInbound m) \<and> in_i32 (l_ConnsOutbound m)"

fun wf_limit :: "Limit \<Rightarrow> bool" where
  "wf_limit (GfSp m) = wf_gfsp_limit m"
| "wf_limit _ = True"

text \<open>All components are non-negative, as a configured limit and a task estimate are.\<close>

definition nonneg_limit :: "Limit \<Rightarrow> bool" where
  "nonneg_limit x \<longleftrightarrow> 0 \<le> GetMemoryLimit x \<and> 0 \<le> GetFDLimit x \<and> 0 \<le> GetTaskTotalLimit x
     \<and> 0 \<le> GetConnTotalLimit x \<and> (\<forall>d. 0 \<le> GetConnLimit x d) \<and> (\<forall>p. 0 \<le> GetTaskLimit x p)"

lemma all_Direction: "(\<forall>d. P d) \<longleftrightarrow> P DirInbound \<and> P DirOutbound"
  by (metis Direction.exhaust)

lemma all_ReserveTaskPriority: "(\<forall>p. P p) \<longleftrightarrow>
    P ReserveTaskPriorityUnknown \<and> P ReserveTaskPriorityHigh
  \<and> P ReserveTaskPriorityMedium \<and> P ReserveTaskPriorityLow"
  by (metis ReserveTaskPriority.exhaust)

lemma NotLess_gfsp_iff [simp]:
  "NotLess (GfSp m) x \<longleftrightarrow> GetMemoryLimit x \<le> l_Memory m \<and> GetFDLimit x \<le> l_Fd m
     \<and> GetTaskTotalLimit x \<le> l_Tasks m \<and> GetConnTotalLimit x \<le> l_Conns m
     \<and> GetConnLimit x DirOutbound \<le> l_ConnsOutbound m \<and> GetConnLimit x DirInbound \<le> l_ConnsInbound m
     \<and> GetTaskLimit x ReserveTaskPriorityHigh \<le> l_TasksHighPriority m
     \<and> GetTaskLimit x ReserveTaskPriorityMedium \<le> l_TasksMediumPriority m
     \<and> GetTaskLimit x ReserveTaskPriorityLow \<le> l_TasksLowPriority m"
  by (simp add: not_less)

lemma limit_Equal_gfsp_iff [simp]:
  "limit_Equal (GfSp m) x \<longleftrightarrow> GetMemoryLimit x = l_Memory m \<and> GetFDLimit x = l_Fd m
     \<and> GetTaskTotalLimit x = l_Tasks m \<and> GetConnTotalLimit x = l_Conns m
     \<and> GetConnLimit x DirOutbound = l_ConnsOutbound m \<and> GetConnLimit x DirInbound = l_ConnsInbound m
     \<and> GetTaskLimit x ReserveTaskPriorityHigh = l_TasksHighPriority m
     \<and> GetTaskLimit x ReserveTaskPriorityMedium = l_TasksMediumPriority m
     \<and> GetTaskLimit x ReserveTaskPriorityLow = l_TasksLowPriority m"
  by (simp only: limit_Equal.simps GetMemoryLimit.simps GetFDLimit.simps GetTaskTotalLimit.simps
      GetConnTotalLimit.simps GetConnLimit.simps GetTaskLimit.simps) auto

declare NotLess.simps(1) [simp del] limit_Equal.simps(1) [simp del]

lemma limit_Add_wf [sp_inv]: "wf_limit m \<Longrightarrow> wf_limit (limit_Add m x)"
  by (cases m) (simp_all add: wf_gfsp_limit_def)

lemma limit_Sub_wf [sp_inv]: "wf_limit m \<Longrightarrow> wf_limit (snd (limit_Sub m x))"
  by (cases m) (simp_all add: wf_gfsp_limit_def)

lemma in_i64_getters [simp]:
  assumes "wf_limit x"
  shows "in_i64 (GetMemoryLimit x)" "in_i64 (GetFDLimit x)" "in_i64 (GetTaskTotalLimit x)"
    "in_i64 (GetConnTotalLimit x)" "in_i64 (GetConnLimit x d)" "in_i64 (GetTaskLimit x p)"
  using assms
  by (cases x; simp add: wf_gfsp_limit_def in_i32_in_i64; simp add: in_i64_def MaxInt64_def)+

section \<open>NotLess as an order\<close>

text \<open>What a client of a limit relies on when it compares budgets with needs.\<close>

locale limit_order =
  fixes fits :: "'l \<Rightarrow> 'l \<Rightarrow> bool" and eqv :: "'l \<Rightarrow> 'l \<Rightarrow> bool" and ok :: "'l \<Rightarrow> bool"
  assumes fits_refl: "ok m \<Longrightarrow> fits m m"
    and fits_trans: "ok m \<Longrightarrow> ok n \<Longrightarrow> fits m n \<Longrightarrow> fits n x \<Longrightarrow> fits m x"
    and fits_antisym: "ok m \<Longrightarrow> ok n \<Longrightarrow> fits m n \<and> fits n m \<longleftrightarrow> eqv m n"
begin

lemma eqv_refl: "ok m \<Longrightarrow> eqv m m"
  using fits_antisym fits_refl by blast

lemma eqv_sym: "ok m \<Longrightarrow> ok n \<Longrightarrow> eqv m n \<Longrightarrow> eqv n m"
  using fits_antisym by blast

text \<open>A scan for the first need that fits succeeds at least as early under a larger budget.\<close>

lemma find_mono:
  assumes "ok m" "ok n" "fits m n" "find (\<lambda>t. fits n (need t)) ts = Some t"
  shows "\<exists>t'. find (\<lambda>t. fits m (need t)) ts = Some t'"
  using assms(4)
proof (induction ts)
  case (Cons a ts)
  then show ?case using fits_trans [OF assms(1-3)] by (auto split: if_splits)
qed simp

end

definition is_gfsp :: "Limit \<Rightarrow> bool" where
  "is_gfsp x \<longleftrightarrow> (\<exists>m. x = GfSp m)"

interpretation gfsp: limit_order NotLess limit_Equal is_gfsp
proof (unfold_locales, goal_cases)
  case (1 m) then show ?case by (auto simp: is_gfsp_def)
next
  case (2 m n x)
  then obtain a b where "m = GfSp a" "n = GfSp b" by (auto simp: is_gfsp_def)
  with 2 show ?case by (auto split: if_splits)
next
  case (3 m n)
  then obtain a b where "m = GfSp a" "n = GfSp b" by (auto simp: is_gfsp_def)
  then show ?case by (auto split: if_splits)
qed

lemma NotLess_Unlimited_self: "NotLess Unlimited x"
  by simp

section \<open>Subtracting and adding back\<close>

lemma limit_Sub_fails_unchanged:
  "\<not> fst (limit_Sub m x) \<Longrightarrow> snd (limit_Sub m x) = m"
  by (cases m) (auto split: if_splits)

lemma limit_Sub_iff_NotLess: "fst (limit_Sub m x) \<longleftrightarrow> NotLess m x"
  by (cases m) auto

lemma limit_Sub_Add:
  "wf_limit m \<Longrightarrow> fst (limit_Sub m x) \<Longrightarrow> limit_Add (snd (limit_Sub m x)) x = m"
  by (cases m) (auto simp: wf_gfsp_limit_def i64_sub_add i32_sub_add split: if_splits)

text \<open>Within the non-negative limits \<open>Sub\<close> is exact on every component: no wrap happens.\<close>

lemma i32_sub_exact [go_arith]: "in_i32 b \<Longrightarrow> 0 \<le> c \<Longrightarrow> c \<le> b \<Longrightarrow> i32 (b - i32 c) = b - c"
  by (simp add: in_i32_def i32_id)

lemma i64_sub_exact [go_arith]: "in_i64 b \<Longrightarrow> 0 \<le> c \<Longrightarrow> c \<le> b \<Longrightarrow> i64 (b - c) = b - c"
  by (simp add: in_i64_def i64_id)

lemma limit_Sub_exact:
  assumes wf: "wf_limit (GfSp m)" and nn: "nonneg_limit x" and fit: "NotLess (GfSp m) x"
  shows "limit_Sub (GfSp m) x = (True, GfSp
     \<lparr>l_Memory = l_Memory m - GetMemoryLimit x,
      l_Tasks = l_Tasks m - GetTaskTotalLimit x,
      l_TasksHighPriority = l_TasksHighPriority m - GetTaskLimit x ReserveTaskPriorityHigh,
      l_TasksMediumPriority = l_TasksMediumPriority m - GetTaskLimit x ReserveTaskPriorityMedium,
      l_TasksLowPriority = l_TasksLowPriority m - GetTaskLimit x ReserveTaskPriorityLow,
      l_Fd = l_Fd m - GetFDLimit x,
      l_Conns = l_Conns m - GetConnTotalLimit x,
      l_ConnsInbound = l_ConnsInbound m - GetConnLimit x DirInbound,
      l_ConnsOutbound = l_ConnsOutbound m - GetConnLimit x DirOutbound\<rparr>)"
proof -
  have "wf_gfsp_limit m" using wf by simp
  note facts = this [unfolded wf_gfsp_limit_def] nn [unfolded nonneg_limit_def] fit [unfolded NotLess_gfsp_iff]
  show ?thesis
    unfolding limit_Sub.simps using fit facts by (simp only: not_True_eq_False if_False) (simp add: go_arith)
qed

end
