(* ===== verification/Resources.thy ===== *)
theory Resources
  imports Limits
begin

text \<open>
  The counters of one scope: \<open>base/gfsprcmgr/resource.go\<close> and the errors of
  \<open>base/gfsprcmgr/error.go\<close>. Counters are Go ints (int64): every sum is wrapped with \<open>i64\<close>
  (wrapping the whole sum once is the same value as wrapping each partial sum). A
  reservation returns the error (or \<open>None\<close>) and the counters after the call. Log lines have
  no counterpart.
\<close>

section \<open>Data and errors\<close>

datatype rc_error =
    ErrResourceScopeClosed
  | ErrNegativeMemory int
  | ErrMemoryLimitExceeded int int int "8 word"
  | ErrTaskLimitExceeded int int int string
  | ErrConnLimitExceeded int int int string
  | WrapError string rc_error

text \<open>\<open>errors.Is(err, ErrResourceLimitExceeded)\<close>: the chain of \<open>Unwrap\<close> ends in the sentinel.\<close>

fun is_limit_exceeded :: "rc_error \<Rightarrow> bool" where
  "is_limit_exceeded (ErrMemoryLimitExceeded _ _ _ _) = True"
| "is_limit_exceeded (ErrTaskLimitExceeded _ _ _ _) = True"
| "is_limit_exceeded (ErrConnLimitExceeded _ _ _ _) = True"
| "is_limit_exceeded (WrapError _ e) = is_limit_exceeded e"
| "is_limit_exceeded _ = False"

record resources =
  limit :: Limit
  nconnsIn :: int
  nconnsOut :: int
  nfd :: int
  ntasksHigh :: int
  ntasksMedium :: int
  ntasksLow :: int
  memory :: int

text \<open>\<open>resources{limit: l}\<close>, all counters zero.\<close>

definition new_resources :: "Limit \<Rightarrow> resources" where
  "new_resources l = \<lparr>limit = l, nconnsIn = 0, nconnsOut = 0, nfd = 0, ntasksHigh = 0,
     ntasksMedium = 0, ntasksLow = 0, memory = 0\<rparr>"

definition remaining :: "resources \<Rightarrow> Limit" where
  "remaining rc = (let l = limit rc; tasks = i64 (ntasksHigh rc + ntasksMedium rc + ntasksLow rc) in GfSp
     \<lparr>l_Memory = (if GetMemoryLimit l > memory rc then i64 (GetMemoryLimit l - memory rc) else 0),
      l_Tasks = (if GetTaskTotalLimit l > tasks then i32 (i64 (GetTaskTotalLimit l - tasks)) else 0),
      l_TasksHighPriority =
        (if GetTaskLimit l ReserveTaskPriorityHigh > ntasksHigh rc
         then i32 (i64 (GetTaskLimit l ReserveTaskPriorityHigh - ntasksHigh rc)) else 0),
      l_TasksMediumPriority =
        (if GetTaskLimit l ReserveTaskPriorityMedium > ntasksMedium rc
         then i32 (i64 (GetTaskLimit l ReserveTaskPriorityMedium - ntasksMedium rc)) else 0),
      l_TasksLowPriority =
        (if GetTaskLimit l ReserveTaskPriorityLow > ntasksLow rc
         then i32 (i64 (GetTaskLimit l ReserveTaskPriorityLow - ntasksLow rc)) else 0),
      l_Fd = 0, l_Conns = 0, l_ConnsInbound = 0, l_ConnsOutbound = 0\<rparr>)"

section \<open>Checked arithmetic and memory\<close>

definition addInt64WithOverflow :: "int \<Rightarrow> int \<Rightarrow> int \<times> bool" where
  "addInt64WithOverflow a b = (let c = i64 (a + b) in (c, (c > a) = (b > 0)))"

definition mulInt64WithOverflow :: "int \<Rightarrow> int \<Rightarrow> int \<times> bool" where
  "mulInt64WithOverflow a b = (let c = i64 (a * b) in
     if a = 0 \<or> b = 0 \<or> a = 1 \<or> b = 1 then (c, True)
     else if a = MaxInt64 \<or> b = MinInt64 then (c, False)
     else (c, go_div c b = a))"

text \<open>The big-integer branch: \<open>Rsh(x, 8)\<close> is the arithmetic shift, i.e. the floor of \<open>x / 256\<close>.\<close>

definition memoryThreshold :: "int \<Rightarrow> 8 word \<Rightarrow> int" where
  "memoryThreshold lim prio =
    (let (threshold, mulOk) = mulInt64WithOverflow (1 + uint prio) lim in
     if \<not> mulOk then
       (let thresholdBig = (lim * (1 + uint prio)) div 256 in
        if \<not> in_i64 thresholdBig then lim else thresholdBig)
     else go_div threshold 256)"

definition checkMemory :: "resources \<Rightarrow> int \<Rightarrow> 8 word \<Rightarrow> rc_error option" where
  "checkMemory rc rsvp prio =
    (if rsvp < 0 then Some (ErrNegativeMemory rsvp)
     else let lim = GetMemoryLimit (limit rc) in
       if lim = MaxInt64 then None
       else let (newMem, addOk) = addInt64WithOverflow (memory rc) rsvp;
                threshold = memoryThreshold lim prio in
         if \<not> addOk \<or> newMem > threshold
         then Some (ErrMemoryLimitExceeded (memory rc) rsvp lim prio)
         else None)"

definition reserveMemory :: "resources \<Rightarrow> int \<Rightarrow> 8 word \<Rightarrow> rc_error option \<times> resources" where
  "reserveMemory rc sz prio = (case checkMemory rc sz prio of
     Some err \<Rightarrow> (Some err, rc)
   | None \<Rightarrow> (None, rc\<lparr>memory := i64 (memory rc + sz)\<rparr>))"

definition releaseMemory :: "resources \<Rightarrow> int \<Rightarrow> resources" where
  "releaseMemory rc sz = (let m = i64 (memory rc - sz) in
     rc\<lparr>memory := (if m < 0 then 0 else m)\<rparr>)"

section \<open>Tasks\<close>

definition addTasks :: "resources \<Rightarrow> int \<Rightarrow> int \<Rightarrow> int \<Rightarrow> rc_error option \<times> resources" where
  "addTasks rc high medium low = (let l = limit rc in
     if i64 (ntasksHigh rc + ntasksMedium rc + ntasksLow rc + high + medium + low) > GetTaskTotalLimit l
     then (Some (ErrTaskLimitExceeded (i64 (ntasksHigh rc + ntasksMedium rc + ntasksLow rc))
            (i64 (high + medium + low)) (GetTaskTotalLimit l) ''total task limit exceeded''), rc)
     else if i64 (high + ntasksHigh rc) > GetTaskLimit l ReserveTaskPriorityHigh
     then (Some (ErrTaskLimitExceeded (ntasksHigh rc) high (GetTaskLimit l ReserveTaskPriorityHigh)
            ''high priority task limit exceeded''), rc)
     else if i64 (medium + ntasksMedium rc) > GetTaskLimit l ReserveTaskPriorityMedium
     then (Some (ErrTaskLimitExceeded (ntasksMedium rc) medium (GetTaskLimit l ReserveTaskPriorityMedium)
            ''medium priority task limit exceeded''), rc)
     else if i64 (low + ntasksLow rc) > GetTaskLimit l ReserveTaskPriorityLow
     then (Some (ErrTaskLimitExceeded (ntasksLow rc) low (GetTaskLimit l ReserveTaskPriorityLow)
            ''low priority task limit exceeded''), rc)
     else (None, rc\<lparr>ntasksHigh := i64 (ntasksHigh rc + high),
                  ntasksMedium := i64 (ntasksMedium rc + medium),
                  ntasksLow := i64 (ntasksLow rc + low)\<rparr>))"

definition addTask :: "resources \<Rightarrow> int \<Rightarrow> ReserveTaskPriority \<Rightarrow> rc_error option \<times> resources" where
  "addTask rc num prio =
    (if prio = ReserveTaskPriorityHigh then addTasks rc num 0 0
     else if prio = ReserveTaskPriorityMedium then addTasks rc 0 num 0
     else addTasks rc 0 0 num)"

definition removeTasks :: "resources \<Rightarrow> int \<Rightarrow> int \<Rightarrow> int \<Rightarrow> resources" where
  "removeTasks rc high medium low =
    (let h = i64 (ntasksHigh rc - high); m = i64 (ntasksMedium rc - medium); l = i64 (ntasksLow rc - low) in
     rc\<lparr>ntasksHigh := (if h < 0 then 0 else h),
        ntasksMedium := (if m < 0 then 0 else m),
        ntasksLow := (if l < 0 then 0 else l)\<rparr>)"

definition removeTask :: "resources \<Rightarrow> int \<Rightarrow> ReserveTaskPriority \<Rightarrow> resources" where
  "removeTask rc num prio =
    (if prio = ReserveTaskPriorityHigh then removeTasks rc num 0 0
     else if prio = ReserveTaskPriorityMedium then removeTasks rc 0 num 0
     else if prio = ReserveTaskPriorityLow then removeTasks rc 0 0 num
     else rc)"

section \<open>Connections\<close>

definition addConns :: "resources \<Rightarrow> int \<Rightarrow> int \<Rightarrow> int \<Rightarrow> rc_error option \<times> resources" where
  "addConns rc inCount outCount fdCount = (let l = limit rc in
     if inCount > 0 \<and> i64 (nconnsIn rc + inCount) > GetConnLimit l DirInbound
     then (Some (ErrConnLimitExceeded (nconnsIn rc) inCount (GetConnLimit l DirInbound)
            ''cannot reserve inbound connection''), rc)
     else if outCount > 0 \<and> i64 (nconnsOut rc + outCount) > GetConnLimit l DirOutbound
     then (Some (ErrConnLimitExceeded (nconnsOut rc) outCount (GetConnLimit l DirOutbound)
            ''cannot reserve outbound connection''), rc)
     else if i64 (nconnsIn rc + inCount + nconnsOut rc + outCount) > GetConnTotalLimit l
     then (Some (ErrConnLimitExceeded (i64 (nconnsIn rc + nconnsOut rc)) (i64 (inCount + outCount))
            (GetConnTotalLimit l) ''cannot reserve connection''), rc)
     else if fdCount > 0 \<and> i64 (nfd rc + fdCount) > GetFDLimit l
     then (Some (ErrConnLimitExceeded (nfd rc) fdCount (GetFDLimit l)
            ''cannot reserve file descriptor''), rc)
     else (None, rc\<lparr>nconnsIn := i64 (nconnsIn rc + inCount),
                  nconnsOut := i64 (nconnsOut rc + outCount),
                  nfd := i64 (nfd rc + fdCount)\<rparr>))"

definition addConn :: "resources \<Rightarrow> Direction \<Rightarrow> rc_error option \<times> resources" where
  "addConn rc dir = (if dir = DirInbound then addConns rc 1 0 1 else addConns rc 0 1 1)"

definition removeConns :: "resources \<Rightarrow> int \<Rightarrow> int \<Rightarrow> int \<Rightarrow> resources" where
  "removeConns rc inCount outCount fdCount =
    (let i = i64 (nconnsIn rc - inCount); out = i64 (nconnsOut rc - outCount); f = i64 (nfd rc - fdCount) in
     rc\<lparr>nconnsIn := (if i < 0 then 0 else i),
        nconnsOut := (if out < 0 then 0 else out),
        nfd := (if f < 0 then 0 else f)\<rparr>)"

definition removeConn :: "resources \<Rightarrow> Direction \<Rightarrow> resources" where
  "removeConn rc dir = (if dir = DirInbound then removeConns rc 1 0 1 else removeConns rc 0 1 1)"

definition rc_stat :: "resources \<Rightarrow> ScopeStat" where
  "rc_stat rc = \<lparr>st_Memory = memory rc, st_NumTasksHigh = ntasksHigh rc, st_NumTasksMedium = ntasksMedium rc,
     st_NumTasksLow = ntasksLow rc, st_NumConnsInbound = nconnsIn rc, st_NumConnsOutbound = nconnsOut rc,
     st_NumFD = nfd rc\<rparr>"

section \<open>All counters at once\<close>

text \<open>The reservation of a whole \<open>ScopeStat\<close> with its rollbacks, as \<open>ReserveForChild\<close> and
  \<open>ReserveResources\<close> of \<open>scope.go\<close> both spell it out on \<open>s.rc\<close>, and the release of one.\<close>

definition releaseStat :: "resources \<Rightarrow> ScopeStat \<Rightarrow> resources" where
  "releaseStat rc st =
    (let rc1 = releaseMemory rc (st_Memory st);
         rc2 = removeConns rc1 (st_NumConnsInbound st) (st_NumConnsOutbound st) (st_NumFD st);
         rc3 = removeTask rc2 (st_NumTasksHigh st) ReserveTaskPriorityHigh;
         rc4 = removeTask rc3 (st_NumTasksMedium st) ReserveTaskPriorityMedium
     in removeTask rc4 (st_NumTasksLow st) ReserveTaskPriorityLow)"

definition reserveStat :: "resources \<Rightarrow> ScopeStat \<Rightarrow> rc_error option \<times> resources" where
  "reserveStat rc st =
    (case reserveMemory rc (st_Memory st) ReservationPriorityAlways of
       (Some err, rc) \<Rightarrow> (Some err, rc)
     | (None, rc) \<Rightarrow>
    (case addConns rc (st_NumConnsInbound st) (st_NumConnsOutbound st) (st_NumFD st) of
       (Some err, rc) \<Rightarrow> (Some err, releaseMemory rc (st_Memory st))
     | (None, rc) \<Rightarrow>
    (case addTask rc (st_NumTasksHigh st) ReserveTaskPriorityHigh of
       (Some err, rc) \<Rightarrow> (Some err,
          removeConns (releaseMemory rc (st_Memory st))
            (st_NumConnsInbound st) (st_NumConnsOutbound st) (st_NumFD st))
     | (None, rc) \<Rightarrow>
    (case addTask rc (st_NumTasksMedium st) ReserveTaskPriorityMedium of
       (Some err, rc) \<Rightarrow> (Some err,
          removeTask (removeConns (releaseMemory rc (st_Memory st))
            (st_NumConnsInbound st) (st_NumConnsOutbound st) (st_NumFD st))
            (st_NumTasksHigh st) ReserveTaskPriorityHigh)
     | (None, rc) \<Rightarrow>
    (case addTask rc (st_NumTasksLow st) ReserveTaskPriorityLow of
       (Some err, rc) \<Rightarrow> (Some err,
          removeTask (removeTask (removeConns (releaseMemory rc (st_Memory st))
            (st_NumConnsInbound st) (st_NumConnsOutbound st) (st_NumFD st))
            (st_NumTasksHigh st) ReserveTaskPriorityHigh)
            (st_NumTasksMedium st) ReserveTaskPriorityMedium)
     | (None, rc) \<Rightarrow> (None, rc))))))"

section \<open>Checked arithmetic is exact\<close>

lemma addInt64WithOverflow_ok:
  assumes "in_i64 a" "in_i64 b"
  shows "snd (addInt64WithOverflow a b) \<longleftrightarrow> in_i64 (a + b)"
proof (cases "in_i64 (a + b)")
  case True
  then show ?thesis by (simp add: addInt64WithOverflow_def Let_def i64_id)
next
  case False
  then consider "a + b \<ge> 2 ^ 63" | "a + b < - (2 ^ 63)" by (auto simp: in_i64_def)
  then show ?thesis
  proof cases
    case 1
    have "i64 (a + b) = a + b - 2 ^ 64"
      using 1 assms unfolding i64_def in_i64_def
      by (subst mod_pos_geq) (simp_all add: mod_pos_pos_trivial)
    with 1 False assms show ?thesis by (simp add: addInt64WithOverflow_def Let_def in_i64_def)
  next
    case 2
    have "(a + b + 2 ^ 63) mod 2 ^ 64 = (a + b + 2 ^ 63 + 2 ^ 64) mod 2 ^ 64"
      by (rule mod_add_self2 [symmetric])
    also have "\<dots> = a + b + 2 ^ 63 + 2 ^ 64"
      using 2 assms by (simp add: in_i64_def mod_pos_pos_trivial)
    finally have "i64 (a + b) = a + b + 2 ^ 64" by (simp add: i64_def)
    with 2 False assms show ?thesis by (simp add: addInt64WithOverflow_def Let_def in_i64_def)
  qed
qed

lemma addInt64WithOverflow_value:
  "in_i64 (a + b) \<Longrightarrow> fst (addInt64WithOverflow a b) = a + b"
  by (simp add: addInt64WithOverflow_def Let_def i64_id)

lemma go_div_nonneg:
  assumes "0 \<le> a" "0 < b" "in_i64 a"
  shows "go_div a b = a div b"
proof -
  have eq: "sgn a * sgn b * (\<bar>a\<bar> div \<bar>b\<bar>) = a div b"
    using assms by (cases "a = 0") (simp_all add: sgn_if)
  have "0 \<le> a div b" "a div b \<le> a"
    using assms by (simp_all add: pos_imp_zdiv_nonneg_iff int_div_le_self)
  then have "in_i64 (a div b)" using assms by (simp add: in_i64_def)
  then show ?thesis unfolding go_div_def eq by (rule i64_id)
qed

lemma go_div_neg_num:
  assumes "a < 0" "0 < b"
  shows "go_div a b = i64 (- ((- a) div b))"
  using assms by (simp add: go_div_def)

lemma mulInt64WithOverflow_ok:
  assumes a: "1 \<le> a" "a \<le> 256" and b: "0 \<le> b" "in_i64 b"
  shows "snd (mulInt64WithOverflow a b) \<longleftrightarrow> in_i64 (a * b)"
proof (cases "a = 1 \<or> b = 0 \<or> b = 1")
  case True
  then have "in_i64 (a * b)" using assms by (auto simp: in_i64_def)
  with True show ?thesis by (auto simp: mulInt64WithOverflow_def Let_def)
next
  case False
  let ?c = "i64 (a * b)"
  have b2: "2 \<le> b" using b False by linarith
  have snd: "snd (mulInt64WithOverflow a b) \<longleftrightarrow> go_div ?c b = a"
    using False a b by (auto simp: mulInt64WithOverflow_def Let_def MaxInt64_def MinInt64_def)
  have c: "in_i64 ?c" by simp
  show ?thesis
  proof
    assume "in_i64 (a * b)"
    then show "snd (mulInt64WithOverflow a b)"
      using snd a b2 by (simp add: i64_id go_div_nonneg)
  next
    assume "snd (mulInt64WithOverflow a b)"
    then have q: "go_div ?c b = a" using snd by simp
    have "0 \<le> ?c"
    proof (rule ccontr)
      assume neg: "\<not> 0 \<le> ?c"
      have "0 \<le> (- ?c) div b" "(- ?c) div b \<le> - ?c"
        using neg b2 by (simp_all add: pos_imp_zdiv_nonneg_iff int_div_le_self)
      then have "in_i64 (- ((- ?c) div b))" using c by (simp add: in_i64_def)
      then show False
        using q neg b2 a go_div_neg_num [of ?c b] \<open>0 \<le> (- ?c) div b\<close> by (simp add: i64_id)
    qed
    then have "?c div b = a" using q b2 c by (simp add: go_div_nonneg)
    then have "a * b \<le> ?c"
      using b2 pos_mod_sign [of b ?c] mult_div_mod_eq [of b ?c]
      by (simp only: mult.commute [of b]) linarith
    moreover have "0 \<le> a * b" using a b by simp
    ultimately show "in_i64 (a * b)" using c by (simp add: in_i64_def)
  qed
qed

lemma threshold_le:
  assumes "0 \<le> lim" "q \<le> 256"
  shows "(lim * q) div 256 \<le> (lim :: int)"
proof -
  have "(lim * q) div 256 \<le> (lim * 256) div 256"
    using assms by (intro zdiv_mono1 mult_left_mono) simp_all
  then show ?thesis by simp
qed

lemma prio_bounds: "1 \<le> 1 + uint (prio :: 8 word)" "1 + uint (prio :: 8 word) \<le> 256"
  using uint_lt2p [of prio] by simp_all

lemma memoryThreshold_eq:
  assumes "0 \<le> lim" "in_i64 lim"
  shows "memoryThreshold lim prio = (lim * (1 + uint prio)) div 256"
proof -
  define q where "q = 1 + uint prio"
  have q: "1 \<le> q" "q \<le> 256" unfolding q_def by (rule prio_bounds)+
  have ok: "snd (mulInt64WithOverflow q lim) \<longleftrightarrow> in_i64 (q * lim)"
    using mulInt64WithOverflow_ok q assms by blast
  have fst: "fst (mulInt64WithOverflow q lim) = i64 (q * lim)"
    by (simp add: mulInt64WithOverflow_def Let_def)
  have nn: "0 \<le> lim * q" using q assms by simp
  then have "in_i64 ((lim * q) div 256)"
    using threshold_le [OF assms(1) q(2)] assms(2) pos_imp_zdiv_nonneg_iff [of 256 "lim * q"]
    by (simp add: in_i64_def)
  then show ?thesis
    using ok fst nn unfolding memoryThreshold_def q_def [symmetric]
    by (simp add: split_beta i64_id go_div_nonneg mult.commute [of q] Let_def)
qed

text \<open>Reference definition of the memory guard, over unbounded integers.\<close>

definition memory_admits :: "resources \<Rightarrow> int \<Rightarrow> 8 word \<Rightarrow> bool" where
  "memory_admits rc sz prio \<longleftrightarrow>
     0 \<le> sz \<and> (memory rc + sz) * 256 \<le> GetMemoryLimit (limit rc) * (1 + uint prio)"

lemma checkMemory_iff:
  assumes "0 \<le> GetMemoryLimit (limit rc)" "GetMemoryLimit (limit rc) < MaxInt64"
    "in_i64 (memory rc)" "in_i64 sz"
  shows "checkMemory rc sz prio = None \<longleftrightarrow> memory_admits rc sz prio"
proof -
  let ?l = "GetMemoryLimit (limit rc)"
  let ?t = "(?l * (1 + uint prio)) div 256"
  have l: "in_i64 ?l" using assms by (simp add: in_i64_def MaxInt64_def)
  have t: "memoryThreshold ?l prio = ?t" by (rule memoryThreshold_eq) (use assms l in auto)
  have tle: "?t \<le> ?l" by (rule threshold_le [OF assms(1) prio_bounds(2)])
  have iff: "x \<le> ?t \<longleftrightarrow> x * 256 \<le> ?l * (1 + uint prio)" for x
    by (rule int_le_div_iff) simp
  have adm: "memory_admits rc sz prio \<longleftrightarrow> 0 \<le> sz \<and> memory rc + sz \<le> ?t"
    unfolding memory_admits_def iff ..
  have chk: "checkMemory rc sz prio = None \<longleftrightarrow> 0 \<le> sz \<and> snd (addInt64WithOverflow (memory rc) sz)
      \<and> fst (addInt64WithOverflow (memory rc) sz) \<le> ?t"
    using assms(2) unfolding checkMemory_def Let_def t by (auto simp: split_beta not_less)
  show ?thesis
  proof (cases "in_i64 (memory rc + sz)")
    case True
    then show ?thesis
      unfolding chk adm addInt64WithOverflow_ok [OF assms(3,4)] addInt64WithOverflow_value [OF True] by simp
  next
    case False
    have "\<not> (0 \<le> sz \<and> memory rc + sz \<le> ?t)"
      using False tle l assms(3) unfolding in_i64_def by linarith
    then show ?thesis
      unfolding chk adm addInt64WithOverflow_ok [OF assms(3,4)] using False by simp
  qed
qed

section \<open>Counters as a vector\<close>

text \<open>The seven counters of \<open>ScopeStat\<close> as one vector, so that a law about all of them is stated
  and proved once: \<open>usage k rc\<close> reads counter \<open>k\<close>, \<open>shift a rc\<close> adds the vector \<open>a\<close>.\<close>

datatype counter = CMemory | CHigh | CMedium | CLow | CIn | COut | CFd

type_synonym amount = "counter \<Rightarrow> int"

fun usage :: "counter \<Rightarrow> resources \<Rightarrow> int" where
  "usage CMemory rc = memory rc"
| "usage CHigh rc = ntasksHigh rc"
| "usage CMedium rc = ntasksMedium rc"
| "usage CLow rc = ntasksLow rc"
| "usage CIn rc = nconnsIn rc"
| "usage COut rc = nconnsOut rc"
| "usage CFd rc = nfd rc"

definition shift :: "amount \<Rightarrow> resources \<Rightarrow> resources" where
  "shift a rc = rc\<lparr>memory := memory rc + a CMemory, ntasksHigh := ntasksHigh rc + a CHigh,
     ntasksMedium := ntasksMedium rc + a CMedium, ntasksLow := ntasksLow rc + a CLow,
     nconnsIn := nconnsIn rc + a CIn, nconnsOut := nconnsOut rc + a COut, nfd := nfd rc + a CFd\<rparr>"

lemma all_counter: "(\<forall>k. P k) \<longleftrightarrow> P CMemory \<and> P CHigh \<and> P CMedium \<and> P CLow \<and> P CIn \<and> P COut \<and> P CFd"
  by (metis counter.exhaust)

lemma usage_shift [simp]: "usage k (shift a rc) = usage k rc + a k"
  by (cases k) (simp_all add: shift_def)

lemma limit_shift [simp]: "limit (shift a rc) = limit rc"
  by (simp add: shift_def)

lemma shift_shift [simp]: "shift a (shift b rc) = shift (\<lambda>k. b k + a k) rc"
  by (simp add: shift_def add.assoc)

lemma shift_zero [simp]: "shift (\<lambda>k. 0) rc = rc"
  by (simp add: shift_def)

fun st_amount :: "ScopeStat \<Rightarrow> amount" where
  "st_amount st CMemory = st_Memory st"
| "st_amount st CHigh = st_NumTasksHigh st"
| "st_amount st CMedium = st_NumTasksMedium st"
| "st_amount st CLow = st_NumTasksLow st"
| "st_amount st CIn = st_NumConnsInbound st"
| "st_amount st COut = st_NumConnsOutbound st"
| "st_amount st CFd = st_NumFD st"

lemma st_amount_rc_stat [simp]: "st_amount (rc_stat rc) k = usage k rc"
  by (cases k) (simp_all add: rc_stat_def)

section \<open>Invariant\<close>

text \<open>A limit the manager is configured with: a \<open>GfSpLimit\<close> with non-negative fields whose memory
  limit is not the special value \<open>math.MaxInt64\<close> (for which \<open>checkMemory\<close> skips its guard).\<close>

definition lim_ok :: "Limit \<Rightarrow> bool" where
  "lim_ok l \<longleftrightarrow> is_gfsp l \<and> wf_limit l \<and> nonneg_limit l \<and> GetMemoryLimit l < MaxInt64"

text \<open>Every counter lies between zero and its limit.\<close>

definition rc_ok :: "resources \<Rightarrow> bool" where
  "rc_ok rc \<longleftrightarrow> lim_ok (limit rc)
     \<and> 0 \<le> memory rc \<and> memory rc \<le> GetMemoryLimit (limit rc)
     \<and> 0 \<le> ntasksHigh rc \<and> ntasksHigh rc \<le> GetTaskLimit (limit rc) ReserveTaskPriorityHigh
     \<and> 0 \<le> ntasksMedium rc \<and> ntasksMedium rc \<le> GetTaskLimit (limit rc) ReserveTaskPriorityMedium
     \<and> 0 \<le> ntasksLow rc \<and> ntasksLow rc \<le> GetTaskLimit (limit rc) ReserveTaskPriorityLow
     \<and> ntasksHigh rc + ntasksMedium rc + ntasksLow rc \<le> GetTaskTotalLimit (limit rc)
     \<and> 0 \<le> nconnsIn rc \<and> nconnsIn rc \<le> GetConnLimit (limit rc) DirInbound
     \<and> 0 \<le> nconnsOut rc \<and> nconnsOut rc \<le> GetConnLimit (limit rc) DirOutbound
     \<and> nconnsIn rc + nconnsOut rc \<le> GetConnTotalLimit (limit rc)
     \<and> 0 \<le> nfd rc \<and> nfd rc \<le> GetFDLimit (limit rc)"

lemma rc_ok_new [sp_inv]: "lim_ok l \<Longrightarrow> rc_ok (new_resources l)"
  by (auto simp: rc_ok_def new_resources_def lim_ok_def nonneg_limit_def)

lemma usage_nonneg: "rc_ok rc \<Longrightarrow> 0 \<le> usage k rc"
  by (cases k) (simp_all add: rc_ok_def)

lemma lim_ok_small:
  assumes "lim_ok l"
  shows "GetTaskLimit l p < 2 ^ 31" "GetTaskTotalLimit l < 2 ^ 31" "GetConnLimit l d < 2 ^ 31"
    "GetConnTotalLimit l < 2 ^ 31" "GetFDLimit l < 2 ^ 31" "GetMemoryLimit l < 2 ^ 63 - 1"
  using assms by (auto simp: lim_ok_def is_gfsp_def wf_gfsp_limit_def in_i32_def MaxInt64_def)

lemma usage_in_i64: "rc_ok rc \<Longrightarrow> in_i64 (usage k rc)"
  using lim_ok_small [of "limit rc"]
  by (cases k) (force simp: rc_ok_def in_i64_def)+

text \<open>Releasing within the usage keeps the invariant.\<close>

lemma rc_ok_shift_down [sp_inv]:
  assumes "rc_ok rc" "\<And>k. 0 \<le> a k" "\<And>k. a k \<le> usage k rc"
  shows "rc_ok (shift (\<lambda>k. - a k) rc)"
proof -
  have "0 \<le> a CMemory" "0 \<le> a CHigh" "0 \<le> a CMedium" "0 \<le> a CLow" "0 \<le> a CIn" "0 \<le> a COut" "0 \<le> a CFd"
    using assms(2) by auto
  moreover have "a CMemory \<le> memory rc" "a CHigh \<le> ntasksHigh rc" "a CMedium \<le> ntasksMedium rc"
    "a CLow \<le> ntasksLow rc" "a CIn \<le> nconnsIn rc" "a COut \<le> nconnsOut rc" "a CFd \<le> nfd rc"
    using assms(3) [of CMemory] assms(3) [of CHigh] assms(3) [of CMedium] assms(3) [of CLow]
      assms(3) [of CIn] assms(3) [of COut] assms(3) [of CFd] by simp_all
  ultimately show ?thesis using assms(1) by (simp add: rc_ok_def shift_def)
qed

section \<open>Reservations\<close>

text \<open>The contract of one kind of reservation at a single scope: a refused reservation leaves the
  counters alone, a granted one adds its amount and stays within the limits, and undoing
  an amount that is held subtracts it exactly (no clamp, no wrap).\<close>

locale reservation =
  fixes reserve :: "'op \<Rightarrow> resources \<Rightarrow> rc_error option \<times> resources"
    and undo :: "'op \<Rightarrow> resources \<Rightarrow> resources"
    and amt :: "'op \<Rightarrow> amount"
    and valid :: "'op \<Rightarrow> bool"
  assumes amt_nonneg: "valid p \<Longrightarrow> 0 \<le> amt p k"
    and refused: "valid p \<Longrightarrow> rc_ok rc \<Longrightarrow> reserve p rc = (Some e, rc') \<Longrightarrow> rc' = rc"
    and granted: "valid p \<Longrightarrow> rc_ok rc \<Longrightarrow> reserve p rc = (None, rc') \<Longrightarrow> rc' = shift (amt p) rc \<and> rc_ok rc'"
    and undone: "valid p \<Longrightarrow> rc_ok rc \<Longrightarrow> (\<And>k. amt p k \<le> usage k rc) \<Longrightarrow> undo p rc = shift (\<lambda>k. - amt p k) rc"
begin

lemma reserve_dest:
  assumes "valid p" "rc_ok rc"
  obtains (refuse) e where "reserve p rc = (Some e, rc)"
  | (grant) "reserve p rc = (None, shift (amt p) rc)" "rc_ok (shift (amt p) rc)"
  using refused [OF assms] granted [OF assms] by (metis not_None_eq surj_pair)

lemma reserve_undo:
  assumes "valid p" "rc_ok rc" "reserve p rc = (None, rc')"
  shows "undo p rc' = rc"
proof -
  from granted [OF assms] have rc': "rc' = shift (amt p) rc" "rc_ok rc'" by auto
  then have "undo p rc' = shift (\<lambda>k. - amt p k) rc'"
    using undone [OF assms(1)] usage_nonneg [OF assms(2)] by simp
  then show ?thesis using rc' by simp
qed

lemma undo_ok: "valid p \<Longrightarrow> rc_ok rc \<Longrightarrow> (\<And>k. amt p k \<le> usage k rc) \<Longrightarrow> rc_ok (undo p rc)"
  using undone rc_ok_shift_down amt_nonneg by metis

end

definition mem_amount :: "int \<times> 8 word \<Rightarrow> amount" where
  "mem_amount p = (\<lambda>k. 0)(CMemory := fst p)"

definition mem_valid :: "int \<times> 8 word \<Rightarrow> bool" where
  "mem_valid p \<longleftrightarrow> 0 \<le> fst p \<and> in_i64 (fst p)"

lemma memory_admits_le_limit:
  "0 \<le> GetMemoryLimit (limit rc) \<Longrightarrow> memory_admits rc sz prio \<Longrightarrow> memory rc + sz \<le> GetMemoryLimit (limit rc)"
  using mult_left_mono [OF prio_bounds(2) [of prio], of "GetMemoryLimit (limit rc)"]
  by (simp add: memory_admits_def)

interpretation mem: reservation "\<lambda>p rc. reserveMemory rc (fst p) (snd p)" "\<lambda>p rc. releaseMemory rc (fst p)"
  mem_amount mem_valid
proof (unfold_locales, goal_cases)
  case (1 p k)
  then show ?case by (simp add: mem_amount_def mem_valid_def)
next
  case (2 p rc e rc')
  then show ?case by (auto simp: reserveMemory_def split: option.splits)
next
  case (3 p rc rc')
  then have chk: "checkMemory rc (fst p) (snd p) = None"
    and rc': "rc' = rc\<lparr>memory := i64 (memory rc + fst p)\<rparr>"
    by (auto simp: reserveMemory_def split: option.splits)
  from 3(2) have l: "0 \<le> GetMemoryLimit (limit rc)" "GetMemoryLimit (limit rc) < MaxInt64" "0 \<le> memory rc"
    by (auto simp: rc_ok_def lim_ok_def)
  have "memory_admits rc (fst p) (snd p)"
    using chk checkMemory_iff [OF l(1,2)] usage_in_i64 [OF 3(2), of CMemory] 3(1) by (simp add: mem_valid_def)
  then have le: "memory rc + fst p \<le> GetMemoryLimit (limit rc)" "0 \<le> fst p"
    using memory_admits_le_limit l(1) by (auto simp: memory_admits_def)
  then have "i64 (memory rc + fst p) = memory rc + fst p"
    using l by (intro i64_id) (simp add: in_i64_def MaxInt64_def)
  with rc' le 3(2) show ?case by (simp add: shift_def mem_amount_def rc_ok_def)
next
  case (4 p rc)
  from 4(3) [of CMemory] have "fst p \<le> memory rc" by (simp add: mem_amount_def)
  then show ?case
    using 4(1) usage_in_i64 [OF 4(2), of CMemory]
    by (simp add: releaseMemory_def shift_def mem_amount_def mem_valid_def i64_sub_exact)
qed

text \<open>Tasks and connections: requested counts below \<open>2 ^ 60\<close> keep every sum inside int64.\<close>

definition count_ok :: "int \<Rightarrow> bool" where
  "count_ok n \<longleftrightarrow> 0 \<le> n \<and> n < 2 ^ 60"

lemma count_ok_0 [simp]: "count_ok 0"
  by (simp add: count_ok_def)

lemma count_okD [dest]: "count_ok n \<Longrightarrow> 0 \<le> n"
  by (simp add: count_ok_def)

lemma rc_ok_task_sums:
  assumes "rc_ok rc" "count_ok h" "count_ok m" "count_ok l"
  shows "i64 (ntasksHigh rc + ntasksMedium rc + ntasksLow rc + h + m + l) = ntasksHigh rc + ntasksMedium rc + ntasksLow rc + h + m + l"
    "i64 (h + ntasksHigh rc) = h + ntasksHigh rc" "i64 (ntasksHigh rc + h) = ntasksHigh rc + h"
    "i64 (m + ntasksMedium rc) = m + ntasksMedium rc" "i64 (ntasksMedium rc + m) = ntasksMedium rc + m"
    "i64 (l + ntasksLow rc) = l + ntasksLow rc" "i64 (ntasksLow rc + l) = ntasksLow rc + l"
proof -
  have lim: "lim_ok (limit rc)" and nn: "0 \<le> ntasksHigh rc" "0 \<le> ntasksMedium rc" "0 \<le> ntasksLow rc"
    and tot: "ntasksHigh rc + ntasksMedium rc + ntasksLow rc \<le> GetTaskTotalLimit (limit rc)"
    using assms(1) by (simp_all add: rc_ok_def)
  have "ntasksHigh rc + ntasksMedium rc + ntasksLow rc < 2 ^ 31"
    using tot lim_ok_small(2) [OF lim] by linarith
  with nn assms(2-4)
  show "i64 (ntasksHigh rc + ntasksMedium rc + ntasksLow rc + h + m + l) = ntasksHigh rc + ntasksMedium rc + ntasksLow rc + h + m + l"
    "i64 (h + ntasksHigh rc) = h + ntasksHigh rc" "i64 (ntasksHigh rc + h) = ntasksHigh rc + h"
    "i64 (m + ntasksMedium rc) = m + ntasksMedium rc" "i64 (ntasksMedium rc + m) = ntasksMedium rc + m"
    "i64 (l + ntasksLow rc) = l + ntasksLow rc" "i64 (ntasksLow rc + l) = ntasksLow rc + l"
    by (simp_all add: i64_eq_iff in_i64_def count_ok_def)
qed

definition tasks_amount :: "int \<Rightarrow> int \<Rightarrow> int \<Rightarrow> amount" where
  "tasks_amount h m l = (\<lambda>k. 0)(CHigh := h, CMedium := m, CLow := l)"

lemma tasks_amount_simps [simp]:
  "tasks_amount h m l CHigh = h" "tasks_amount h m l CMedium = m" "tasks_amount h m l CLow = l"
  by (simp_all add: tasks_amount_def)

lemma addTasks_refused: "addTasks rc h m l = (Some e, rc') \<Longrightarrow> rc' = rc"
  by (auto simp: addTasks_def Let_def split: if_splits)

lemma addTasks_granted:
  assumes "rc_ok rc" "count_ok h" "count_ok m" "count_ok l" "addTasks rc h m l = (None, rc')"
  shows "rc' = shift (tasks_amount h m l) rc \<and> rc_ok rc'"
proof -
  note sums = rc_ok_task_sums [OF assms(1-4)]
  from assms(5) have
    "ntasksHigh rc + ntasksMedium rc + ntasksLow rc + h + m + l \<le> GetTaskTotalLimit (limit rc)"
    "h + ntasksHigh rc \<le> GetTaskLimit (limit rc) ReserveTaskPriorityHigh"
    "m + ntasksMedium rc \<le> GetTaskLimit (limit rc) ReserveTaskPriorityMedium"
    "l + ntasksLow rc \<le> GetTaskLimit (limit rc) ReserveTaskPriorityLow"
    and rc': "rc' = rc\<lparr>ntasksHigh := ntasksHigh rc + h, ntasksMedium := ntasksMedium rc + m, ntasksLow := ntasksLow rc + l\<rparr>"
    unfolding addTasks_def Let_def sums by (auto split: if_splits)
  then show ?thesis using assms(1-4) by (simp add: shift_def tasks_amount_def rc_ok_def count_ok_def)
qed

lemma removeTasks_undone:
  assumes "rc_ok rc" "0 \<le> h" "0 \<le> m" "0 \<le> l"
    "h \<le> ntasksHigh rc" "m \<le> ntasksMedium rc" "l \<le> ntasksLow rc"
  shows "removeTasks rc h m l = shift (\<lambda>k. - tasks_amount h m l k) rc"
  using assms usage_in_i64 [OF assms(1), of CHigh] usage_in_i64 [OF assms(1), of CMedium]
    usage_in_i64 [OF assms(1), of CLow]
  by (simp add: removeTasks_def shift_def tasks_amount_def i64_sub_exact)

definition task_amount :: "int \<times> ReserveTaskPriority \<Rightarrow> amount" where
  "task_amount p = (case snd p of
     ReserveTaskPriorityHigh \<Rightarrow> tasks_amount (fst p) 0 0
   | ReserveTaskPriorityMedium \<Rightarrow> tasks_amount 0 (fst p) 0
   | _ \<Rightarrow> tasks_amount 0 0 (fst p))"

definition task_valid :: "int \<times> ReserveTaskPriority \<Rightarrow> bool" where
  "task_valid p \<longleftrightarrow> count_ok (fst p) \<and> snd p \<noteq> ReserveTaskPriorityUnknown"

interpretation task: reservation "\<lambda>p rc. addTask rc (fst p) (snd p)" "\<lambda>p rc. removeTask rc (fst p) (snd p)"
  task_amount task_valid
proof (unfold_locales, goal_cases)
  case (1 p k)
  then show ?case
    by (cases "snd p"; cases k) (auto simp: task_amount_def tasks_amount_def task_valid_def)
next
  case (2 p rc e rc')
  then show ?case by (auto simp: addTask_def dest: addTasks_refused split: if_splits)
next
  case (3 p rc rc')
  then show ?case
    by (cases "snd p"; simp add: addTask_def task_amount_def task_valid_def; metis addTasks_granted count_ok_0)
next
  case (4 p rc)
  have nn: "0 \<le> fst p" using 4(1) by (auto simp: task_valid_def)
  have use: "0 \<le> ntasksHigh rc" "0 \<le> ntasksMedium rc" "0 \<le> ntasksLow rc" using 4(2) by (simp_all add: rc_ok_def)
  show ?case
    using 4(1,2) 4(3) [of CHigh] 4(3) [of CMedium] 4(3) [of CLow] nn use
    by (cases "snd p")
       (simp_all add: removeTask_def task_amount_def task_valid_def removeTasks_undone)
qed

definition conns_amount :: "int \<times> int \<times> int \<Rightarrow> amount" where
  "conns_amount p = (\<lambda>k. 0)(CIn := fst p, COut := fst (snd p), CFd := snd (snd p))"

definition conns_valid :: "int \<times> int \<times> int \<Rightarrow> bool" where
  "conns_valid p \<longleftrightarrow> count_ok (fst p) \<and> count_ok (fst (snd p)) \<and> count_ok (snd (snd p))"

lemma rc_ok_conn_sums:
  assumes "rc_ok rc" "count_ok i" "count_ok out" "count_ok f"
  shows "i64 (nconnsIn rc + i + nconnsOut rc + out) = nconnsIn rc + i + nconnsOut rc + out"
    "i64 (nconnsIn rc + i) = nconnsIn rc + i" "i64 (nconnsOut rc + out) = nconnsOut rc + out"
    "i64 (nfd rc + f) = nfd rc + f"
proof -
  have lim: "lim_ok (limit rc)" and nn: "0 \<le> nconnsIn rc" "0 \<le> nconnsOut rc" "0 \<le> nfd rc"
    and tot: "nconnsIn rc + nconnsOut rc \<le> GetConnTotalLimit (limit rc)" "nfd rc \<le> GetFDLimit (limit rc)"
    using assms(1) by (simp_all add: rc_ok_def)
  have "nconnsIn rc + nconnsOut rc < 2 ^ 31" "nfd rc < 2 ^ 31"
    using tot lim_ok_small(4,5) [OF lim] by linarith+
  with nn assms(2-4)
  show "i64 (nconnsIn rc + i + nconnsOut rc + out) = nconnsIn rc + i + nconnsOut rc + out"
    "i64 (nconnsIn rc + i) = nconnsIn rc + i" "i64 (nconnsOut rc + out) = nconnsOut rc + out"
    "i64 (nfd rc + f) = nfd rc + f"
    by (simp_all add: i64_eq_iff in_i64_def count_ok_def)
qed

lemma addConns_granted:
  assumes "rc_ok rc" "count_ok i" "count_ok out" "count_ok f" "addConns rc i out f = (None, rc')"
  shows "rc' = shift (conns_amount (i, out, f)) rc \<and> rc_ok rc'"
proof -
  note sums = rc_ok_conn_sums [OF assms(1-4)]
  have pos: "0 \<le> i" "0 \<le> out" "0 \<le> f" using assms(2-4) by auto
  from assms(1) have old: "nconnsIn rc \<le> GetConnLimit (limit rc) DirInbound"
    "nconnsOut rc \<le> GetConnLimit (limit rc) DirOutbound" "nfd rc \<le> GetFDLimit (limit rc)"
    by (simp_all add: rc_ok_def)
  from assms(5) have tot: "nconnsIn rc + i + nconnsOut rc + out \<le> GetConnTotalLimit (limit rc)"
    and part: "\<not> (0 < i \<and> GetConnLimit (limit rc) DirInbound < nconnsIn rc + i)"
      "\<not> (0 < out \<and> GetConnLimit (limit rc) DirOutbound < nconnsOut rc + out)"
      "\<not> (0 < f \<and> GetFDLimit (limit rc) < nfd rc + f)"
    and rc': "rc' = rc\<lparr>nconnsIn := nconnsIn rc + i, nconnsOut := nconnsOut rc + out, nfd := nfd rc + f\<rparr>"
    unfolding addConns_def Let_def sums by (auto split: if_splits)
  from part pos old have "nconnsIn rc + i \<le> GetConnLimit (limit rc) DirInbound"
    "nconnsOut rc + out \<le> GetConnLimit (limit rc) DirOutbound" "nfd rc + f \<le> GetFDLimit (limit rc)"
    by linarith+
  with tot pos assms(1) show ?thesis unfolding rc' by (simp add: shift_def conns_amount_def rc_ok_def)
qed

interpretation conns: reservation
  "\<lambda>p rc. addConns rc (fst p) (fst (snd p)) (snd (snd p))"
  "\<lambda>p rc. removeConns rc (fst p) (fst (snd p)) (snd (snd p))"
  conns_amount conns_valid
proof (unfold_locales, goal_cases)
  case (1 p k)
  then show ?case by (cases k) (auto simp: conns_amount_def conns_valid_def)
next
  case (2 p rc e rc')
  then show ?case by (auto simp: addConns_def Let_def split: if_splits)
next
  case (3 p rc rc')
  then show ?case using addConns_granted [of rc "fst p" "fst (snd p)" "snd (snd p)" rc']
    by (auto simp: conns_valid_def)
next
  case (4 p rc)
  then show ?case
    using 4(3) [of CIn] 4(3) [of COut] 4(3) [of CFd]
      usage_in_i64 [OF 4(2), of CIn] usage_in_i64 [OF 4(2), of COut] usage_in_i64 [OF 4(2), of CFd]
    by (simp add: removeConns_def shift_def conns_amount_def conns_valid_def count_ok_def i64_sub_exact)
qed

definition conn_amount :: "Direction \<Rightarrow> amount" where
  "conn_amount dir = conns_amount (if dir = DirInbound then (1, 0, 1) else (0, 1, 1))"

lemma conns_valid_one [simp]: "conns_valid (1, 0, 1)" "conns_valid (0, 1, 1)"
  by (simp_all add: conns_valid_def count_ok_def)

interpretation conn: reservation "\<lambda>dir rc. addConn rc dir" "\<lambda>dir rc. removeConn rc dir" conn_amount "\<lambda>_. True"
proof (unfold_locales, goal_cases)
  case (1 dir k)
  then show ?case using conns.amt_nonneg conns_valid_one unfolding conn_amount_def by presburger
next
  case (2 dir rc e rc')
  then show ?case
    using conns.refused [of "(1, 0, 1)" rc e rc'] conns.refused [of "(0, 1, 1)" rc e rc']
    by (cases dir) (simp_all add: addConn_def)
next
  case (3 dir rc rc')
  then show ?case
    using conns.granted [of "(1, 0, 1)" rc rc'] conns.granted [of "(0, 1, 1)" rc rc']
    by (cases dir) (auto simp: addConn_def conn_amount_def)
next
  case (4 dir rc)
  then show ?case
    using conns.undone [of "(1, 0, 1)" rc] conns.undone [of "(0, 1, 1)" rc]
    by (cases dir) (simp_all add: removeConn_def conn_amount_def)
qed

definition stat_valid :: "ScopeStat \<Rightarrow> bool" where
  "stat_valid st \<longleftrightarrow> 0 \<le> st_Memory st \<and> in_i64 (st_Memory st)
     \<and> count_ok (st_NumTasksHigh st) \<and> count_ok (st_NumTasksMedium st) \<and> count_ok (st_NumTasksLow st)
     \<and> count_ok (st_NumConnsInbound st) \<and> count_ok (st_NumConnsOutbound st) \<and> count_ok (st_NumFD st)"

text \<open>The five single reservations that make up a \<open>ScopeStat\<close>.\<close>

abbreviation st_mem :: "ScopeStat \<Rightarrow> int \<times> 8 word" where
  "st_mem st \<equiv> (st_Memory st, ReservationPriorityAlways)"

abbreviation st_conns :: "ScopeStat \<Rightarrow> int \<times> int \<times> int" where
  "st_conns st \<equiv> (st_NumConnsInbound st, st_NumConnsOutbound st, st_NumFD st)"

abbreviation st_high :: "ScopeStat \<Rightarrow> int \<times> ReserveTaskPriority" where
  "st_high st \<equiv> (st_NumTasksHigh st, ReserveTaskPriorityHigh)"

abbreviation st_medium :: "ScopeStat \<Rightarrow> int \<times> ReserveTaskPriority" where
  "st_medium st \<equiv> (st_NumTasksMedium st, ReserveTaskPriorityMedium)"

abbreviation st_low :: "ScopeStat \<Rightarrow> int \<times> ReserveTaskPriority" where
  "st_low st \<equiv> (st_NumTasksLow st, ReserveTaskPriorityLow)"

lemma stat_valid_parts:
  assumes "stat_valid st"
  shows "mem_valid (st_mem st)" "conns_valid (st_conns st)" "task_valid (st_high st)"
    "task_valid (st_medium st)" "task_valid (st_low st)"
  using assms by (simp_all add: stat_valid_def mem_valid_def conns_valid_def task_valid_def)

lemma st_amount_split:
  "st_amount st k = mem_amount (st_mem st) k + conns_amount (st_conns st) k + task_amount (st_high st) k
     + task_amount (st_medium st) k + task_amount (st_low st) k"
  by (cases k) (simp_all add: mem_amount_def conns_amount_def task_amount_def tasks_amount_def)

lemma amount_disjoint_simps [simp]:
  "mem_amount p CMemory = fst p" "k \<noteq> CMemory \<Longrightarrow> mem_amount p k = 0"
  "conns_amount q CIn = fst q" "conns_amount q COut = fst (snd q)" "conns_amount q CFd = snd (snd q)"
  "conns_amount q CMemory = 0" "conns_amount q CHigh = 0" "conns_amount q CMedium = 0" "conns_amount q CLow = 0"
  "task_amount t CMemory = 0" "task_amount t CIn = 0" "task_amount t COut = 0" "task_amount t CFd = 0"
  by (simp_all add: mem_amount_def conns_amount_def task_amount_def tasks_amount_def
      split: ReserveTaskPriority.split)

text \<open>The rollbacks of \<open>reserveStat\<close>, each extending the one before: what is released is held.\<close>

lemma rollback_memory:
  assumes v: "stat_valid st" and ok: "rc_ok rc" and use: "\<And>k. mem_amount (st_mem st) k \<le> usage k rc"
  shows "releaseMemory rc (st_Memory st) = shift (\<lambda>k. - mem_amount (st_mem st) k) rc
    \<and> rc_ok (releaseMemory rc (st_Memory st))"
  using mem.undone [OF stat_valid_parts(1) [OF v] ok use] mem.undo_ok [OF stat_valid_parts(1) [OF v] ok use] by simp

lemma rollback_conns:
  assumes v: "stat_valid st" and ok: "rc_ok rc"
    and use: "\<And>k. mem_amount (st_mem st) k + conns_amount (st_conns st) k \<le> usage k rc"
  defines "r \<equiv> removeConns (releaseMemory rc (st_Memory st))
      (st_NumConnsInbound st) (st_NumConnsOutbound st) (st_NumFD st)"
  shows "r = shift (\<lambda>k. - mem_amount (st_mem st) k - conns_amount (st_conns st) k) rc \<and> rc_ok r"
proof -
  note p = stat_valid_parts [OF v]
  have 1: "releaseMemory rc (st_Memory st) = shift (\<lambda>k. - mem_amount (st_mem st) k) rc"
    "rc_ok (releaseMemory rc (st_Memory st))"
    using rollback_memory [OF v ok] use conns.amt_nonneg [OF p(2)] by (smt (verit))+
  have l: "conns_amount (st_conns st) k \<le> usage k (releaseMemory rc (st_Memory st))" for k
    using use [of k] unfolding 1(1) usage_shift by linarith
  show ?thesis
    using conns.undone [OF p(2) 1(2) l] conns.undo_ok [OF p(2) 1(2) l] 1(1) by (simp add: r_def)
qed

lemma rollback_high:
  assumes v: "stat_valid st" and ok: "rc_ok rc"
    and use: "\<And>k. mem_amount (st_mem st) k + conns_amount (st_conns st) k + task_amount (st_high st) k \<le> usage k rc"
  defines "r \<equiv> removeTask (removeConns (releaseMemory rc (st_Memory st))
      (st_NumConnsInbound st) (st_NumConnsOutbound st) (st_NumFD st)) (st_NumTasksHigh st) ReserveTaskPriorityHigh"
  shows "r = shift (\<lambda>k. - mem_amount (st_mem st) k - conns_amount (st_conns st) k - task_amount (st_high st) k) rc
    \<and> rc_ok r"
proof -
  note p = stat_valid_parts [OF v]
  let ?q = "removeConns (releaseMemory rc (st_Memory st)) (st_NumConnsInbound st) (st_NumConnsOutbound st) (st_NumFD st)"
  have 1: "?q = shift (\<lambda>k. - mem_amount (st_mem st) k - conns_amount (st_conns st) k) rc" "rc_ok ?q"
    using rollback_conns [OF v ok] use task.amt_nonneg [OF p(3)] by (smt (verit))+
  have l: "task_amount (st_high st) k \<le> usage k ?q" for k
    using use [of k] unfolding 1(1) usage_shift by linarith
  show ?thesis
    using task.undone [OF p(3) 1(2) l] task.undo_ok [OF p(3) 1(2) l] 1(1) by (simp add: r_def)
qed

lemma rollback_medium:
  assumes v: "stat_valid st" and ok: "rc_ok rc"
    and use: "\<And>k. mem_amount (st_mem st) k + conns_amount (st_conns st) k + task_amount (st_high st) k
      + task_amount (st_medium st) k \<le> usage k rc"
  defines "r \<equiv> removeTask (removeTask (removeConns (releaseMemory rc (st_Memory st))
      (st_NumConnsInbound st) (st_NumConnsOutbound st) (st_NumFD st)) (st_NumTasksHigh st) ReserveTaskPriorityHigh)
      (st_NumTasksMedium st) ReserveTaskPriorityMedium"
  shows "r = shift (\<lambda>k. - mem_amount (st_mem st) k - conns_amount (st_conns st) k - task_amount (st_high st) k
      - task_amount (st_medium st) k) rc \<and> rc_ok r"
proof -
  note p = stat_valid_parts [OF v]
  let ?q = "removeTask (removeConns (releaseMemory rc (st_Memory st)) (st_NumConnsInbound st)
    (st_NumConnsOutbound st) (st_NumFD st)) (st_NumTasksHigh st) ReserveTaskPriorityHigh"
  have 1: "?q = shift (\<lambda>k. - mem_amount (st_mem st) k - conns_amount (st_conns st) k
      - task_amount (st_high st) k) rc" "rc_ok ?q"
    using rollback_high [OF v ok] use task.amt_nonneg [OF p(4)] by (smt (verit))+
  have l: "task_amount (st_medium st) k \<le> usage k ?q" for k
    using use [of k] unfolding 1(1) usage_shift by linarith
  show ?thesis
    using task.undone [OF p(4) 1(2) l] task.undo_ok [OF p(4) 1(2) l] 1(1) by (simp add: r_def)
qed

lemma releaseStat_exact:
  assumes v: "stat_valid st" and ok: "rc_ok rc" and use: "\<And>k. st_amount st k \<le> usage k rc"
  shows "releaseStat rc st = shift (\<lambda>k. - st_amount st k) rc"
proof -
  note p = stat_valid_parts [OF v]
  let ?q = "removeTask (removeTask (removeConns (releaseMemory rc (st_Memory st))
      (st_NumConnsInbound st) (st_NumConnsOutbound st) (st_NumFD st)) (st_NumTasksHigh st) ReserveTaskPriorityHigh)
      (st_NumTasksMedium st) ReserveTaskPriorityMedium"
  note u = use [unfolded st_amount_split]
  have 1: "?q = shift (\<lambda>k. - mem_amount (st_mem st) k - conns_amount (st_conns st) k
      - task_amount (st_high st) k - task_amount (st_medium st) k) rc" "rc_ok ?q"
    using rollback_medium [OF v ok] u task.amt_nonneg [OF p(5)] by (smt (verit))+
  have l: "task_amount (st_low st) k \<le> usage k ?q" for k
    using u [of k] unfolding 1(1) usage_shift by linarith
  have "releaseStat rc st = removeTask ?q (st_NumTasksLow st) ReserveTaskPriorityLow"
    by (simp add: releaseStat_def Let_def)
  also have "\<dots> = shift (\<lambda>k. - task_amount (st_low st) k) ?q"
    using task.undone [OF p(5) 1(2) l] by simp
  also have "\<dots> = shift (\<lambda>k. - st_amount st k) rc"
    unfolding 1(1) shift_shift st_amount_split by (simp add: algebra_simps)
  finally show ?thesis .
qed

lemma reserveStat_cases:
  assumes v: "stat_valid st" and ok: "rc_ok rc"
  shows "(\<exists>e. reserveStat rc st = (Some e, rc))
    \<or> (reserveStat rc st = (None, shift (st_amount st) rc) \<and> rc_ok (shift (st_amount st) rc))"
proof -
  note p = stat_valid_parts [OF v]
  note nn = usage_nonneg [OF ok]
  from p(1) ok show ?thesis
  proof (cases rule: mem.reserve_dest)
    case (refuse e)
    then show ?thesis by (simp add: reserveStat_def)
  next
    case 1: grant
    from p(2) 1(2) show ?thesis
    proof (cases rule: conns.reserve_dest)
      case (refuse e)
      then show ?thesis using 1 rollback_memory [OF v 1(2)] nn by (simp add: reserveStat_def)
    next
      case 2: grant
      from p(3) 2(2) show ?thesis
      proof (cases rule: task.reserve_dest)
        case (refuse e)
        then show ?thesis using 1 2 rollback_conns [OF v 2(2)] nn by (simp add: reserveStat_def)
      next
        case 3: grant
        from p(4) 3(2) show ?thesis
        proof (cases rule: task.reserve_dest)
          case (refuse e)
          then show ?thesis using 1 2 3 rollback_high [OF v 3(2)] nn by (simp add: reserveStat_def)
        next
          case 4: grant
          from p(5) 4(2) show ?thesis
          proof (cases rule: task.reserve_dest)
            case (refuse e)
            then show ?thesis using 1 2 3 4 rollback_medium [OF v 4(2)] nn by (simp add: reserveStat_def)
          next
            case 5: grant
            then show ?thesis using 1 2 3 4 by (simp add: reserveStat_def st_amount_split [abs_def])
          qed
        qed
      qed
    qed
  qed
qed

interpretation stat: reservation "\<lambda>st rc. reserveStat rc st" "\<lambda>st rc. releaseStat rc st" st_amount stat_valid
proof (unfold_locales, goal_cases)
  case (1 st k)
  then show ?case by (cases k) (auto simp: stat_valid_def)
next
  case (2 st rc e rc')
  then show ?case using reserveStat_cases [of st rc] by auto
next
  case (3 st rc rc')
  then show ?case using reserveStat_cases [of st rc] by auto
next
  case (4 st rc)
  then show ?case by (rule releaseStat_exact)
qed

section \<open>Properties of the counters\<close>



text \<open>A task reserved with the unknown priority is counted as a low-priority task and is not
  given back by releasing it with the same priority: the counter stays raised.\<close>

theorem unknown_priority_not_released:
  assumes "rc_ok rc" "count_ok n" "addTask rc n ReserveTaskPriorityUnknown = (None, rc')"
  shows "ntasksLow (removeTask rc' n ReserveTaskPriorityUnknown) = ntasksLow rc + n"
  using addTasks_granted [OF assms(1) count_ok_0 count_ok_0 assms(2), of rc'] assms(3)
  by (auto simp: addTask_def removeTask_def shift_def)

theorem unknown_priority_not_released_witness:
  "\<exists>rc rc'. addTask rc 2 ReserveTaskPriorityUnknown = (None, rc')
     \<and> ntasksLow (removeTask rc' 2 ReserveTaskPriorityUnknown) = ntasksLow rc + 2"
proof -
  let ?l = "GfSp \<lparr>l_Memory = 10, l_Tasks = 5, l_TasksHighPriority = 5, l_TasksMediumPriority = 5,
       l_TasksLowPriority = 5, l_Fd = 0, l_Conns = 0, l_ConnsInbound = 0, l_ConnsOutbound = 0\<rparr>"
  have "lim_ok ?l"
    by (auto simp: lim_ok_def is_gfsp_def wf_gfsp_limit_def nonneg_limit_def in_i64_def in_i32_def MaxInt64_def)
  then have ok: "rc_ok (new_resources ?l)" by (rule rc_ok_new)
  have c: "count_ok 2" by (simp add: count_ok_def)
  have "addTask (new_resources ?l) 2 ReserveTaskPriorityUnknown = (None, (new_resources ?l)\<lparr>ntasksLow := 2\<rparr>)"
    by (simp add: addTask_def addTasks_def new_resources_def i64_def)
  then show ?thesis using unknown_priority_not_released [OF ok c] by blast
qed

end
