(* ===== verification/Scopes.thy ===== *)
theory Scopes
  imports Resources
begin

text \<open>
  The tree of resource scopes: \<open>base/gfsprcmgr/scope.go\<close> and the manager of
  \<open>base/gfsprcmgr/rcmgr.go\<close>. The Go heap of \<open>*resourceScope\<close> is a list, a pointer is an index
  into it and allocation appends. Every operation is one Go method; it takes the heap and the
  receiver's address and returns the heap after the call (with the error, where the method
  returns one). A method holds the receiver's lock while it calls its owner or edges and
  releases it on return, so a call is atomic for every observer that takes the locks.

  The recursion of the methods goes from a scope to its owner. An owner is always allocated
  before its spans (\<open>wf_heap\<close> below), so the guard \<open>p < s\<close> in the recursive definitions is
  always true; where it is not, the Go code would lock a mutex it already holds.
\<close>

section \<open>Scopes\<close>

record resourceScope =
  sc_done :: bool
  refCnt :: int
  spanID :: int
  sc_rc :: resources
  owner :: "nat option"
  edges :: "nat list"
  sc_name :: string

type_synonym heap = "resourceScope list"

definition upd_rc :: "heap \<Rightarrow> nat \<Rightarrow> resources \<Rightarrow> heap" where
  "upd_rc h s rc = h[s := (h ! s)\<lparr>sc_rc := rc\<rparr>]"

definition wrapError :: "heap \<Rightarrow> nat \<Rightarrow> rc_error \<Rightarrow> rc_error" where
  "wrapError h s err = WrapError (sc_name (h ! s)) err"

definition IncRef :: "heap \<Rightarrow> nat \<Rightarrow> heap" where
  "IncRef h s = h[s := (h ! s)\<lparr>refCnt := i64 (refCnt (h ! s) + 1)\<rparr>]"

definition DecRef :: "heap \<Rightarrow> nat \<Rightarrow> heap" where
  "DecRef h s = h[s := (h ! s)\<lparr>refCnt := i64 (refCnt (h ! s) - 1)\<rparr>]"

definition nextSpanID :: "heap \<Rightarrow> nat \<Rightarrow> int \<times> heap" where
  "nextSpanID h s = (let i = i64 (spanID (h ! s) + 1) in (i, h[s := (h ! s)\<lparr>spanID := i\<rparr>]))"

definition newResourceScope :: "heap \<Rightarrow> Limit \<Rightarrow> nat list \<Rightarrow> string \<Rightarrow> nat \<times> heap" where
  "newResourceScope h lim es nm =
    (let h1 = foldl IncRef h es in
     (length h1, h1 @ [\<lparr>sc_done = False, refCnt = 0, spanID = 0, sc_rc = new_resources lim,
                        owner = None, edges = es, sc_name = nm\<rparr>]))"

definition newResourceScopeSpan :: "heap \<Rightarrow> nat \<Rightarrow> int \<Rightarrow> string \<Rightarrow> nat \<times> heap" where
  "newResourceScopeSpan h ow i nm =
     (length h, h @ [\<lparr>sc_done = False, refCnt = 0, spanID = 0,
                      sc_rc = new_resources (limit (sc_rc (h ! ow))), owner = Some ow, edges = [],
                      sc_name = sc_name (h ! ow) @ ''.span-'' @ nm @ ''-'' @ decimal_int i\<rparr>])"

definition BeginSpan :: "heap \<Rightarrow> nat \<Rightarrow> (rc_error + nat) \<times> heap" where
  "BeginSpan h s =
    (if sc_done (h ! s) then (Inl (wrapError h s ErrResourceScopeClosed), h)
     else let h1 = IncRef h s; (i, h2) = nextSpanID h1 s; (a, h3) = newResourceScopeSpan h2 s i ''temp''
          in (Inr a, h3))"

definition Stat :: "heap \<Rightarrow> nat \<Rightarrow> ScopeStat" where
  "Stat h s = rc_stat (sc_rc (h ! s))"

definition RemainingResource :: "heap \<Rightarrow> nat \<Rightarrow> Limit" where
  "RemainingResource h s = remaining (sc_rc (h ! s))"

definition IsUnused :: "heap \<Rightarrow> nat \<Rightarrow> bool" where
  "IsUnused h s =
    (if sc_done (h ! s) then True
     else if refCnt (h ! s) > 0 then False
     else let st = rc_stat (sc_rc (h ! s)) in
       st_NumConnsInbound st = 0 \<and> st_NumConnsOutbound st = 0 \<and> st_NumFD st = 0)"

definition zero_stat :: ScopeStat where
  "zero_stat = \<lparr>st_Memory = 0, st_NumTasksHigh = 0, st_NumTasksMedium = 0, st_NumTasksLow = 0,
     st_NumConnsInbound = 0, st_NumConnsOutbound = 0, st_NumFD = 0\<rparr>"

section \<open>Memory\<close>

definition ReserveMemoryForChild :: "heap \<Rightarrow> nat \<Rightarrow> int \<Rightarrow> 8 word \<Rightarrow> (ScopeStat \<times> rc_error option) \<times> heap" where
  "ReserveMemoryForChild h s sz prio =
    (if sc_done (h ! s) then ((rc_stat (sc_rc (h ! s)), Some (wrapError h s ErrResourceScopeClosed)), h)
     else case reserveMemory (sc_rc (h ! s)) sz prio of
       (Some err, rc) \<Rightarrow> ((rc_stat rc, Some (wrapError h s err)), upd_rc h s rc)
     | (None, rc) \<Rightarrow> ((zero_stat, None), upd_rc h s rc))"

definition ReleaseMemoryForChild :: "heap \<Rightarrow> nat \<Rightarrow> int \<Rightarrow> heap" where
  "ReleaseMemoryForChild h s sz =
    (if sc_done (h ! s) then h else upd_rc h s (releaseMemory (sc_rc (h ! s)) sz))"

text \<open>The loop over the edges returns how many were reserved before the first error.\<close>

fun reserveMemoryLoop :: "heap \<Rightarrow> nat list \<Rightarrow> int \<Rightarrow> 8 word \<Rightarrow> nat \<times> rc_error option \<times> heap" where
  "reserveMemoryLoop h [] sz prio = (0, None, h)"
| "reserveMemoryLoop h (e # es) sz prio =
    (case ReserveMemoryForChild h e sz prio of
       ((_, Some err), h1) \<Rightarrow> (0, Some err, h1)
     | ((_, None), h1) \<Rightarrow> (case reserveMemoryLoop h1 es sz prio of (n, err, h2) \<Rightarrow> (Suc n, err, h2)))"

definition reserveMemoryForEdges :: "heap \<Rightarrow> nat list \<Rightarrow> int \<Rightarrow> 8 word \<Rightarrow> rc_error option \<times> heap" where
  "reserveMemoryForEdges h es sz prio =
    (case reserveMemoryLoop h es sz prio of
       (n, Some err, h1) \<Rightarrow> (Some err, foldl (\<lambda>h e. ReleaseMemoryForChild h e sz) h1 (take n es))
     | (n, None, h1) \<Rightarrow> (None, h1))"

function ReserveMemory :: "heap \<Rightarrow> nat \<Rightarrow> int \<Rightarrow> 8 word \<Rightarrow> rc_error option \<times> heap" where
  "ReserveMemory h s sz prio =
    (if sc_done (h ! s) then (Some (wrapError h s ErrResourceScopeClosed), h)
     else case reserveMemory (sc_rc (h ! s)) sz prio of
       (Some err, rc) \<Rightarrow> (Some (wrapError h s err), upd_rc h s rc)
     | (None, rc) \<Rightarrow>
        (let h1 = upd_rc h s rc in
         case (case owner (h ! s) of
                 Some p \<Rightarrow> if p < s then ReserveMemory h1 p sz prio else (Some ErrResourceScopeClosed, h1)
               | None \<Rightarrow> reserveMemoryForEdges h1 (edges (h ! s)) sz prio) of
           (Some err, h2) \<Rightarrow> (Some (wrapError h s err), upd_rc h2 s (releaseMemory (sc_rc (h2 ! s)) sz))
         | (None, h2) \<Rightarrow> (None, h2)))"
  by pat_completeness auto
termination by (relation "measure (\<lambda>(h, s, sz, prio). s)") auto

function ReleaseMemory :: "heap \<Rightarrow> nat \<Rightarrow> int \<Rightarrow> heap" where
  "ReleaseMemory h s sz =
    (if sc_done (h ! s) then h
     else let h1 = upd_rc h s (releaseMemory (sc_rc (h ! s)) sz) in
       case owner (h ! s) of
         Some p \<Rightarrow> if p < s then ReleaseMemory h1 p sz else h1
       | None \<Rightarrow> foldl (\<lambda>h e. ReleaseMemoryForChild h e sz) h1 (edges (h ! s)))"
  by pat_completeness auto
termination by (relation "measure (\<lambda>(h, s, sz). s)") auto

section \<open>Tasks\<close>

definition AddTaskForChild ::
  "heap \<Rightarrow> nat \<Rightarrow> int \<Rightarrow> ReserveTaskPriority \<Rightarrow> (ScopeStat \<times> rc_error option) \<times> heap" where
  "AddTaskForChild h s num prio =
    (if sc_done (h ! s) then ((rc_stat (sc_rc (h ! s)), Some (wrapError h s ErrResourceScopeClosed)), h)
     else case addTask (sc_rc (h ! s)) num prio of
       (Some err, rc) \<Rightarrow> ((rc_stat rc, Some (wrapError h s err)), upd_rc h s rc)
     | (None, rc) \<Rightarrow> ((zero_stat, None), upd_rc h s rc))"

definition RemoveTaskForChild :: "heap \<Rightarrow> nat \<Rightarrow> int \<Rightarrow> ReserveTaskPriority \<Rightarrow> heap" where
  "RemoveTaskForChild h s num prio =
    (if sc_done (h ! s) then h else upd_rc h s (removeTask (sc_rc (h ! s)) num prio))"

fun addTaskLoop :: "heap \<Rightarrow> nat list \<Rightarrow> int \<Rightarrow> ReserveTaskPriority \<Rightarrow> nat \<times> rc_error option \<times> heap" where
  "addTaskLoop h [] num prio = (0, None, h)"
| "addTaskLoop h (e # es) num prio =
    (case AddTaskForChild h e num prio of
       ((_, Some err), h1) \<Rightarrow> (0, Some err, h1)
     | ((_, None), h1) \<Rightarrow> (case addTaskLoop h1 es num prio of (n, err, h2) \<Rightarrow> (Suc n, err, h2)))"

definition addTaskForEdges :: "heap \<Rightarrow> nat list \<Rightarrow> int \<Rightarrow> ReserveTaskPriority \<Rightarrow> rc_error option \<times> heap" where
  "addTaskForEdges h es num prio =
    (case addTaskLoop h es num prio of
       (n, Some err, h1) \<Rightarrow> (Some err, foldl (\<lambda>h e. RemoveTaskForChild h e num prio) h1 (take n es))
     | (n, None, h1) \<Rightarrow> (None, h1))"

function AddTask :: "heap \<Rightarrow> nat \<Rightarrow> int \<Rightarrow> ReserveTaskPriority \<Rightarrow> rc_error option \<times> heap" where
  "AddTask h s num prio =
    (if sc_done (h ! s) then (Some (wrapError h s ErrResourceScopeClosed), h)
     else case addTask (sc_rc (h ! s)) num prio of
       (Some err, rc) \<Rightarrow> (Some (wrapError h s err), upd_rc h s rc)
     | (None, rc) \<Rightarrow>
        (let h1 = upd_rc h s rc in
         case (case owner (h ! s) of
                 Some p \<Rightarrow> if p < s then AddTask h1 p num prio else (Some ErrResourceScopeClosed, h1)
               | None \<Rightarrow> addTaskForEdges h1 (edges (h ! s)) num prio) of
           (Some err, h2) \<Rightarrow> (Some (wrapError h s err), upd_rc h2 s (removeTask (sc_rc (h2 ! s)) num prio))
         | (None, h2) \<Rightarrow> (None, h2)))"
  by pat_completeness auto
termination by (relation "measure (\<lambda>(h, s, num, prio). s)") auto

function RemoveTask :: "heap \<Rightarrow> nat \<Rightarrow> int \<Rightarrow> ReserveTaskPriority \<Rightarrow> heap" where
  "RemoveTask h s num prio =
    (if sc_done (h ! s) then h
     else let h1 = upd_rc h s (removeTask (sc_rc (h ! s)) num prio);
              h2 = (case owner (h ! s) of
                 Some p \<Rightarrow> if p < s then RemoveTask h1 p num prio else h1
               | None \<Rightarrow> h1)
          in foldl (\<lambda>h e. RemoveTaskForChild h e num prio) h2 (edges (h ! s)))"
  by pat_completeness auto
termination by (relation "measure (\<lambda>(h, s, num, prio). s)") auto

section \<open>Connections\<close>

definition AddConnForChild :: "heap \<Rightarrow> nat \<Rightarrow> Direction \<Rightarrow> (ScopeStat \<times> rc_error option) \<times> heap" where
  "AddConnForChild h s dir =
    (if sc_done (h ! s) then ((rc_stat (sc_rc (h ! s)), Some (wrapError h s ErrResourceScopeClosed)), h)
     else case addConn (sc_rc (h ! s)) dir of
       (Some err, rc) \<Rightarrow> ((rc_stat rc, Some (wrapError h s err)), upd_rc h s rc)
     | (None, rc) \<Rightarrow> ((zero_stat, None), upd_rc h s rc))"

definition RemoveConnForChild :: "heap \<Rightarrow> nat \<Rightarrow> Direction \<Rightarrow> heap" where
  "RemoveConnForChild h s dir =
    (if sc_done (h ! s) then h else upd_rc h s (removeConn (sc_rc (h ! s)) dir))"

fun addConnLoop :: "heap \<Rightarrow> nat list \<Rightarrow> Direction \<Rightarrow> nat \<times> rc_error option \<times> heap" where
  "addConnLoop h [] dir = (0, None, h)"
| "addConnLoop h (e # es) dir =
    (case AddConnForChild h e dir of
       ((_, Some err), h1) \<Rightarrow> (0, Some err, h1)
     | ((_, None), h1) \<Rightarrow> (case addConnLoop h1 es dir of (n, err, h2) \<Rightarrow> (Suc n, err, h2)))"

definition addConnForEdges :: "heap \<Rightarrow> nat list \<Rightarrow> Direction \<Rightarrow> rc_error option \<times> heap" where
  "addConnForEdges h es dir =
    (case addConnLoop h es dir of
       (n, Some err, h1) \<Rightarrow> (Some err, foldl (\<lambda>h e. RemoveConnForChild h e dir) h1 (take n es))
     | (n, None, h1) \<Rightarrow> (None, h1))"

function AddConn :: "heap \<Rightarrow> nat \<Rightarrow> Direction \<Rightarrow> rc_error option \<times> heap" where
  "AddConn h s dir =
    (if sc_done (h ! s) then (Some (wrapError h s ErrResourceScopeClosed), h)
     else case addConn (sc_rc (h ! s)) dir of
       (Some err, rc) \<Rightarrow> (Some (wrapError h s err), upd_rc h s rc)
     | (None, rc) \<Rightarrow>
        (let h1 = upd_rc h s rc in
         case (case owner (h ! s) of
                 Some p \<Rightarrow> if p < s then AddConn h1 p dir else (Some ErrResourceScopeClosed, h1)
               | None \<Rightarrow> addConnForEdges h1 (edges (h ! s)) dir) of
           (Some err, h2) \<Rightarrow> (Some (wrapError h s err), upd_rc h2 s (removeConn (sc_rc (h2 ! s)) dir))
         | (None, h2) \<Rightarrow> (None, h2)))"
  by pat_completeness auto
termination by (relation "measure (\<lambda>(h, s, dir). s)") auto

function RemoveConn :: "heap \<Rightarrow> nat \<Rightarrow> Direction \<Rightarrow> heap" where
  "RemoveConn h s dir =
    (if sc_done (h ! s) then h
     else let h1 = upd_rc h s (removeConn (sc_rc (h ! s)) dir);
              h2 = (case owner (h ! s) of
                 Some p \<Rightarrow> if p < s then RemoveConn h1 p dir else h1
               | None \<Rightarrow> h1)
          in foldl (\<lambda>h e. RemoveConnForChild h e dir) h2 (edges (h ! s)))"
  by pat_completeness auto
termination by (relation "measure (\<lambda>(h, s, dir). s)") auto

section \<open>All resources of a ScopeStat\<close>

definition ReserveForChild :: "heap \<Rightarrow> nat \<Rightarrow> ScopeStat \<Rightarrow> rc_error option \<times> heap" where
  "ReserveForChild h s st =
    (if sc_done (h ! s) then (Some (wrapError h s ErrResourceScopeClosed), h)
     else case reserveStat (sc_rc (h ! s)) st of
       (Some err, rc) \<Rightarrow> (Some (wrapError h s err), upd_rc h s rc)
     | (None, rc) \<Rightarrow> (None, upd_rc h s rc))"

definition ReleaseForChild :: "heap \<Rightarrow> nat \<Rightarrow> ScopeStat \<Rightarrow> heap" where
  "ReleaseForChild h s st =
    (if sc_done (h ! s) then h else upd_rc h s (releaseStat (sc_rc (h ! s)) st))"

function ReserveResources :: "heap \<Rightarrow> nat \<Rightarrow> ScopeStat \<Rightarrow> rc_error option \<times> heap" where
  "ReserveResources h s st =
    (if sc_done (h ! s) then (Some (wrapError h s ErrResourceScopeClosed), h)
     else case reserveStat (sc_rc (h ! s)) st of
       (Some err, rc) \<Rightarrow> (Some (wrapError h s err), upd_rc h s rc)
     | (None, rc) \<Rightarrow>
        (let h1 = upd_rc h s rc in
         case (case owner (h ! s) of
                 Some p \<Rightarrow> if p < s then ReserveResources h1 p st else (Some ErrResourceScopeClosed, h1)
               | None \<Rightarrow> (case edges (h ! s) of
                     [] \<Rightarrow> (None, h1)
                   | e # _ \<Rightarrow> ReserveForChild h1 e st)) of
           (Some err, h2) \<Rightarrow> (Some err, upd_rc h2 s (releaseStat (sc_rc (h2 ! s)) st))
         | (None, h2) \<Rightarrow> (None, h2)))"
  by pat_completeness auto
termination by (relation "measure (\<lambda>(h, s, st). s)") auto

text \<open>\<open>ReleaseResources\<close> and its body \<open>ReleaseResourcesWithoutLock\<close> (they differ by the lock only).\<close>

function ReleaseResources :: "heap \<Rightarrow> nat \<Rightarrow> ScopeStat \<Rightarrow> heap" where
  "ReleaseResources h s st =
    (if sc_done (h ! s) then h
     else let h1 = upd_rc h s (releaseStat (sc_rc (h ! s)) st) in
       case owner (h ! s) of
         Some p \<Rightarrow> if p < s then ReleaseResources h1 p st else h1
       | None \<Rightarrow> foldl (\<lambda>h e. ReleaseForChild h e st) h1 (edges (h ! s)))"
  by pat_completeness auto
termination by (relation "measure (\<lambda>(h, s, st). s)") auto

definition Release :: "heap \<Rightarrow> nat \<Rightarrow> heap" where
  "Release h s =
    (if sc_done (h ! s) then h
     else let st = rc_stat (sc_rc (h ! s)); h1 = upd_rc h s (releaseStat (sc_rc (h ! s)) st) in
       case owner (h ! s) of
         Some p \<Rightarrow> ReleaseResources h1 p st
       | None \<Rightarrow> foldl (\<lambda>h e. ReleaseForChild h e st) h1 (edges (h ! s)))"

definition Done :: "heap \<Rightarrow> nat \<Rightarrow> heap" where
  "Done h s =
    (if sc_done (h ! s) then h
     else let st = rc_stat (sc_rc (h ! s));
              h1 = (case owner (h ! s) of
                 Some p \<Rightarrow> DecRef (ReleaseResources h p st) p
               | None \<Rightarrow> foldl (\<lambda>h e. DecRef (ReleaseForChild h e st) e) h (edges (h ! s)))
          in h1[s := (h1 ! s)\<lparr>sc_rc := (sc_rc (h1 ! s))\<lparr>nconnsIn := 0, nconnsOut := 0, nfd := 0, memory := 0\<rparr>,
                              sc_done := True\<rparr>])"

declare ReserveMemory.simps [simp del] ReleaseMemory.simps [simp del] AddTask.simps [simp del]
  RemoveTask.simps [simp del] AddConn.simps [simp del] RemoveConn.simps [simp del]
  ReserveResources.simps [simp del] ReleaseResources.simps [simp del]

section \<open>The resource manager\<close>

record resourceManager =
  rm_limits :: Limiter
  rm_heap :: heap
  rm_system :: nat
  rm_transient :: nat
  rm_svc :: "string \<rightharpoonup> nat"

text \<open>\<open>GetSystemLimits\<close> of the stub \<open>NullLimit\<close> is nil; the manager is never built with it, and a
  nil limit would panic on first use.\<close>

definition NewResourceManager :: "Limiter \<Rightarrow> resourceManager option" where
  "NewResourceManager lims = (case GetSystemLimits lims of
     None \<Rightarrow> None
   | Some l \<Rightarrow> (let (sys, h) = newResourceScope [] l [] ''system'' in
       Some \<lparr>rm_limits = lims, rm_heap = h, rm_system = sys, rm_transient = sys, rm_svc = Map.empty\<rparr>))"

definition OpenService :: "resourceManager \<Rightarrow> string \<Rightarrow> nat \<times> resourceManager" where
  "OpenService r nm =
    (let (scope, h) = (case GetServiceLimits (rm_limits r) nm of
        None \<Rightarrow> (let (i, h1) = nextSpanID (rm_heap r) (rm_system r)
                 in newResourceScopeSpan h1 (rm_system r) i nm)
      | Some l \<Rightarrow> newResourceScope (rm_heap r) l [rm_system r] nm)
     in (scope, r\<lparr>rm_heap := h, rm_svc := (rm_svc r)(nm \<mapsto> scope)\<rparr>))"

definition ViewSystem :: "resourceManager \<Rightarrow> (heap \<Rightarrow> nat \<Rightarrow> 'e option \<times> heap) \<Rightarrow> 'e option \<times> resourceManager" where
  "ViewSystem r f = (let (e, h) = f (rm_heap r) (rm_system r) in (e, r\<lparr>rm_heap := h\<rparr>))"

definition ViewService :: "resourceManager \<Rightarrow> string \<Rightarrow> (heap \<Rightarrow> nat \<Rightarrow> 'e option \<times> heap) \<Rightarrow> 'e option \<times> resourceManager" where
  "ViewService r nm f = (case rm_svc r nm of
     None \<Rightarrow> (None, r)
   | Some sc \<Rightarrow> (let (e, h) = f (rm_heap r) sc in (e, r\<lparr>rm_heap := h\<rparr>)))"

text \<open>\<open>ServiceState\<close> prints the usage and the limit it looks up; \<open>prt_stat\<close> and \<open>prt_limit\<close> are the
  two \<open>String\<close> methods. The lookup passes the printed usage as the service name.\<close>

definition ServiceState ::
  "(ScopeStat \<Rightarrow> string) \<Rightarrow> (Limit option \<Rightarrow> string) \<Rightarrow> resourceManager \<Rightarrow> string \<Rightarrow> string" where
  "ServiceState prt_stat prt_limit r nm = (case rm_svc r nm of
     None \<Rightarrow> ''''
   | Some sc \<Rightarrow>
      (let state = prt_stat (Stat (rm_heap r) sc);
           lim = GetServiceLimits (rm_limits r) state;
           limitState = (if lim = None then prt_limit (GetSystemLimits (rm_limits r)) else prt_limit lim)
       in ''use: '' @ state @ ''limit: '' @ limitState))"

end
