(* ===== verification/Scope_Accounting.thy ===== *)
theory Scope_Accounting
  imports Scopes
begin

text \<open>
  What the scope tree promises. The scopes the manager builds form a tree rooted at the
  system scope (\<open>wf_tree\<close>): a span points to its owner, a service scope has the system scope
  as its only edge. On such a tree each of the four kinds of reservation (memory, tasks,
  connections, a whole \<open>ScopeStat\<close>) is the same walk to the root, \<open>reserve_up\<close>, and each
  release the same walk \<open>release_up\<close>. The walks are specified once, in the locale
  \<open>reservation\<close>: a refused reservation changes nothing, a granted one charges exactly the
  scopes on the path, a release subtracts from the open part of the path.
\<close>

section \<open>The tree\<close>

definition parent :: "heap \<Rightarrow> nat \<Rightarrow> nat" where
  "parent h s = (case owner (h ! s) of Some p \<Rightarrow> p | None \<Rightarrow> 0)"

definition wf_tree :: "heap \<Rightarrow> bool" where
  "wf_tree h \<longleftrightarrow> h \<noteq> [] \<and> owner (h ! 0) = None \<and> edges (h ! 0) = []
     \<and> (\<forall>i < length h. 0 < i \<longrightarrow> (case owner (h ! i) of
           Some p \<Rightarrow> p < i \<and> edges (h ! i) = []
         | None \<Rightarrow> edges (h ! i) = [0]))"

definition all_ok :: "heap \<Rightarrow> bool" where
  "all_ok h \<longleftrightarrow> (\<forall>i < length h. rc_ok (sc_rc (h ! i)))"

lemma parent_less: "wf_tree h \<Longrightarrow> s < length h \<Longrightarrow> 0 < s \<Longrightarrow> parent h s < s"
  by (auto simp: wf_tree_def parent_def split: option.splits)

function path :: "heap \<Rightarrow> nat \<Rightarrow> nat list" where
  "path h s = (if s = 0 \<or> \<not> parent h s < s then [s] else s # path h (parent h s))"
  by pat_completeness auto
termination by (relation "measure (\<lambda>(h, s). s)") auto

declare path.simps [simp del]

lemma path_le: "i \<in> set (path h s) \<Longrightarrow> i \<le> s"
proof (induction h s rule: path.induct)
  case (1 h s)
  show ?case
  proof (cases "s = 0 \<or> \<not> parent h s < s")
    case True
    then show ?thesis using 1 path.simps [of h s] by simp
  next
    case False
    then show ?thesis using 1 path.simps [of h s] by fastforce
  qed
qed

lemma path_self [simp]: "s \<in> set (path h s)"
  by (subst path.simps) simp

lemma path_parent_closed:
  assumes "i \<in> set (path h s)" "0 < i" "parent h i < i"
  shows "parent h i \<in> set (path h s)"
  using assms
proof (induction h s rule: path.induct)
  case (1 h s)
  then show ?case
    using path.simps [of h s] path_self [of "parent h s" h] by (cases "s = 0 \<or> \<not> parent h s < s") auto
qed

text \<open>A path is a chain: a scope on it other than the start has exactly one child on it.\<close>

lemma path_pred_unique:
  assumes "i \<in> set (path h s)" "j \<in> set (path h s)" "0 < i" "0 < j"
    "parent h i = parent h j" "parent h i < i" "parent h j < j"
  shows "i = j"
  using assms
proof (induction h s rule: path.induct)
  case (1 h s)
  have step: "parent h k < parent h s" if "k \<in> set (path h (parent h s))" "parent h k < k" for k
    using path_le [OF that(1)] that(2) by simp
  show ?case
  proof (cases "s = 0 \<or> \<not> parent h s < s")
    case True
    then show ?thesis using 1(2,3) path.simps [of h s] by simp
  next
    case False
    then have p: "path h s = s # path h (parent h s)" using path.simps [of h s] by simp
    show ?thesis
      using 1(2-) 1(1) False step [of i] step [of j] by (auto simp: p)
  qed
qed

lemma path_pred_exists:
  assumes "p \<in> set (path h s)" "p \<noteq> s"
  shows "\<exists>c \<in> set (path h s). 0 < c \<and> parent h c = p \<and> p < c"
  using assms
proof (induction h s rule: path.induct)
  case (1 h s)
  show ?case
  proof (cases "s = 0 \<or> \<not> parent h s < s")
    case True
    then show ?thesis using 1(2,3) path.simps [of h s] by simp
  next
    case False
    then have p: "path h s = s # path h (parent h s)" using path.simps [of h s] by simp
    then show ?thesis using 1 False by (cases "p = parent h s") auto
  qed
qed

text \<open>Two heaps with the same structure have the same paths.\<close>

definition same_tree :: "heap \<Rightarrow> heap \<Rightarrow> bool" where
  "same_tree h h' \<longleftrightarrow> length h' = length h
     \<and> (\<forall>i < length h. owner (h' ! i) = owner (h ! i) \<and> edges (h' ! i) = edges (h ! i)
          \<and> sc_done (h' ! i) = sc_done (h ! i))"

lemma same_tree_wf: "same_tree h h' \<Longrightarrow> wf_tree h' \<longleftrightarrow> wf_tree h"
  unfolding same_tree_def wf_tree_def
  by (cases "h = []") (auto split: option.splits)

lemma same_tree_parent: "same_tree h h' \<Longrightarrow> s < length h \<Longrightarrow> parent h' s = parent h s"
  by (simp add: same_tree_def parent_def)

lemma same_tree_path: "same_tree h h' \<Longrightarrow> s < length h \<Longrightarrow> path h' s = path h s"
proof (induction h s rule: path.induct)
  case (1 h s)
  then show ?case
    using path.simps [of h s] path.simps [of h' s] same_tree_parent [OF 1(2,3)] by auto
qed

lemma same_tree_upd_rc [simp]: "same_tree h (upd_rc h s rc)"
  by (cases "s < length h") (auto simp: same_tree_def upd_rc_def nth_list_update)

lemma same_tree_trans: "same_tree h1 h2 \<Longrightarrow> same_tree h2 h3 \<Longrightarrow> same_tree h1 h3"
  by (auto simp: same_tree_def)

lemma length_upd_rc [simp]: "length (upd_rc h s rc) = length h"
  by (simp add: upd_rc_def)

lemma upd_rc_nth: "i < length h \<Longrightarrow> upd_rc h s rc ! i = (if i = s then (h ! s)\<lparr>sc_rc := rc\<rparr> else h ! i)"
  by (simp add: upd_rc_def nth_list_update)

lemma upd_rc_same [simp]: "upd_rc h s (sc_rc (h ! s)) = h"
  by (simp add: upd_rc_def)

lemma upd_rc_upd_rc [simp]: "upd_rc (upd_rc h s a) s b = upd_rc h s b"
  by (cases "s < length h") (simp_all add: upd_rc_def list_update_beyond)

section \<open>Walks to the root\<close>

function reserve_up ::
  "(resources \<Rightarrow> rc_error option \<times> resources) \<Rightarrow> (resources \<Rightarrow> resources) \<Rightarrow> heap \<Rightarrow> nat \<Rightarrow> bool \<times> heap" where
  "reserve_up res und h s =
    (if sc_done (h ! s) then (False, h)
     else case res (sc_rc (h ! s)) of
       (Some err, rc) \<Rightarrow> (False, upd_rc h s rc)
     | (None, rc) \<Rightarrow>
        (let h1 = upd_rc h s rc in
         if s = 0 \<or> \<not> parent h s < s then (True, h1)
         else case reserve_up res und h1 (parent h s) of
           (False, h2) \<Rightarrow> (False, upd_rc h2 s (und (sc_rc (h2 ! s))))
         | (True, h2) \<Rightarrow> (True, h2)))"
  by pat_completeness auto
termination by (relation "measure (\<lambda>(res, und, h, s). s)") auto

function release_up :: "(resources \<Rightarrow> resources) \<Rightarrow> heap \<Rightarrow> nat \<Rightarrow> heap" where
  "release_up und h s =
    (if sc_done (h ! s) then h
     else let h1 = upd_rc h s (und (sc_rc (h ! s))) in
       if s = 0 \<or> \<not> parent h s < s then h1 else release_up und h1 (parent h s))"
  by pat_completeness auto
termination by (relation "measure (\<lambda>(und, h, s). s)") auto

declare reserve_up.simps [simp del] release_up.simps [simp del]

text \<open>\<open>charge a S h\<close> adds the amount \<open>a\<close> to the scopes in \<open>S\<close>.\<close>

definition charge :: "amount \<Rightarrow> nat list \<Rightarrow> heap \<Rightarrow> heap" where
  "charge a S h = map (\<lambda>i. if i \<in> set S then (h ! i)\<lparr>sc_rc := shift a (sc_rc (h ! i))\<rparr> else h ! i) [0..<length h]"

lemma length_charge [simp]: "length (charge a S h) = length h"
  by (simp add: charge_def)

lemma charge_nth [simp]:
  "i < length h \<Longrightarrow> charge a S h ! i = (if i \<in> set S then (h ! i)\<lparr>sc_rc := shift a (sc_rc (h ! i))\<rparr> else h ! i)"
  by (simp add: charge_def)

lemma same_tree_charge [simp]: "same_tree h (charge a S h)"
  by (simp add: same_tree_def)

lemma charge_Nil [simp]: "charge a [] h = h"
  by (simp add: charge_def map_nth)

lemma charge_single: "s < length h \<Longrightarrow> charge a [s] h = upd_rc h s (shift a (sc_rc (h ! s)))"
  by (rule nth_equalityI) (auto simp: upd_rc_nth)

lemma charge_Cons: "s \<notin> set S \<Longrightarrow> s < length h \<Longrightarrow> charge a S (upd_rc h s (shift a (sc_rc (h ! s)))) = charge a (s # S) h"
  by (rule nth_equalityI) (auto simp: upd_rc_nth)

text \<open>The walks on a tree, specified for every kind of reservation.\<close>

context reservation
begin

lemma reserve_up_spec:
  assumes "valid p" "wf_tree h" "all_ok h" "s < length h"
  shows "reserve_up (reserve p) (undo p) h s = (False, h)
    \<or> (reserve_up (reserve p) (undo p) h s = (True, charge (amt p) (path h s) h)
       \<and> all_ok (charge (amt p) (path h s) h) \<and> (\<forall>i \<in> set (path h s). \<not> sc_done (h ! i)))"
  using assms
proof (induction s arbitrary: h rule: less_induct)
  case (less s h)
  have ok: "rc_ok (sc_rc (h ! s))" using less.prems by (simp add: all_ok_def)
  show ?case
  proof (cases "sc_done (h ! s)")
    case True
    then show ?thesis by (simp add: reserve_up.simps [of _ _ h s])
  next
    case open_s: False
    from less.prems(1) ok show ?thesis
    proof (cases rule: reserve_dest)
      case (refuse e)
      then show ?thesis using open_s by (simp add: reserve_up.simps [of _ _ h s])
    next
      case grant
      let ?h1 = "upd_rc h s (shift (amt p) (sc_rc (h ! s)))"
      have ok1: "all_ok ?h1" using less.prems grant(2) by (auto simp: all_ok_def upd_rc_nth)
      have h1: "wf_tree ?h1" "s < length ?h1"
        using less.prems same_tree_wf [OF same_tree_upd_rc] by auto
      show ?thesis
      proof (cases "s = 0")
        case True
        then show ?thesis
          using open_s grant ok1 less.prems
          by (simp add: reserve_up.simps [of _ _ h 0] path.simps [of h 0] charge_single)
      next
        case False
        let ?p = "parent h s"
        have pl: "?p < s" using parent_less less.prems False by blast
        have pth: "path ?h1 ?p = path h ?p" using same_tree_path [OF same_tree_upd_rc] pl less.prems by simp
        have ps: "path h s = s # path h ?p" using False pl by (simp add: path.simps [of h s])
        have notin: "s \<notin> set (path h ?p)" using path_le pl by fastforce
        have done_eq: "sc_done (?h1 ! i) = sc_done (h ! i)" if "i < length h" for i
          using that by (simp add: upd_rc_nth)
        have ch: "charge (amt p) (path h ?p) ?h1 = charge (amt p) (path h s) h"
          unfolding ps using charge_Cons notin less.prems(4) by blast
        have und: "undo p (shift (amt p) (sc_rc (h ! s))) = sc_rc (h ! s)"
          using reserve_undo [OF less.prems(1) ok grant(1)] .
        have pin: "i < length h" if "i \<in> set (path h ?p)" for i
          using path_le [OF that] pl less.prems(4) by simp
        have h1s: "sc_rc (?h1 ! s) = shift (amt p) (sc_rc (h ! s))"
          using less.prems(4) by (simp add: upd_rc_nth)
        show ?thesis
          using less.IH [OF pl less.prems(1) h1(1) ok1] pl less.prems(4) open_s grant(1) False und
          by (auto simp: reserve_up.simps [of _ _ h s] pth ch ps h1s done_eq pin)
      qed
    qed
  qed
qed

end

text \<open>The part of the path a release reaches: it stops at the first closed scope.\<close>

definition live_path :: "heap \<Rightarrow> nat \<Rightarrow> nat list" where
  "live_path h s = takeWhile (\<lambda>i. \<not> sc_done (h ! i)) (path h s)"

lemma live_path_subset: "set (live_path h s) \<subseteq> set (path h s)"
  by (auto simp: live_path_def dest: set_takeWhileD)

lemma live_path_open: "i \<in> set (live_path h s) \<Longrightarrow> \<not> sc_done (h ! i)"
  by (auto simp: live_path_def dest: set_takeWhileD)

lemma live_path_closed_start [simp]: "sc_done (h ! s) \<Longrightarrow> live_path h s = []"
  by (simp add: live_path_def path.simps [of h s])

lemma live_path_root [simp]: "\<not> sc_done (h ! 0) \<Longrightarrow> live_path h 0 = [0]"
  by (simp add: live_path_def path.simps [of h 0])

lemma live_path_self: "\<not> sc_done (h ! s) \<Longrightarrow> s \<in> set (live_path h s)"
  by (simp add: live_path_def path.simps [of h s])

lemma live_path_step:
  "\<not> sc_done (h ! s) \<Longrightarrow> 0 < s \<Longrightarrow> parent h s < s \<Longrightarrow> live_path h s = s # live_path h (parent h s)"
  by (simp add: live_path_def path.simps [of h s])

lemma same_tree_live_path:
  assumes "same_tree h h'" "s < length h"
  shows "live_path h' s = live_path h s"
proof -
  have "\<forall>i \<in> set (path h s). i < length h" using path_le assms(2) by fastforce
  then show ?thesis
    unfolding live_path_def same_tree_path [OF assms]
    using assms(1) by (intro takeWhile_cong) (auto simp: same_tree_def)
qed

lemma live_path_in: "s < length h \<Longrightarrow> i \<in> set (live_path h s) \<Longrightarrow> i < length h"
  using live_path_subset path_le by (meson in_mono le_less_trans)

context reservation
begin

lemma release_up_spec:
  assumes "valid p" "wf_tree h" "all_ok h" "s < length h"
    "\<And>i k. i \<in> set (live_path h s) \<Longrightarrow> amt p k \<le> usage k (sc_rc (h ! i))"
  shows "release_up (undo p) h s = charge (\<lambda>k. - amt p k) (live_path h s) h
    \<and> all_ok (charge (\<lambda>k. - amt p k) (live_path h s) h)"
  using assms
proof (induction s arbitrary: h rule: less_induct)
  case (less s h)
  show ?case
  proof (cases "sc_done (h ! s)")
    case True
    then show ?thesis using less.prems by (simp add: release_up.simps [of _ h s])
  next
    case open_s: False
    let ?a = "\<lambda>k. - amt p k"
    have ok: "rc_ok (sc_rc (h ! s))" using less.prems by (simp add: all_ok_def)
    have "s \<in> set (live_path h s)"
      using open_s by (simp add: live_path_def path.simps [of h s])
    then have use: "\<And>k. amt p k \<le> usage k (sc_rc (h ! s))" using less.prems(5) by blast
    note und = undone [OF less.prems(1) ok use]
    note undok = undo_ok [OF less.prems(1) ok use, unfolded und]
    let ?h1 = "upd_rc h s (shift ?a (sc_rc (h ! s)))"
    have ok1: "all_ok ?h1" using less.prems undok by (auto simp: all_ok_def upd_rc_nth)
    show ?thesis
    proof (cases "s = 0")
      case True
      then show ?thesis
        using open_s und ok1 less.prems by (simp add: release_up.simps [of _ h 0] charge_single)
    next
      case False
      let ?p = "parent h s"
      have pl: "?p < s" using parent_less less.prems False by blast
      have ps: "live_path h s = s # live_path h ?p" using live_path_step open_s False pl by simp
      have notin: "s \<notin> set (live_path h ?p)" using live_path_subset path_le pl by fastforce
      have lp: "live_path ?h1 ?p = live_path h ?p"
        using same_tree_live_path [OF same_tree_upd_rc] pl less.prems(4) by simp
      have h1: "wf_tree ?h1" "?p < length ?h1"
        using less.prems same_tree_wf [OF same_tree_upd_rc] pl by auto
      have use1: "amt p k \<le> usage k (sc_rc (?h1 ! i))" if "i \<in> set (live_path ?h1 ?p)" for i k
        using that less.prems(5) [of i k] live_path_in [of ?p h i] pl less.prems(4) notin lp ps
        by (auto simp: upd_rc_nth)
      have ch: "charge ?a (live_path h ?p) ?h1 = charge ?a (live_path h s) h"
        unfolding ps using charge_Cons notin less.prems(4) by blast
      show ?thesis
        using less.IH [OF pl less.prems(1) h1(1) ok1 h1(2) use1] pl False open_s und
        by (simp add: release_up.simps [of _ h s] lp ch)
    qed
  qed
qed

end

section \<open>Every operation is one of the walks\<close>

definition outcome :: "rc_error option \<times> heap \<Rightarrow> bool \<times> heap" where
  "outcome r = (fst r = None, snd r)"

lemma wf_tree_cases:
  assumes "wf_tree h" "s < length h"
  obtains (root) "s = 0" "owner (h ! s) = None" "edges (h ! s) = []"
  | (span) p where "0 < s" "owner (h ! s) = Some p" "p < s" "edges (h ! s) = []" "parent h s = p"
  | (service) "0 < s" "owner (h ! s) = None" "edges (h ! s) = [0]" "parent h s = 0"
proof (cases "s = 0")
  case True
  then show ?thesis using root assms by (simp add: wf_tree_def)
next
  case False
  then show ?thesis using span service assms
    by (cases "owner (h ! s)") (auto simp: wf_tree_def parent_def)
qed

lemma reserve_up_root:
  "reserve_up res und h 0 =
    (if sc_done (h ! 0) then (False, h)
     else case res (sc_rc (h ! 0)) of (Some err, rc) \<Rightarrow> (False, upd_rc h 0 rc) | (None, rc) \<Rightarrow> (True, upd_rc h 0 rc))"
  by (simp add: reserve_up.simps [of res und h 0] split: prod.split option.split)

lemma release_up_root:
  "release_up und h 0 = (if sc_done (h ! 0) then h else upd_rc h 0 (und (sc_rc (h ! 0))))"
  by (simp add: release_up.simps [of und h 0])

lemma reserveMemoryForEdges_root:
  "outcome (reserveMemoryForEdges h [0] sz prio) =
     reserve_up (\<lambda>rc. reserveMemory rc sz prio) (\<lambda>rc. releaseMemory rc sz) h 0"
  by (auto simp: reserveMemoryForEdges_def ReserveMemoryForChild_def reserve_up_root outcome_def
      split: prod.split option.split)

lemma addTaskForEdges_root:
  "outcome (addTaskForEdges h [0] num prio) =
     reserve_up (\<lambda>rc. addTask rc num prio) (\<lambda>rc. removeTask rc num prio) h 0"
  by (auto simp: addTaskForEdges_def AddTaskForChild_def reserve_up_root outcome_def
      split: prod.split option.split)

lemma addConnForEdges_root:
  "outcome (addConnForEdges h [0] dir) =
     reserve_up (\<lambda>rc. addConn rc dir) (\<lambda>rc. removeConn rc dir) h 0"
  by (auto simp: addConnForEdges_def AddConnForChild_def reserve_up_root outcome_def
      split: prod.split option.split)

lemma ReserveForChild_root:
  "outcome (ReserveForChild h 0 st) = reserve_up (\<lambda>rc. reserveStat rc st) (\<lambda>rc. releaseStat rc st) h 0"
  by (auto simp: ReserveForChild_def reserve_up_root outcome_def split: prod.split option.split)

text \<open>One step of a walk: what an operation does at its receiver, given what the call to the
  owner or the edge does. A function that takes this step at every scope is the walk.\<close>

lemma reserve_up_step:
  assumes "wf_tree h" "s < length h"
    and "\<And>rc. 0 < s \<Longrightarrow> outcome (up (upd_rc h s rc)) = reserve_up res und (upd_rc h s rc) (parent h s)"
    and "\<And>rc. s = 0 \<Longrightarrow> up (upd_rc h s rc) = (None, upd_rc h s rc)"
  shows "outcome (if sc_done (h ! s) then (Some e0, h)
     else case res (sc_rc (h ! s)) of
       (Some err, rc) \<Rightarrow> (Some (f err), upd_rc h s rc)
     | (None, rc) \<Rightarrow> (let h1 = upd_rc h s rc in case up h1 of
           (Some err, h2) \<Rightarrow> (Some (g err), upd_rc h2 s (und (sc_rc (h2 ! s))))
         | (None, h2) \<Rightarrow> (None, h2))) = reserve_up res und h s"
proof (cases "sc_done (h ! s) \<or> fst (res (sc_rc (h ! s))) \<noteq> None")
  case True
  then show ?thesis
    by (auto simp: reserve_up.simps [of res und h s] outcome_def split: prod.split option.split)
next
  case False
  then obtain rc where rc: "res (sc_rc (h ! s)) = (None, rc)" and o: "\<not> sc_done (h ! s)"
    by (metis prod.collapse)
  show ?thesis
  proof (cases "s = 0")
    case True
    then show ?thesis
      using assms(4) [of rc] rc o by (simp add: reserve_up_root outcome_def)
  next
    case False
    then have "parent h s < s" using parent_less assms by blast
    moreover obtain e h2 where up: "up (upd_rc h s rc) = (e, h2)" by force
    ultimately show ?thesis
      using assms(3) [of rc] rc o False
      by (cases e) (auto simp: reserve_up.simps [of res und h s] outcome_def Let_def split: prod.splits bool.splits)
  qed
qed

lemma reserve_up_unique:
  assumes eq: "\<And>h s. F h s =
     (if sc_done (h ! s) then (Some (e0 h s), h)
      else case res (sc_rc (h ! s)) of
        (Some err, rc) \<Rightarrow> (Some (f h s err), upd_rc h s rc)
      | (None, rc) \<Rightarrow> (let h1 = upd_rc h s rc in
          case (case owner (h ! s) of Some p \<Rightarrow> if p < s then F h1 p else (Some stuck, h1) | None \<Rightarrow> E h1 (edges (h ! s))) of
            (Some err, h2) \<Rightarrow> (Some (g h s err), upd_rc h2 s (und (sc_rc (h2 ! s))))
          | (None, h2) \<Rightarrow> (None, h2)))"
    and no_edge: "\<And>h. E h [] = (None, h)"
    and root_edge: "\<And>h. outcome (E h [0]) = reserve_up res und h 0"
    and "wf_tree h" "s < length h"
  shows "outcome (F h s) = reserve_up res und h s"
  using assms(4,5)
proof (induction s arbitrary: h rule: less_induct)
  case (less s h)
  have wf: "wf_tree (upd_rc h s rc)" for rc using less.prems same_tree_wf [OF same_tree_upd_rc] by blast
  show ?case
    unfolding eq [of h s]
  proof (rule reserve_up_step [OF less.prems], goal_cases)
    case (1 rc)
    from less.prems show ?case by (cases rule: wf_tree_cases) (use 1 wf less root_edge in simp_all)
  next
    case (2 rc)
    from less.prems show ?case by (cases rule: wf_tree_cases) (use 2 no_edge in simp_all)
  qed
qed

lemma ReserveMemory_up:
  "wf_tree h \<Longrightarrow> s < length h \<Longrightarrow> outcome (ReserveMemory h s sz prio) =
    reserve_up (\<lambda>rc. reserveMemory rc sz prio) (\<lambda>rc. releaseMemory rc sz) h s"
  by (rule reserve_up_unique [OF ReserveMemory.simps])
     (simp_all add: reserveMemoryForEdges_root, simp add: reserveMemoryForEdges_def)

lemma AddTask_up:
  "wf_tree h \<Longrightarrow> s < length h \<Longrightarrow> outcome (AddTask h s num prio) =
    reserve_up (\<lambda>rc. addTask rc num prio) (\<lambda>rc. removeTask rc num prio) h s"
  by (rule reserve_up_unique [OF AddTask.simps])
     (simp_all add: addTaskForEdges_root, simp add: addTaskForEdges_def)

lemma AddConn_up:
  "wf_tree h \<Longrightarrow> s < length h \<Longrightarrow> outcome (AddConn h s dir) =
    reserve_up (\<lambda>rc. addConn rc dir) (\<lambda>rc. removeConn rc dir) h s"
  by (rule reserve_up_unique [OF AddConn.simps])
     (simp_all add: addConnForEdges_root, simp add: addConnForEdges_def)

lemma ReserveResources_up:
  "wf_tree h \<Longrightarrow> s < length h \<Longrightarrow> outcome (ReserveResources h s st) =
    reserve_up (\<lambda>rc. reserveStat rc st) (\<lambda>rc. releaseStat rc st) h s"
  by (rule reserve_up_unique [where E = "\<lambda>h es. case es of [] \<Rightarrow> (None, h) | e # _ \<Rightarrow> ReserveForChild h e st",
        OF ReserveResources.simps])
     (simp_all add: ReserveForChild_root)

lemma release_up_step:
  assumes "wf_tree h" "s < length h"
    and "\<And>rc. 0 < s \<Longrightarrow> up (upd_rc h s rc) = release_up und (upd_rc h s rc) (parent h s)"
    and "\<And>rc. s = 0 \<Longrightarrow> up (upd_rc h s rc) = upd_rc h s rc"
  shows "(if sc_done (h ! s) then h else let h1 = upd_rc h s (und (sc_rc (h ! s))) in up h1) = release_up und h s"
  using assms(3) [of "und (sc_rc (h ! s))"] assms(4) [of "und (sc_rc (h ! s))"] parent_less [OF assms(1,2)]
  by (cases "s = 0") (simp_all add: release_up.simps [of und h s] release_up_root Let_def)

lemma release_up_unique:
  assumes eq: "\<And>h s. F h s =
     (if sc_done (h ! s) then h
      else let h1 = upd_rc h s (und (sc_rc (h ! s))) in
        case owner (h ! s) of
          Some p \<Rightarrow> K (if p < s then F h1 p else h1) (edges (h ! s))
        | None \<Rightarrow> E h1 (edges (h ! s)))"
    and K: "\<And>h. K h [] = h"
    and no_edge: "\<And>h. E h [] = h"
    and root_edge: "\<And>h. E h [0] = release_up und h 0"
    and "wf_tree h" "s < length h"
  shows "F h s = release_up und h s"
  using assms(5,6)
proof (induction s arbitrary: h rule: less_induct)
  case (less s h)
  have wf: "wf_tree (upd_rc h s rc)" for rc using less.prems same_tree_wf [OF same_tree_upd_rc] by blast
  show ?case
    unfolding eq [of h s]
  proof (rule release_up_step [OF less.prems], goal_cases)
    case (1 rc)
    from less.prems show ?case by (cases rule: wf_tree_cases) (use 1 wf less root_edge K in simp_all)
  next
    case (2 rc)
    from less.prems show ?case by (cases rule: wf_tree_cases) (use 2 no_edge in simp_all)
  qed
qed

lemma ReleaseMemory_up:
  "wf_tree h \<Longrightarrow> s < length h \<Longrightarrow> ReleaseMemory h s sz = release_up (\<lambda>rc. releaseMemory rc sz) h s"
  by (rule release_up_unique [where K = "\<lambda>h _. h" and E = "\<lambda>h. foldl (\<lambda>h e. ReleaseMemoryForChild h e sz) h",
        OF ReleaseMemory.simps])
     (simp_all add: ReleaseMemoryForChild_def release_up_root)

lemma RemoveTask_up:
  "wf_tree h \<Longrightarrow> s < length h \<Longrightarrow> RemoveTask h s num prio = release_up (\<lambda>rc. removeTask rc num prio) h s"
  by (rule release_up_unique [where K = "\<lambda>h. foldl (\<lambda>h e. RemoveTaskForChild h e num prio) h"
          and E = "\<lambda>h. foldl (\<lambda>h e. RemoveTaskForChild h e num prio) h"])
     (subst RemoveTask.simps, simp_all add: RemoveTaskForChild_def release_up_root Let_def split: option.split)

lemma RemoveConn_up:
  "wf_tree h \<Longrightarrow> s < length h \<Longrightarrow> RemoveConn h s dir = release_up (\<lambda>rc. removeConn rc dir) h s"
  by (rule release_up_unique [where K = "\<lambda>h. foldl (\<lambda>h e. RemoveConnForChild h e dir) h"
          and E = "\<lambda>h. foldl (\<lambda>h e. RemoveConnForChild h e dir) h"])
     (subst RemoveConn.simps, simp_all add: RemoveConnForChild_def release_up_root Let_def split: option.split)

lemma ReleaseForChild_root: "ReleaseForChild h 0 st = release_up (\<lambda>rc. releaseStat rc st) h 0"
  by (simp add: ReleaseForChild_def release_up_root)

lemma ReleaseResources_up:
  "wf_tree h \<Longrightarrow> s < length h \<Longrightarrow> ReleaseResources h s st = release_up (\<lambda>rc. releaseStat rc st) h s"
  by (rule release_up_unique [where K = "\<lambda>h _. h" and E = "\<lambda>h. foldl (\<lambda>h e. ReleaseForChild h e st) h",
        OF ReleaseResources.simps])
     (simp_all add: ReleaseForChild_root)

lemma Release_up:
  assumes "wf_tree h" "s < length h"
  shows "Release h s = release_up (\<lambda>rc. releaseStat rc (Stat h s)) h s"
proof -
  have wf: "wf_tree (upd_rc h s rc)" for rc using assms same_tree_wf [OF same_tree_upd_rc] by blast
  have len: "p < s \<Longrightarrow> p < length (upd_rc h s rc)" for p rc using assms by simp
  show ?thesis
    unfolding Release_def Let_def [of "rc_stat _"] Stat_def
  proof (rule release_up_step [OF assms], goal_cases)
    case (1 rc)
    from assms show ?case
      by (cases rule: wf_tree_cases) (use 1 wf len in \<open>simp_all add: ReleaseForChild_root ReleaseResources_up\<close>)
  next
    case (2 rc)
    from assms show ?case by (cases rule: wf_tree_cases) (use 2 in simp_all)
  qed
qed

end
