(* ===== verification/Scope_Invariant.thy ===== *)
theory Scope_Invariant
  imports Scope_Accounting
begin

text \<open>
  The accounting invariant of the scope tree and the runs of the resource manager. Every open
  scope holds at least what its open children hold together (\<open>acct\<close>); every counter stays
  between zero and its limit (\<open>all_ok\<close>). \<open>rm_step\<close> is one call a client makes and \<open>rm_reach\<close>
  the states reached by such calls.
\<close>

section \<open>What the children hold\<close>

definition children :: "heap \<Rightarrow> nat \<Rightarrow> nat set" where
  "children h p = {c. c < length h \<and> 0 < c \<and> parent h c = p \<and> \<not> sc_done (h ! c)}"

definition held :: "counter \<Rightarrow> heap \<Rightarrow> nat \<Rightarrow> int" where
  "held k h p = (\<Sum>c \<in> children h p. usage k (sc_rc (h ! c)))"

definition acct :: "heap \<Rightarrow> bool" where
  "acct h \<longleftrightarrow> (\<forall>p < length h. \<not> sc_done (h ! p) \<longrightarrow> (\<forall>k. held k h p \<le> usage k (sc_rc (h ! p))))"

text \<open>What a scope holds for itself, beyond its children.\<close>

definition direct :: "counter \<Rightarrow> heap \<Rightarrow> nat \<Rightarrow> int" where
  "direct k h s = usage k (sc_rc (h ! s)) - held k h s"

lemma finite_children [simp]: "finite (children h p)"
  by (simp add: children_def)

lemma same_tree_children: "same_tree h h' \<Longrightarrow> children h' p = children h p"
  by (auto simp: children_def same_tree_def parent_def)

lemma held_charge:
  "held k (charge a S h) p = held k h p + a k * int (card (children h p \<inter> set S))"
proof -
  have "held k (charge a S h) p =
      (\<Sum>c \<in> children h p. usage k (sc_rc (h ! c)) + (if c \<in> set S then a k else 0))"
    unfolding held_def same_tree_children [OF same_tree_charge]
    by (intro sum.cong) (auto simp: children_def)
  also have "\<dots> = held k h p + (\<Sum>c \<in> children h p \<inter> set S. a k)"
    by (simp add: held_def sum.distrib sum.inter_restrict [OF finite_children, symmetric])
  finally show ?thesis by (simp add: mult.commute)
qed

lemma held_nonneg: "all_ok h \<Longrightarrow> 0 \<le> held k h p"
  unfolding held_def by (intro sum_nonneg) (auto simp: children_def all_ok_def usage_nonneg)

lemma child_le_held:
  assumes "all_ok h" "c \<in> children h p"
  shows "usage k (sc_rc (h ! c)) \<le> held k h p"
proof -
  have "(\<Sum>x \<in> {c}. usage k (sc_rc (h ! x))) \<le> (\<Sum>x \<in> children h p. usage k (sc_rc (h ! x)))"
    using assms by (intro sum_mono2) (auto simp: children_def all_ok_def usage_nonneg)
  then show ?thesis by (simp add: held_def)
qed

text \<open>Usage does not decrease from an open scope to an open ancestor.\<close>

lemma usage_up_live_path:
  assumes "wf_tree h" "all_ok h" "acct h" "s < length h" "i \<in> set (live_path h s)"
  shows "usage k (sc_rc (h ! s)) \<le> usage k (sc_rc (h ! i))"
  using assms(4,5)
proof (induction s rule: less_induct)
  case (less s)
  have o: "\<not> sc_done (h ! s)" using less.prems by auto
  show ?case
  proof (cases "s = 0")
    case True
    then show ?thesis using less.prems o by simp
  next
    case False
    have pl: "parent h s < s" using parent_less assms(1) less.prems False by blast
    have ps: "live_path h s = s # live_path h (parent h s)" using live_path_step o False pl by simp
    show ?thesis
    proof (cases "i = s")
      case False
      then have i: "i \<in> set (live_path h (parent h s))" using less.prems ps by simp
      have po: "\<not> sc_done (h ! parent h s)" using i by (cases "sc_done (h ! parent h s)") auto
      have "s \<in> children h (parent h s)" using less.prems \<open>s \<noteq> 0\<close> o by (simp add: children_def)
      then have "usage k (sc_rc (h ! s)) \<le> usage k (sc_rc (h ! parent h s))"
        using child_le_held [OF assms(2)] assms(3) po pl less.prems(1)
        by (smt (verit) acct_def less_trans)
      also have "\<dots> \<le> usage k (sc_rc (h ! i))" using less.IH [OF pl] pl less.prems(1) i by simp
      finally show ?thesis .
    qed simp
  qed
qed

section \<open>Charging a path keeps the accounts\<close>

lemma children_on_path:
  assumes "wf_tree h" "s < length h" "set S \<subseteq> set (path h s)"
  shows "card (children h p \<inter> set S) \<le> 1"
proof -
  have "c = d" if "c \<in> children h p \<inter> set S" "d \<in> children h p \<inter> set S" for c d
  proof -
    have "c \<in> set (path h s)" "d \<in> set (path h s)" using that assms(3) by auto
    moreover have "0 < c" "0 < d" "parent h c = parent h d" "c < length h" "d < length h"
      using that by (auto simp: children_def)
    ultimately show ?thesis using path_pred_unique parent_less [OF assms(1)] by metis
  qed
  then show ?thesis by (simp add: card_le_Suc0_iff_eq)
qed

lemma child_on_path_parent:
  assumes "wf_tree h" "s < length h" "c \<in> children h p \<inter> set (path h s)"
  shows "p \<in> set (path h s)"
  using path_parent_closed [of c h s] parent_less [OF assms(1), of c] assms(3) by (auto simp: children_def)

lemma live_path_parent_closed:
  assumes "wf_tree h" "s < length h" "c \<in> set (live_path h s)" "0 < c" "\<not> sc_done (h ! parent h c)"
  shows "parent h c \<in> set (live_path h s)"
  using assms(2,3)
proof (induction s rule: less_induct)
  case (less s)
  have o: "\<not> sc_done (h ! s)" using less.prems by auto
  show ?case
  proof (cases "s = 0")
    case True
    then show ?thesis using less.prems o assms(4) by simp
  next
    case False
    have pl: "parent h s < s" using parent_less assms(1) less.prems False by blast
    have ps: "live_path h s = s # live_path h (parent h s)" using live_path_step o False pl by simp
    show ?thesis
    proof (cases "c = s")
      case True
      have "parent h s \<in> set (live_path h (parent h s))"
        using assms(5) True by (simp add: live_path_def path.simps [of h "parent h s"])
      then show ?thesis using ps True by simp
    next
      case False
      then show ?thesis using less.IH [OF pl] pl less.prems ps by simp
    qed
  qed
qed

lemma live_path_pred:
  assumes "wf_tree h" "s < length h" "p \<in> set (live_path h s)" "p \<noteq> s"
  shows "children h p \<inter> set (live_path h s) \<noteq> {}"
  using assms(2-)
proof (induction s rule: less_induct)
  case (less s)
  have o: "\<not> sc_done (h ! s)" using less.prems by auto
  have s0: "s \<noteq> 0" using less.prems o by (cases "s = 0") auto
  have pl: "parent h s < s" using parent_less assms(1) less.prems s0 by blast
  have ps: "live_path h s = s # live_path h (parent h s)" using live_path_step o s0 pl by simp
  show ?case
  proof (cases "p = parent h s")
    case True
    then have "s \<in> children h p" using less.prems o s0 by (simp add: children_def)
    then show ?thesis using ps by auto
  next
    case False
    then show ?thesis using less.IH [OF pl] pl less.prems ps by auto
  qed
qed

lemma acct_charge_path:
  assumes "wf_tree h" "acct h" "s < length h" "\<And>k. 0 \<le> a k"
  shows "acct (charge a (path h s) h)"
  unfolding acct_def
proof (intro allI impI)
  fix p k
  assume p: "p < length (charge a (path h s) h)" and o: "\<not> sc_done (charge a (path h s) h ! p)"
  have o': "\<not> sc_done (h ! p)" using p o by (simp split: if_splits)
  have old: "held k h p \<le> usage k (sc_rc (h ! p))" using assms(2) p o' by (simp add: acct_def)
  show "held k (charge a (path h s) h) p \<le> usage k (sc_rc (charge a (path h s) h ! p))"
  proof (cases "p \<in> set (path h s)")
    case True
    have "a k * int (card (children h p \<inter> set (path h s))) \<le> a k * 1"
      using children_on_path [OF assms(1,3) subset_refl, of p] assms(4) by (intro mult_left_mono) auto
    then show ?thesis using True p old by (simp add: held_charge)
  next
    case False
    then have "children h p \<inter> set (path h s) = {}" using child_on_path_parent [OF assms(1,3)] by blast
    then show ?thesis using False p old by (simp add: held_charge)
  qed
qed

lemma acct_discharge_live_path:
  assumes "wf_tree h" "acct h" "s < length h" "\<And>k. a k \<le> direct k h s"
  shows "acct (charge (\<lambda>k. - a k) (live_path h s) h)"
  unfolding acct_def
proof (intro allI impI)
  fix p k
  let ?L = "live_path h s"
  let ?h = "charge (\<lambda>k. - a k) ?L h"
  assume p: "p < length ?h" and o: "\<not> sc_done (?h ! p)"
  have o': "\<not> sc_done (h ! p)" using p o by (simp split: if_splits)
  have old: "held k h p \<le> usage k (sc_rc (h ! p))" using assms(2) p o' by (simp add: acct_def)
  consider "p \<notin> set ?L" | "p \<in> set ?L" "p \<noteq> s" | "p \<in> set ?L" "p = s" by blast
  then show "held k ?h p \<le> usage k (sc_rc (?h ! p))"
  proof cases
    case 1
    then have "children h p \<inter> set ?L = {}"
      using live_path_parent_closed [OF assms(1,3)] o' by (auto simp: children_def)
    then show ?thesis using 1 p old by (simp add: held_charge)
  next
    case 2
    have "card (children h p \<inter> set ?L) \<noteq> 0"
      using live_path_pred [OF assms(1,3) 2] by simp
    then have "card (children h p \<inter> set ?L) = 1"
      using children_on_path [OF assms(1,3) live_path_subset, of p] by linarith
    then show ?thesis using 2 p old by (simp add: held_charge)
  next
    case 3
    have "children h p \<inter> set ?L = {}"
      using live_path_subset [of h s] path_le [of _ h s] parent_less [OF assms(1)] 3
      by (fastforce simp: children_def)
    then show ?thesis using 3 p assms(4) [of k] by (simp add: held_charge direct_def)
  qed
qed

section \<open>The invariant and the calls that keep it\<close>

definition heap_inv :: "heap \<Rightarrow> bool" where
  "heap_inv h \<longleftrightarrow> wf_tree h \<and> all_ok h \<and> acct h"

text \<open>The amount is covered by what the scope holds for itself, or the scope is closed already.\<close>

definition releasable :: "amount \<Rightarrow> heap \<Rightarrow> nat \<Rightarrow> bool" where
  "releasable a h s \<longleftrightarrow> sc_done (h ! s) \<or> (\<forall>k. a k \<le> direct k h s)"

lemma wf_tree_charge: "wf_tree (charge a S h) \<longleftrightarrow> wf_tree h"
  by (rule same_tree_wf) simp

context reservation
begin

text \<open>A reservation is all or nothing along the path.\<close>

lemma reserve_up_inv:
  assumes "valid p" "heap_inv h" "s < length h" "reserve_up (reserve p) (undo p) h s = (b, h')"
  shows "heap_inv h'" "h' = (if b then charge (amt p) (path h s) h else h)"
    "b \<Longrightarrow> i \<in> set (path h s) \<Longrightarrow> \<not> sc_done (h ! i)"
  using reserve_up_spec [OF assms(1) _ _ assms(3)] assms acct_charge_path [OF _ _ assms(3) amt_nonneg]
  by (auto simp: heap_inv_def wf_tree_charge)

text \<open>Releasing what the scope holds for itself subtracts exactly.\<close>

lemma release_up_inv:
  assumes "valid p" "heap_inv h" "s < length h" "releasable (amt p) h s"
  shows "release_up (undo p) h s = charge (\<lambda>k. - amt p k) (live_path h s) h \<and> heap_inv (release_up (undo p) h s)"
proof (cases "sc_done (h ! s)")
  case True
  then show ?thesis using assms(2) by (simp add: release_up.simps [of _ h s])
next
  case False
  have inv: "wf_tree h" "all_ok h" "acct h" using assms(2) by (simp_all add: heap_inv_def)
  have d: "amt p k \<le> direct k h s" for k using assms(4) False by (simp add: releasable_def)
  have "amt p k \<le> usage k (sc_rc (h ! i))" if "i \<in> set (live_path h s)" for i k
    using d [of k] held_nonneg [OF inv(2), of k s] usage_up_live_path [OF inv assms(3) that, of k]
    by (simp add: direct_def)
  then show ?thesis
    using release_up_spec [OF assms(1) inv(1,2) assms(3)] acct_discharge_live_path [OF inv(1,3) assms(3) d] inv(1)
    by (simp add: heap_inv_def wf_tree_charge)
qed

end

section \<open>Opening and closing scopes\<close>

text \<open>Reference counts and span ids play no part in the accounts.\<close>

definition same_acct :: "heap \<Rightarrow> heap \<Rightarrow> bool" where
  "same_acct h h' \<longleftrightarrow> same_tree h h' \<and> (\<forall>i < length h. sc_rc (h' ! i) = sc_rc (h ! i))"

lemma same_acct_heap_inv: "same_acct h h' \<Longrightarrow> heap_inv h \<Longrightarrow> heap_inv h'"
  unfolding same_acct_def
proof (elim conjE)
  assume t: "same_tree h h'" and rc: "\<forall>i < length h. sc_rc (h' ! i) = sc_rc (h ! i)" and inv: "heap_inv h"
  have held: "held k h' p = held k h p" for k p
    unfolding held_def same_tree_children [OF t] using rc by (intro sum.cong) (auto simp: children_def)
  show "heap_inv h'"
    using inv t rc same_tree_wf [OF t] held by (auto simp: heap_inv_def all_ok_def acct_def same_tree_def)
qed

lemma same_acct_refl [simp]: "same_acct h h"
  by (simp add: same_acct_def same_tree_def)

lemma same_acct_trans: "same_acct h1 h2 \<Longrightarrow> same_acct h2 h3 \<Longrightarrow> same_acct h1 h3"
  by (auto simp: same_acct_def same_tree_def)

lemma same_acct_IncRef [simp]: "same_acct h (IncRef h s)"
  by (cases "s < length h") (auto simp: same_acct_def same_tree_def IncRef_def nth_list_update)

lemma same_acct_DecRef [simp]: "same_acct h (DecRef h s)"
  by (cases "s < length h") (auto simp: same_acct_def same_tree_def DecRef_def nth_list_update)

lemma same_acct_nextSpanID [simp]: "same_acct h (snd (nextSpanID h s))"
  by (cases "s < length h") (auto simp: same_acct_def same_tree_def nextSpanID_def Let_def nth_list_update)

lemma same_acct_length: "same_acct h h' \<Longrightarrow> length h' = length h"
  by (simp add: same_acct_def same_tree_def)

text \<open>A fresh scope with empty counters under an existing one.\<close>

lemma heap_inv_append:
  assumes inv: "heap_inv h" and new: "sc_rc sc = new_resources l" "lim_ok l" "\<not> sc_done sc"
    and link: "case owner sc of Some p \<Rightarrow> p < length h \<and> edges sc = [] | None \<Rightarrow> edges sc = [0]"
  shows "heap_inv (h @ [sc])"
proof -
  let ?h = "h @ [sc]"
  have wf: "wf_tree h" "all_ok h" "acct h" "h \<noteq> []" using inv by (auto simp: heap_inv_def wf_tree_def)
  have par: "parent ?h c = parent h c" if "c < length h" for c using that by (simp add: parent_def nth_append)
  have old: "?h ! c = h ! c" if "c < length h" for c using that by (simp add: nth_append)
  have npl: "parent ?h (length h) < length h" using link wf(4) by (auto simp: parent_def split: option.splits)
  have ch: "children ?h p = children h p \<union> (if parent ?h (length h) = p then {length h} else {})" for p
    using wf(4) new(3) by (auto simp: children_def par old less_Suc_eq nth_append)
  have z: "usage k (new_resources l) = 0" for k by (cases k) (simp_all add: new_resources_def)
  have held: "held k ?h p = held k h p" for k p
  proof -
    have "(\<Sum>c \<in> children h p. usage k (sc_rc (?h ! c))) = held k h p"
      unfolding held_def by (intro sum.cong) (auto simp: children_def old)
    moreover have "length h \<notin> children h p" by (simp add: children_def)
    ultimately show ?thesis by (simp add: held_def ch new(1) z)
  qed
  have "children h (length h) = {}"
    using parent_less [OF wf(1)] by (fastforce simp: children_def)
  then have "held k h (length h) = 0" for k by (simp add: held_def)
  then have "acct ?h" using wf(3) new(1) z by (auto simp: acct_def held less_Suc_eq nth_append)
  moreover have "wf_tree ?h" using wf(1,4) link
    by (auto simp: wf_tree_def less_Suc_eq nth_append split: option.splits)
  moreover have "all_ok ?h" using wf(2) new rc_ok_new by (auto simp: all_ok_def less_Suc_eq nth_append)
  ultimately show ?thesis by (simp add: heap_inv_def)
qed

lemma lim_ok_at: "heap_inv h \<Longrightarrow> s < length h \<Longrightarrow> lim_ok (limit (sc_rc (h ! s)))"
  by (simp add: heap_inv_def all_ok_def rc_ok_def)

lemma newResourceScopeSpan_inv:
  assumes "heap_inv h" "s < length h"
  shows "heap_inv (snd (newResourceScopeSpan h s i nm))"
  unfolding newResourceScopeSpan_def snd_conv
  by (rule heap_inv_append [OF assms(1) _ lim_ok_at [OF assms]]) (simp_all add: assms)

lemma BeginSpan_inv [sp_inv]:
  assumes "heap_inv h" "s < length h"
  shows "heap_inv (snd (BeginSpan h s))"
proof (cases "sc_done (h ! s)")
  case False
  let ?h2 = "snd (nextSpanID (IncRef h s) s)"
  have acc: "same_acct h ?h2" using same_acct_trans same_acct_IncRef same_acct_nextSpanID by blast
  then have "heap_inv ?h2" "s < length ?h2" using same_acct_heap_inv assms same_acct_length by auto
  then show ?thesis using newResourceScopeSpan_inv False by (simp add: BeginSpan_def split_beta Let_def)
qed (use assms in \<open>simp add: BeginSpan_def\<close>)

definition closed_scope :: "resourceScope \<Rightarrow> resourceScope" where
  "closed_scope sc = sc\<lparr>sc_rc := (sc_rc sc)\<lparr>nconnsIn := 0, nconnsOut := 0, nfd := 0, memory := 0\<rparr>, sc_done := True\<rparr>"

lemma rc_ok_closed: "rc_ok rc \<Longrightarrow> rc_ok (rc\<lparr>nconnsIn := 0, nconnsOut := 0, nfd := 0, memory := 0\<rparr>)"
  by (simp add: rc_ok_def lim_ok_def nonneg_limit_def)

lemma stat_valid_Stat: "all_ok h \<Longrightarrow> s < length h \<Longrightarrow> stat_valid (Stat h s)"
proof -
  assume "all_ok h" "s < length h"
  then have ok: "rc_ok (sc_rc (h ! s))" by (simp add: all_ok_def)
  then have lim: "lim_ok (limit (sc_rc (h ! s)))" by (simp add: rc_ok_def)
  have mem: "in_i64 (memory (sc_rc (h ! s)))" using usage_in_i64 [OF ok, of CMemory] by simp
  have "ntasksHigh (sc_rc (h ! s)) < 2 ^ 60" "ntasksMedium (sc_rc (h ! s)) < 2 ^ 60" "ntasksLow (sc_rc (h ! s)) < 2 ^ 60"
    "nconnsIn (sc_rc (h ! s)) < 2 ^ 60" "nconnsOut (sc_rc (h ! s)) < 2 ^ 60" "nfd (sc_rc (h ! s)) < 2 ^ 60"
    using ok lim_ok_small(1) [OF lim, of ReserveTaskPriorityHigh] lim_ok_small(3) [OF lim, of DirInbound] lim_ok_small(5) [OF lim]
      lim_ok_small(1) [OF lim, of ReserveTaskPriorityMedium] lim_ok_small(1) [OF lim, of ReserveTaskPriorityLow]
      lim_ok_small(3) [OF lim, of DirOutbound]
    unfolding rc_ok_def by (auto elim!: order_le_less_trans)
  then show ?thesis using ok mem by (simp add: stat_valid_def Stat_def rc_stat_def rc_ok_def count_ok_def)
qed

lemma Stat_amount [simp]: "st_amount (Stat h s) k = usage k (sc_rc (h ! s))"
  by (simp add: Stat_def)

text \<open>Closing a scope removes it from its parent's children.\<close>

lemma held_close:
  assumes "s < length g"
  shows "held k (g[s := closed_scope (g ! s)]) q = held k g q - (if s \<in> children g q then usage k (sc_rc (g ! s)) else 0)"
proof -
  let ?g = "g[s := closed_scope (g ! s)]"
  have "children ?g q = children g q - {s}"
    using assms by (auto simp: children_def parent_def closed_scope_def nth_list_update split: if_splits)
  then have "held k ?g q = (\<Sum>c \<in> children g q - {s}. usage k (sc_rc (g ! c)))"
    unfolding held_def by (intro sum.cong) auto
  then show ?thesis by (simp add: held_def sum_diff1)
qed

lemma heap_inv_close:
  assumes inv: "heap_inv h" and s: "s < length h" "0 < s" and os: "\<not> sc_done (h ! s)"
  defines "p \<equiv> parent h s"
  defines "g \<equiv> charge (\<lambda>k. - usage k (sc_rc (h ! s))) (live_path h p) h"
  assumes ok: "all_ok g"
  shows "heap_inv (g[s := closed_scope (g ! s)])"
proof -
  let ?u = "\<lambda>k. usage k (sc_rc (h ! s))" and ?L = "live_path h p" and ?g = "g[s := closed_scope (g ! s)]"
  have wf: "wf_tree h" "acct h" using inv by (auto simp: heap_inv_def)
  have pl: "p < s" "p < length h" using parent_less [OF wf(1) s] s by (auto simp: p_def)
  have len: "length g = length h" by (simp add: g_def)
  have sL: "s \<notin> set ?L" using live_path_subset [of h p] path_le [of _ h p] pl by fastforce
  have gs: "g ! s = h ! s" using sL s by (simp add: g_def)
  have chg: "children g q = children h q" for q by (simp add: g_def same_tree_children)
  have held: "held k ?g q \<le> usage k (sc_rc (?g ! q))" if q: "q < length h" "q \<noteq> s" "\<not> sc_done (h ! q)" for k q
  proof -
    have old: "held k h q \<le> usage k (sc_rc (h ! q))" using wf(2) q by (simp add: acct_def)
    have new: "held k ?g q = held k h q - ?u k * int (card (children h q \<inter> set ?L)) - (if q = p then ?u k else 0)"
      using held_close [of s g k q] len s os gs held_charge [of k "\<lambda>k. - ?u k" ?L h q]
      by (auto simp: chg g_def [symmetric]) (auto simp: children_def p_def)
    consider "q \<notin> set ?L" | "q \<in> set ?L" "q \<noteq> p" | "q \<in> set ?L" "q = p" by blast
    then show ?thesis
    proof cases
      case 1
      then have "children h q \<inter> set ?L = {}" "q \<noteq> p"
        using live_path_parent_closed [OF wf(1) pl(2)] q live_path_self [of h p]
        by (auto simp: children_def)
      then show ?thesis using 1 q old new by (simp add: g_def)
    next
      case 2
      have "card (children h q \<inter> set ?L) = 1"
        using live_path_pred [OF wf(1) pl(2) 2] children_on_path [OF wf(1) pl(2) live_path_subset, of q]
        by (metis card_0_eq finite_Int finite_children le_antisym less_one linorder_not_less)
      then show ?thesis using 2 q old new by (simp add: g_def)
    next
      case 3
      have "children h q \<inter> set ?L = {}"
        using live_path_subset [of h p] path_le [of _ h p] parent_less [OF wf(1)] 3 by (fastforce simp: children_def)
      then show ?thesis using 3 q old new by (simp add: g_def)
    qed
  qed
  have "sc_done (?g ! q) \<longleftrightarrow> q = s \<or> sc_done (h ! q)" if "q < length h" for q
    using that s by (simp add: nth_list_update closed_scope_def g_def)
  then have "acct ?g" using held len unfolding acct_def by simp
  moreover have "all_ok ?g"
    using ok s len rc_ok_closed by (auto simp: all_ok_def nth_list_update closed_scope_def)
  moreover have "wf_tree ?g"
    using wf(1) wf_tree_charge [of "\<lambda>k. - ?u k" ?L h] s len
    unfolding g_def [symmetric] by (auto simp: wf_tree_def nth_list_update closed_scope_def split: option.splits)
  ultimately show ?thesis by (simp add: heap_inv_def)
qed

text \<open>\<open>Done\<close> on a tree: release the scope's whole usage from its open ancestors, then close it.\<close>

lemma Done_up:
  assumes "wf_tree h" "s < length h" "\<not> sc_done (h ! s)"
  shows "Done h s =
    (let g = (if s = 0 then h
              else DecRef (release_up (\<lambda>rc. releaseStat rc (Stat h s)) h (parent h s)) (parent h s))
     in g[s := closed_scope (g ! s)])"
  using assms(1,2)
  by (cases rule: wf_tree_cases)
     (use assms in \<open>simp_all add: Done_def closed_scope_def Stat_def ReleaseForChild_root ReleaseResources_up\<close>)

lemma release_Stat_parent:
  assumes "heap_inv h" "s < length h" "0 < s" "\<not> sc_done (h ! s)"
  shows "release_up (\<lambda>rc. releaseStat rc (Stat h s)) h (parent h s) =
      charge (\<lambda>k. - usage k (sc_rc (h ! s))) (live_path h (parent h s)) h
    \<and> all_ok (charge (\<lambda>k. - usage k (sc_rc (h ! s))) (live_path h (parent h s)) h)"
proof -
  have inv: "wf_tree h" "all_ok h" "acct h" using assms(1) by (auto simp: heap_inv_def)
  have pl: "parent h s < s" using parent_less inv(1) assms by blast
  have "st_amount (Stat h s) k \<le> usage k (sc_rc (h ! i))" if "i \<in> set (live_path h (parent h s))" for i k
  proof -
    have "live_path h s = s # live_path h (parent h s)" using live_path_step assms pl by simp
    then show ?thesis using usage_up_live_path [OF inv assms(2), of i k] that by simp
  qed
  then show ?thesis
    using stat.release_up_spec [OF stat_valid_Stat [OF inv(2) assms(2)] inv(1,2), of "parent h s"] pl assms(2)
    by simp
qed

lemma same_acct_close:
  "same_acct h h' \<Longrightarrow> s < length h \<Longrightarrow> same_acct (h[s := closed_scope (h ! s)]) (h'[s := closed_scope (h' ! s)])"
  by (auto simp: same_acct_def same_tree_def closed_scope_def nth_list_update)

lemma Done_inv [sp_inv]:
  assumes "heap_inv h" "s < length h"
  shows "heap_inv (Done h s)"
proof (cases "sc_done (h ! s)")
  case True
  then show ?thesis using assms by (simp add: Done_def)
next
  case o: False
  have wf: "wf_tree h" using assms by (simp add: heap_inv_def)
  show ?thesis
  proof (cases "s = 0")
    case True
    have "heap_inv (h[0 := closed_scope (h ! 0)])"
      using assms True held_close [of 0 h] rc_ok_closed
      by (auto simp: heap_inv_def wf_tree_def all_ok_def acct_def children_def nth_list_update closed_scope_def
          split: option.splits if_splits)
    then show ?thesis using Done_up [OF wf assms(2) o] True by simp
  next
    case False
    let ?g = "charge (\<lambda>k. - usage k (sc_rc (h ! s))) (live_path h (parent h s)) h"
    note rel = release_Stat_parent [OF assms _ o]
    have "heap_inv (?g[s := closed_scope (?g ! s)])"
      using heap_inv_close [OF assms _ o] rel False by simp
    moreover have "same_acct (?g[s := closed_scope (?g ! s)])
        ((DecRef ?g (parent h s))[s := closed_scope (DecRef ?g (parent h s) ! s)])"
      using assms(2) by (intro same_acct_close) simp_all
    ultimately show ?thesis
      using Done_up [OF wf assms(2) o] rel False same_acct_heap_inv by (simp add: Let_def)
  qed
qed

section \<open>Runs of the resource manager\<close>

definition limiter_ok :: "Limiter \<Rightarrow> bool" where
  "limiter_ok lims \<longleftrightarrow> (\<exists>l. GetSystemLimits lims = Some l \<and> lim_ok l)
     \<and> (\<forall>nm l. GetServiceLimits lims nm = Some l \<longrightarrow> lim_ok l)"

datatype rm_call =
    CallOpenService string
  | CallBeginSpan nat
  | CallReserveMemory nat int "8 word"
  | CallReleaseMemory nat int
  | CallAddTask nat int ReserveTaskPriority
  | CallRemoveTask nat int ReserveTaskPriority
  | CallAddConn nat Direction
  | CallRemoveConn nat Direction
  | CallReserveResources nat ScopeStat
  | CallReleaseResources nat ScopeStat
  | CallRelease nat
  | CallDone nat

fun rm_exec :: "resourceManager \<Rightarrow> rm_call \<Rightarrow> resourceManager" where
  "rm_exec r (CallOpenService nm) = snd (OpenService r nm)"
| "rm_exec r (CallBeginSpan s) = r\<lparr>rm_heap := snd (BeginSpan (rm_heap r) s)\<rparr>"
| "rm_exec r (CallReserveMemory s sz prio) = r\<lparr>rm_heap := snd (ReserveMemory (rm_heap r) s sz prio)\<rparr>"
| "rm_exec r (CallReleaseMemory s sz) = r\<lparr>rm_heap := ReleaseMemory (rm_heap r) s sz\<rparr>"
| "rm_exec r (CallAddTask s num prio) = r\<lparr>rm_heap := snd (AddTask (rm_heap r) s num prio)\<rparr>"
| "rm_exec r (CallRemoveTask s num prio) = r\<lparr>rm_heap := RemoveTask (rm_heap r) s num prio\<rparr>"
| "rm_exec r (CallAddConn s dir) = r\<lparr>rm_heap := snd (AddConn (rm_heap r) s dir)\<rparr>"
| "rm_exec r (CallRemoveConn s dir) = r\<lparr>rm_heap := RemoveConn (rm_heap r) s dir\<rparr>"
| "rm_exec r (CallReserveResources s st) = r\<lparr>rm_heap := snd (ReserveResources (rm_heap r) s st)\<rparr>"
| "rm_exec r (CallReleaseResources s st) = r\<lparr>rm_heap := ReleaseResources (rm_heap r) s st\<rparr>"
| "rm_exec r (CallRelease s) = r\<lparr>rm_heap := Release (rm_heap r) s\<rparr>"
| "rm_exec r (CallDone s) = r\<lparr>rm_heap := Done (rm_heap r) s\<rparr>"

text \<open>What the callers of the manager respect: addresses are of existing scopes, requested counts
  are non-negative machine integers with a known priority, and an explicit release returns at most
  what the scope holds for itself. Closing a scope (\<open>Done\<close>) and reserving need no such promise.\<close>

fun call_ok :: "heap \<Rightarrow> rm_call \<Rightarrow> bool" where
  "call_ok h (CallOpenService nm) = True"
| "call_ok h (CallBeginSpan s) = (s < length h)"
| "call_ok h (CallReserveMemory s sz prio) = (s < length h \<and> mem_valid (sz, prio))"
| "call_ok h (CallReleaseMemory s sz) = (s < length h \<and> mem_valid (sz, 0) \<and> releasable (mem_amount (sz, 0)) h s)"
| "call_ok h (CallAddTask s num prio) = (s < length h \<and> task_valid (num, prio))"
| "call_ok h (CallRemoveTask s num prio) = (s < length h \<and> task_valid (num, prio) \<and> releasable (task_amount (num, prio)) h s)"
| "call_ok h (CallAddConn s dir) = (s < length h)"
| "call_ok h (CallRemoveConn s dir) = (s < length h \<and> releasable (conn_amount dir) h s)"
| "call_ok h (CallReserveResources s st) = (s < length h \<and> stat_valid st)"
| "call_ok h (CallReleaseResources s st) = (s < length h \<and> stat_valid st \<and> releasable (st_amount st) h s)"
| "call_ok h (CallRelease s) = (s < length h \<and> releasable (st_amount (Stat h s)) h s)"
| "call_ok h (CallDone s) = (s < length h)"

inductive rm_reach :: "Limiter \<Rightarrow> resourceManager \<Rightarrow> bool" for lims where
  rm_init: "NewResourceManager lims = Some r \<Longrightarrow> rm_reach lims r"
| rm_call: "rm_reach lims r \<Longrightarrow> call_ok (rm_heap r) c \<Longrightarrow> rm_reach lims (rm_exec r c)"

definition rm_inv :: "Limiter \<Rightarrow> resourceManager \<Rightarrow> bool" where
  "rm_inv lims r \<longleftrightarrow> rm_limits r = lims \<and> limiter_ok lims \<and> heap_inv (rm_heap r)
     \<and> rm_system r = 0 \<and> rm_transient r = 0 \<and> (\<forall>nm sc. rm_svc r nm = Some sc \<longrightarrow> sc < length (rm_heap r))"

lemma outcome_snd: "outcome x = y \<Longrightarrow> snd x = snd y"
  by (auto simp: outcome_def)

text \<open>The four reservations and five releases, on a heap that satisfies the invariant.\<close>

definition all_or_nothing :: "heap \<Rightarrow> nat \<Rightarrow> amount \<Rightarrow> rc_error option \<times> heap \<Rightarrow> bool" where
  "all_or_nothing h s a r \<longleftrightarrow> (case fst r of
      Some e \<Rightarrow> snd r = h
    | None \<Rightarrow> snd r = charge a (path h s) h \<and> (\<forall>i \<in> set (path h s). \<not> sc_done (h ! i)))"

context reservation
begin

lemma reserve_walk_exact:
  assumes "valid p" "heap_inv h" "s < length h" "outcome r = reserve_up (reserve p) (undo p) h s"
  shows "all_or_nothing h s (amt p) r \<and> heap_inv (snd r)"
  using reserve_up_inv [OF assms(1-3), of "fst r = None" "snd r"] assms(4)
  by (auto simp: all_or_nothing_def outcome_def split: option.splits)

end

lemma reserve_calls_exact:
  assumes "heap_inv h" "s < length h"
  shows "mem_valid (sz, prio) \<Longrightarrow> all_or_nothing h s (mem_amount (sz, prio)) (ReserveMemory h s sz prio)
      \<and> heap_inv (snd (ReserveMemory h s sz prio))"
    and "task_valid (num, tp) \<Longrightarrow> all_or_nothing h s (task_amount (num, tp)) (AddTask h s num tp)
      \<and> heap_inv (snd (AddTask h s num tp))"
    and "all_or_nothing h s (conn_amount dir) (AddConn h s dir) \<and> heap_inv (snd (AddConn h s dir))"
    and "stat_valid st \<Longrightarrow> all_or_nothing h s (st_amount st) (ReserveResources h s st)
      \<and> heap_inv (snd (ReserveResources h s st))"
proof -
  have wf: "wf_tree h" using assms by (simp add: heap_inv_def)
  show "mem_valid (sz, prio) \<Longrightarrow> all_or_nothing h s (mem_amount (sz, prio)) (ReserveMemory h s sz prio)
      \<and> heap_inv (snd (ReserveMemory h s sz prio))"
    by (rule mem.reserve_walk_exact [OF _ assms]) (simp_all add: ReserveMemory_up wf assms(2))
  show "task_valid (num, tp) \<Longrightarrow> all_or_nothing h s (task_amount (num, tp)) (AddTask h s num tp)
      \<and> heap_inv (snd (AddTask h s num tp))"
    by (rule task.reserve_walk_exact [OF _ assms]) (simp_all add: AddTask_up wf assms(2))
  show "all_or_nothing h s (conn_amount dir) (AddConn h s dir) \<and> heap_inv (snd (AddConn h s dir))"
    by (rule conn.reserve_walk_exact [OF _ assms]) (simp_all add: AddConn_up wf assms(2))
  show "stat_valid st \<Longrightarrow> all_or_nothing h s (st_amount st) (ReserveResources h s st)
      \<and> heap_inv (snd (ReserveResources h s st))"
    by (rule stat.reserve_walk_exact [OF _ assms]) (simp_all add: ReserveResources_up wf assms(2))
qed

lemma all_or_nothing_length: "all_or_nothing h s a r \<Longrightarrow> length (snd r) = length h"
  by (auto simp: all_or_nothing_def split: option.splits)

lemma release_calls_exact:
  assumes "heap_inv h" "s < length h"
  shows "mem_valid (sz, 0) \<Longrightarrow> releasable (mem_amount (sz, 0)) h s \<Longrightarrow>
      ReleaseMemory h s sz = charge (\<lambda>k. - mem_amount (sz, 0) k) (live_path h s) h \<and> heap_inv (ReleaseMemory h s sz)"
    and "task_valid (num, tp) \<Longrightarrow> releasable (task_amount (num, tp)) h s \<Longrightarrow>
      RemoveTask h s num tp = charge (\<lambda>k. - task_amount (num, tp) k) (live_path h s) h \<and> heap_inv (RemoveTask h s num tp)"
    and "releasable (conn_amount dir) h s \<Longrightarrow>
      RemoveConn h s dir = charge (\<lambda>k. - conn_amount dir k) (live_path h s) h \<and> heap_inv (RemoveConn h s dir)"
    and "stat_valid st \<Longrightarrow> releasable (st_amount st) h s \<Longrightarrow>
      ReleaseResources h s st = charge (\<lambda>k. - st_amount st k) (live_path h s) h \<and> heap_inv (ReleaseResources h s st)"
    and "releasable (st_amount (Stat h s)) h s \<Longrightarrow>
      Release h s = charge (\<lambda>k. - st_amount (Stat h s) k) (live_path h s) h \<and> heap_inv (Release h s)"
proof -
  have wf: "wf_tree h" "all_ok h" using assms by (simp_all add: heap_inv_def)
  show "mem_valid (sz, 0) \<Longrightarrow> releasable (mem_amount (sz, 0)) h s \<Longrightarrow>
      ReleaseMemory h s sz = charge (\<lambda>k. - mem_amount (sz, 0) k) (live_path h s) h \<and> heap_inv (ReleaseMemory h s sz)"
    using mem.release_up_inv [OF _ assms, of "(sz, 0)"] by (auto simp: ReleaseMemory_up wf assms(2))
  show "task_valid (num, tp) \<Longrightarrow> releasable (task_amount (num, tp)) h s \<Longrightarrow>
      RemoveTask h s num tp = charge (\<lambda>k. - task_amount (num, tp) k) (live_path h s) h \<and> heap_inv (RemoveTask h s num tp)"
    using task.release_up_inv [OF _ assms, of "(num, tp)"] by (auto simp: RemoveTask_up wf assms(2))
  show "releasable (conn_amount dir) h s \<Longrightarrow>
      RemoveConn h s dir = charge (\<lambda>k. - conn_amount dir k) (live_path h s) h \<and> heap_inv (RemoveConn h s dir)"
    using conn.release_up_inv [OF _ assms, of dir] by (auto simp: RemoveConn_up wf assms(2))
  show "stat_valid st \<Longrightarrow> releasable (st_amount st) h s \<Longrightarrow>
      ReleaseResources h s st = charge (\<lambda>k. - st_amount st k) (live_path h s) h \<and> heap_inv (ReleaseResources h s st)"
    using stat.release_up_inv [OF _ assms, of st] by (auto simp: ReleaseResources_up wf assms(2))
  show "releasable (st_amount (Stat h s)) h s \<Longrightarrow>
      Release h s = charge (\<lambda>k. - st_amount (Stat h s) k) (live_path h s) h \<and> heap_inv (Release h s)"
    using stat.release_up_inv [OF stat_valid_Stat [OF wf(2) assms(2)] assms]
    by (auto simp: Release_up wf assms(2))
qed

lemma OpenService_heap:
  assumes "rm_inv lims r"
  shows "heap_inv (rm_heap (snd (OpenService r nm))) \<and> length (rm_heap (snd (OpenService r nm))) = Suc (length (rm_heap r))
    \<and> fst (OpenService r nm) = length (rm_heap r)"
proof -
  let ?h = "rm_heap r"
  have inv: "heap_inv ?h" "rm_system r = 0" "rm_limits r = lims" "limiter_ok lims"
    using assms by (auto simp: rm_inv_def)
  have ne: "0 < length ?h" using inv(1) by (auto simp: heap_inv_def wf_tree_def)
  show ?thesis
  proof (cases "GetServiceLimits lims nm")
    case None
    have acc: "same_acct ?h (snd (nextSpanID ?h 0))" by simp
    have "heap_inv (snd (nextSpanID ?h 0))" "length (snd (nextSpanID ?h 0)) = length ?h"
      using same_acct_heap_inv [OF acc inv(1)] same_acct_length [OF acc] by auto
    then show ?thesis
      using newResourceScopeSpan_inv [of "snd (nextSpanID ?h 0)" 0 "fst (nextSpanID ?h 0)" nm] None inv ne
      by (simp add: OpenService_def split_beta newResourceScopeSpan_def)
  next
    case (Some l)
    have acc: "same_acct ?h (IncRef ?h 0)" by simp
    have h1: "heap_inv (IncRef ?h 0)" "length (IncRef ?h 0) = length ?h"
      using same_acct_heap_inv [OF acc inv(1)] same_acct_length [OF acc] by auto
    have "lim_ok l" using Some inv(4) by (auto simp: limiter_ok_def)
    then have "heap_inv (IncRef ?h 0 @ [\<lparr>sc_done = False, refCnt = 0, spanID = 0, sc_rc = new_resources l,
        owner = None, edges = [0], sc_name = nm\<rparr>])"
      using heap_inv_append [OF h1(1)] by simp
    then show ?thesis using Some inv h1(2) by (simp add: OpenService_def newResourceScope_def Let_def)
  qed
qed

lemma rm_svc_OpenService: "rm_svc (snd (OpenService r nm)) = (rm_svc r)(nm \<mapsto> fst (OpenService r nm))"
  "rm_limits (snd (OpenService r nm)) = rm_limits r" "rm_system (snd (OpenService r nm)) = rm_system r"
  "rm_transient (snd (OpenService r nm)) = rm_transient r"
  by (simp_all add: OpenService_def split_beta)

lemma rm_inv_OpenService: "rm_inv lims r \<Longrightarrow> rm_inv lims (snd (OpenService r nm))"
  using OpenService_heap [of lims r nm] rm_svc_OpenService [of r nm]
  by (auto simp: rm_inv_def dest: less_SucI split: if_splits)

lemma NewResourceManager_inv:
  assumes "limiter_ok lims" "NewResourceManager lims = Some r"
  shows "rm_inv lims r"
proof -
  obtain l where l: "GetSystemLimits lims = Some l" "lim_ok l" using assms(1) by (auto simp: limiter_ok_def)
  have r: "r = \<lparr>rm_limits = lims, rm_heap = [\<lparr>sc_done = False, refCnt = 0, spanID = 0, sc_rc = new_resources l,
       owner = None, edges = [], sc_name = ''system''\<rparr>], rm_system = 0, rm_transient = 0, rm_svc = Map.empty\<rparr>"
    using assms(2) l by (simp add: NewResourceManager_def newResourceScope_def Let_def)
  have "usage k (new_resources l) = 0" for k by (cases k) (simp_all add: new_resources_def)
  moreover have "children [\<lparr>sc_done = False, refCnt = 0, spanID = 0, sc_rc = new_resources l,
       owner = None, edges = [], sc_name = ''system''\<rparr>] 0 = {}" by (auto simp: children_def)
  ultimately show ?thesis
    using assms(1) l rc_ok_new by (simp add: r rm_inv_def heap_inv_def wf_tree_def all_ok_def acct_def held_def)
qed

lemma length_Done: "length (Done h s) = length h" if "heap_inv h" "s < length h"
proof (cases "sc_done (h ! s)")
  case False
  have wf: "wf_tree h" using that by (simp add: heap_inv_def)
  show ?thesis
    using Done_up [OF wf that(2) False] release_Stat_parent [OF that _ False]
    by (simp add: Let_def DecRef_def)
qed (simp add: Done_def)

lemma length_BeginSpan: "length h \<le> length (snd (BeginSpan h s))"
  by (simp add: BeginSpan_def IncRef_def nextSpanID_def newResourceScopeSpan_def Let_def)

text \<open>Every call keeps the invariant, hence every reachable state has it.\<close>

definition keeps :: "heap \<Rightarrow> heap \<Rightarrow> bool" where
  "keeps h h' \<longleftrightarrow> heap_inv h' \<and> length h \<le> length h'"

lemma keeps_reserve: "all_or_nothing h s a r \<and> heap_inv (snd r) \<Longrightarrow> keeps h (snd r)"
  using all_or_nothing_length [of h s a r] by (auto simp: keeps_def)

lemma keeps_release: "h' = charge a S h \<and> heap_inv h' \<Longrightarrow> keeps h h'"
  by (auto simp: keeps_def)

lemma rm_inv_keeps: "rm_inv lims r \<Longrightarrow> keeps (rm_heap r) h \<Longrightarrow> rm_inv lims (r\<lparr>rm_heap := h\<rparr>)"
  unfolding keeps_def rm_inv_def by (auto dest: order_less_le_trans)

lemma rm_exec_inv:
  assumes "rm_inv lims r" "call_ok (rm_heap r) c"
  shows "rm_inv lims (rm_exec r c)"
proof -
  have inv: "heap_inv (rm_heap r)" using assms(1) by (simp add: rm_inv_def)
  show ?thesis
  proof (cases c)
    case (CallOpenService nm)
    then show ?thesis using rm_inv_OpenService assms by simp
  next
    case (CallBeginSpan s)
    then have "keeps (rm_heap r) (snd (BeginSpan (rm_heap r) s))"
      using BeginSpan_inv [OF inv] assms(2) length_BeginSpan by (simp add: keeps_def)
    then show ?thesis using rm_inv_keeps [OF assms(1)] CallBeginSpan by simp
  next
    case (CallReserveMemory s sz prio)
    have "keeps (rm_heap r) (snd (ReserveMemory (rm_heap r) s sz prio))"
      by (rule keeps_reserve [OF reserve_calls_exact(1) [OF inv]]) (use CallReserveMemory assms(2) in simp_all)
    then show ?thesis using rm_inv_keeps [OF assms(1)] CallReserveMemory by simp
  next
    case (CallReleaseMemory s sz)
    have "keeps (rm_heap r) (ReleaseMemory (rm_heap r) s sz)"
      by (rule keeps_release [OF release_calls_exact(1) [OF inv]]) (use CallReleaseMemory assms(2) in simp_all)
    then show ?thesis using rm_inv_keeps [OF assms(1)] CallReleaseMemory by simp
  next
    case (CallAddTask s num prio)
    have "keeps (rm_heap r) (snd (AddTask (rm_heap r) s num prio))"
      by (rule keeps_reserve [OF reserve_calls_exact(2) [OF inv]]) (use CallAddTask assms(2) in simp_all)
    then show ?thesis using rm_inv_keeps [OF assms(1)] CallAddTask by simp
  next
    case (CallRemoveTask s num prio)
    have "keeps (rm_heap r) (RemoveTask (rm_heap r) s num prio)"
      by (rule keeps_release [OF release_calls_exact(2) [OF inv]]) (use CallRemoveTask assms(2) in simp_all)
    then show ?thesis using rm_inv_keeps [OF assms(1)] CallRemoveTask by simp
  next
    case (CallAddConn s dir)
    have "keeps (rm_heap r) (snd (AddConn (rm_heap r) s dir))"
      by (rule keeps_reserve [OF reserve_calls_exact(3) [OF inv]]) (use CallAddConn assms(2) in simp_all)
    then show ?thesis using rm_inv_keeps [OF assms(1)] CallAddConn by simp
  next
    case (CallRemoveConn s dir)
    have "keeps (rm_heap r) (RemoveConn (rm_heap r) s dir)"
      by (rule keeps_release [OF release_calls_exact(3) [OF inv]]) (use CallRemoveConn assms(2) in simp_all)
    then show ?thesis using rm_inv_keeps [OF assms(1)] CallRemoveConn by simp
  next
    case (CallReserveResources s st)
    have "keeps (rm_heap r) (snd (ReserveResources (rm_heap r) s st))"
      by (rule keeps_reserve [OF reserve_calls_exact(4) [OF inv]]) (use CallReserveResources assms(2) in simp_all)
    then show ?thesis using rm_inv_keeps [OF assms(1)] CallReserveResources by simp
  next
    case (CallReleaseResources s st)
    have "keeps (rm_heap r) (ReleaseResources (rm_heap r) s st)"
      by (rule keeps_release [OF release_calls_exact(4) [OF inv]]) (use CallReleaseResources assms(2) in simp_all)
    then show ?thesis using rm_inv_keeps [OF assms(1)] CallReleaseResources by simp
  next
    case (CallRelease s)
    have "keeps (rm_heap r) (Release (rm_heap r) s)"
      by (rule keeps_release [OF release_calls_exact(5) [OF inv]]) (use CallRelease assms(2) in simp_all)
    then show ?thesis using rm_inv_keeps [OF assms(1)] CallRelease by simp
  next
    case (CallDone s)
    then have "keeps (rm_heap r) (Done (rm_heap r) s)"
      using Done_inv [OF inv] length_Done [OF inv] assms(2) by (simp add: keeps_def)
    then show ?thesis using rm_inv_keeps [OF assms(1)] CallDone by simp
  qed
qed

lemma rm_reach_inv: "rm_reach lims r \<Longrightarrow> limiter_ok lims \<Longrightarrow> rm_inv lims r"
  by (induction rule: rm_reach.induct) (auto intro: NewResourceManager_inv rm_exec_inv)

section \<open>A span is a bracket\<close>

lemma BeginSpan_open:
  assumes "BeginSpan h s = (Inr a, h1)" "s < length h"
  shows "\<not> sc_done (h ! s)" "a = length h" "length h1 = Suc (length h)"
    "i < length h \<Longrightarrow> sc_rc (h1 ! i) = sc_rc (h ! i) \<and> sc_done (h1 ! i) = sc_done (h ! i) \<and> owner (h1 ! i) = owner (h ! i)"
    "sc_rc (h1 ! a) = new_resources (limit (sc_rc (h ! s)))" "\<not> sc_done (h1 ! a)" "parent h1 a = s"
  using assms
  by (auto simp: BeginSpan_def newResourceScopeSpan_def nextSpanID_def IncRef_def Let_def parent_def
      nth_append nth_list_update split: if_splits)

lemma Done_rc:
  assumes "heap_inv h" "a < length h" "0 < a" "\<not> sc_done (h ! a)" "i < length h" "i \<noteq> a"
  shows "sc_rc (Done h a ! i) =
    (if i \<in> set (live_path h (parent h a)) then shift (\<lambda>k. - usage k (sc_rc (h ! a))) (sc_rc (h ! i)) else sc_rc (h ! i))"
proof -
  have wf: "wf_tree h" using assms(1) by (simp add: heap_inv_def)
  let ?g = "charge (\<lambda>k. - usage k (sc_rc (h ! a))) (live_path h (parent h a)) h"
  have "sc_rc (Done h a ! i) = sc_rc (DecRef ?g (parent h a) ! i)"
    using Done_up [OF wf assms(2,4)] release_Stat_parent [OF assms(1-4)] assms by (simp add: Let_def)
  also have "\<dots> = sc_rc (?g ! i)"
    using same_acct_DecRef [of ?g "parent h a"] assms(5) by (simp add: same_acct_def)
  finally show ?thesis using assms(5) by simp
qed

lemma span_bracket_aux:
  assumes inv: "heap_inv h" and s: "s < length h" and v: "stat_valid st"
    and b: "BeginSpan h s = (Inr a, h1)" and r: "ReserveResources h1 a st = (e, h2)" and i: "i < length h"
  shows "sc_rc (Done h2 a ! i) = sc_rc (h ! i)"
proof -
  note o = BeginSpan_open [OF b s]
  have h1: "heap_inv h1" "a < length h1" using BeginSpan_inv [OF inv s] b o by simp_all
  have wf1: "wf_tree h1" using h1 by (simp add: heap_inv_def)
  have ex: "all_or_nothing h1 a (st_amount st) (e, h2)" "heap_inv h2"
    using reserve_calls_exact(4) [OF h1 v] r by simp_all
  have len: "length h2 = length h1" using all_or_nothing_length [OF ex(1)] by simp
  have a0: "0 < a" using s o(2) by linarith
  have pa: "path h1 a = a # path h1 s" using o(7) a0 s o(2) by (subst path.simps) simp
  have na: "a \<notin> set (path h1 s)" using path_le [of a h1 s] s o(2) by auto
  have new0: "usage k (new_resources l) = 0" for k l by (cases k) (simp_all add: new_resources_def)
  have old: "sc_rc (h1 ! i) = sc_rc (h ! i)" "i \<noteq> a" "i < length h2" using o i len by auto
  have st2: "same_tree h1 h2" using ex(1) by (cases e) (auto simp: all_or_nothing_def same_tree_def)
  then have p2: "parent h2 a = s" "live_path h2 s = live_path h1 s" "\<not> sc_done (h2 ! a)"
    using same_tree_parent [OF st2 h1(2)] same_tree_live_path [OF st2, of s] o s h1 by (auto simp: same_tree_def)
  note dn = Done_rc [OF ex(2) _ a0 p2(3) old(3,2), unfolded p2 len, OF h1(2)]
  show ?thesis
  proof (cases e)
    case (Some err)
    then show ?thesis using dn ex(1) old o(5) new0 by (simp add: all_or_nothing_def)
  next
    case None
    then have h2: "h2 = charge (st_amount st) (path h1 a) h1" "\<forall>j \<in> set (path h1 a). \<not> sc_done (h1 ! j)"
      using ex(1) by (auto simp: all_or_nothing_def)
    have lp: "live_path h1 s = path h1 s" using h2(2) pa by (simp add: live_path_def takeWhile_eq_all_conv)
    have ua: "usage k (sc_rc (h2 ! a)) = st_amount st k" for k using h2(1) h1(2) o(5) new0 by simp
    show ?thesis
    proof (cases "i \<in> set (path h1 s)")
      case True
      then show ?thesis using dn lp ua h2(1) pa old len h1 by simp
    next
      case False
      then show ?thesis using dn lp h2(1) pa old len by simp
    qed
  qed
qed

section \<open>Properties of the resource manager\<close>

text \<open>A small configuration and run for the witnesses: system and service \<open>up\<close> with a budget, a
  service \<open>free\<close> without one, and a span of \<open>up\<close> that reserves.\<close>

definition ex_limit :: "int \<Rightarrow> GfSpLimit" where
  "ex_limit m = \<lparr>l_Memory = m, l_Tasks = 10, l_TasksHighPriority = 5, l_TasksMediumPriority = 5,
     l_TasksLowPriority = 5, l_Fd = 8, l_Conns = 8, l_ConnsInbound = 8, l_ConnsOutbound = 8\<rparr>"

definition ex_limiter :: Limiter where
  "ex_limiter = GfSpLr \<lparr>lr_System = ex_limit 1000, lr_Transient = ex_limit 1000,
     lr_ServiceLimit = [''up'' \<mapsto> ex_limit 600]\<rparr>"

definition ex_rm0 :: resourceManager where
  "ex_rm0 = the (NewResourceManager ex_limiter)"

definition ex_rm :: resourceManager where
  "ex_rm = rm_exec (rm_exec ex_rm0 (CallOpenService ''up'')) (CallBeginSpan 1)"

definition ex_stat :: ScopeStat where
  "ex_stat = zero_stat\<lparr>st_Memory := 500, st_NumTasksHigh := 1\<rparr>"

lemma ex_limit_ok: "0 \<le> m \<Longrightarrow> m < MaxInt64 \<Longrightarrow> lim_ok (GfSp (ex_limit m))"
  by (auto simp: lim_ok_def is_gfsp_def wf_gfsp_limit_def ex_limit_def nonneg_limit_def in_i64_def in_i32_def MaxInt64_def)

lemma ex_limiter_ok: "limiter_ok ex_limiter"
  by (auto simp: limiter_ok_def ex_limiter_def MaxInt64_def intro!: ex_limit_ok split: if_splits option.splits)

lemmas ex_run_simps = ex_rm_def ex_rm0_def NewResourceManager_def ex_limiter_def newResourceScope_def
  OpenService_def BeginSpan_def newResourceScopeSpan_def nextSpanID_def IncRef_def decimal.simps decimal_int_def

lemma ex_rm_reach: "rm_reach ex_limiter ex_rm" "length (rm_heap ex_rm) = 3"
proof -
  have "NewResourceManager ex_limiter = Some ex_rm0"
    by (simp add: ex_rm0_def NewResourceManager_def ex_limiter_def newResourceScope_def)
  then have "rm_reach ex_limiter (rm_exec ex_rm0 (CallOpenService ''up''))"
    by (intro rm_reach.intros) simp_all
  then show "rm_reach ex_limiter ex_rm"
    unfolding ex_rm_def by (rule rm_call) (simp add: ex_run_simps)
  show "length (rm_heap ex_rm) = 3" by (simp add: ex_run_simps i64_def)
qed

definition ex_rm2 :: resourceManager where
  "ex_rm2 = rm_exec ex_rm (CallReserveResources 2 ex_stat)"


lemma ex_stat_valid: "stat_valid ex_stat"
  by (simp add: stat_valid_def ex_stat_def zero_stat_def in_i64_def count_ok_def)

lemma ex_rm2_reach: "rm_reach ex_limiter ex_rm2" "length (rm_heap ex_rm2) = 3"
proof -
  show "rm_reach ex_limiter ex_rm2"
    unfolding ex_rm2_def by (rule rm_call [OF ex_rm_reach(1)]) (simp add: ex_rm_reach(2) ex_stat_valid)
  have "heap_inv (rm_heap ex_rm)" using rm_reach_inv [OF ex_rm_reach(1) ex_limiter_ok] by (simp add: rm_inv_def)
  then show "length (rm_heap ex_rm2) = 3"
    using reserve_calls_exact(4) [of "rm_heap ex_rm" 2 ex_stat] ex_rm_reach(2) ex_stat_valid all_or_nothing_length
    by (fastforce simp: ex_rm2_def)
qed




text \<open>C26: A reservation of a whole \<open>ScopeStat\<close> is atomic over the scope tree. In every reachable
  state \<open>ReserveResources\<close> either returns an error and leaves every scope exactly as it was, or
  returns nil, adds the amount to the scope and all its ancestors up to the system scope and to
  nothing else, and none of these was closed.\<close>

theorem reserve_resources_atomic:
  assumes "rm_reach lims r" "limiter_ok lims" "s < length (rm_heap r)" "stat_valid st"
  shows "case ReserveResources (rm_heap r) s st of
      (Some e, h') \<Rightarrow> h' = rm_heap r
    | (None, h') \<Rightarrow> h' = charge (st_amount st) (path (rm_heap r) s) (rm_heap r)
        \<and> (\<forall>i \<in> set (path (rm_heap r) s). \<not> sc_done (rm_heap r ! i))"
  using rm_reach_inv [OF assms(1,2)] reserve_calls_exact(4) [OF _ assms(3,4)]
  by (auto simp: rm_inv_def all_or_nothing_def split: prod.splits option.splits)

theorem reserve_resources_atomic_witness:
  "case ReserveResources (rm_heap ex_rm) 2 ex_stat of
      (Some e, h') \<Rightarrow> h' = rm_heap ex_rm
    | (None, h') \<Rightarrow> h' = charge (st_amount ex_stat) (path (rm_heap ex_rm) 2) (rm_heap ex_rm)
        \<and> (\<forall>i \<in> set (path (rm_heap ex_rm) 2). \<not> sc_done (rm_heap ex_rm ! i))"
  by (rule reserve_resources_atomic [OF ex_rm_reach(1) ex_limiter_ok _ ex_stat_valid]) (simp add: ex_rm_reach(2))





text \<open>C27: A span is a bracket. In every reachable state, opening a span on a scope, reserving any
  amount on it (granted or refused) and closing it with \<open>Done\<close> leaves the counters of every scope
  that existed before exactly as they were.\<close>

theorem span_bracket:
  assumes "rm_reach lims r" "limiter_ok lims" "s < length (rm_heap r)" "stat_valid st"
    and "BeginSpan (rm_heap r) s = (Inr a, h1)" "ReserveResources h1 a st = (e, h2)" "i < length (rm_heap r)"
  shows "sc_rc (Done h2 a ! i) = sc_rc (rm_heap r ! i)"
  using span_bracket_aux [OF _ assms(3-7)] rm_reach_inv [OF assms(1,2)] by (simp add: rm_inv_def)

theorem span_bracket_witness:
  "let (b, h1) = BeginSpan (rm_heap ex_rm) 1; (e, h2) = ReserveResources h1 3 ex_stat
   in b = Inr 3 \<and> e = None \<and> sc_rc (Done h2 3 ! 1) = sc_rc (rm_heap ex_rm ! 1)"
proof -
  have b: "fst (BeginSpan (rm_heap ex_rm) 1) = Inr 3" by code_simp
  have e: "fst (ReserveResources (snd (BeginSpan (rm_heap ex_rm) 1)) 3 ex_stat) = None" by code_simp
  show ?thesis
    using span_bracket [OF ex_rm_reach(1) ex_limiter_ok _ ex_stat_valid, of 1 3 _ _ _ 1] b e ex_rm_reach(2)
    by (auto simp: Let_def split_beta prod_eq_iff)
qed

text \<open>C28: A span that outlives its owner does not release twice. If the owner was closed first (and
  so has already given back the span's share together with its own), closing the span changes the
  counters of no other scope.\<close>

theorem late_done_releases_nothing:
  assumes "rm_reach lims r" "limiter_ok lims" "a < length (rm_heap r)"
    and "owner (rm_heap r ! a) = Some p" "sc_done (rm_heap r ! p)" "i < length (rm_heap r)" "i \<noteq> a"
  shows "sc_rc (Done (rm_heap r) a ! i) = sc_rc (rm_heap r ! i)"
proof (cases "sc_done (rm_heap r ! a)")
  case False
  have inv: "heap_inv (rm_heap r)" using rm_reach_inv [OF assms(1,2)] by (simp add: rm_inv_def)
  then have "a \<noteq> 0" using assms(4) by (cases "a = 0") (auto simp: heap_inv_def wf_tree_def)
  then show ?thesis
    using Done_rc [OF inv assms(3) _ False assms(6,7)] assms(4,5) by (simp add: parent_def)
qed (simp add: Done_def)

theorem late_done_releases_nothing_witness:
  "let h = Done (rm_heap ex_rm2) 1 in
     memory (sc_rc (h ! 2)) = 500 \<and> sc_done (h ! 1) \<and> sc_rc (Done h 2 ! 0) = sc_rc (h ! 0)"
proof -
  let ?r = "rm_exec ex_rm2 (CallDone 1)"
  have r: "rm_reach ex_limiter ?r" by (rule rm_call [OF ex_rm2_reach(1)]) (simp add: ex_rm2_reach(2))
  have inv: "heap_inv (rm_heap ex_rm2)" using rm_reach_inv [OF ex_rm2_reach(1) ex_limiter_ok] by (simp add: rm_inv_def)
  have len: "length (rm_heap ?r) = 3" using length_Done [OF inv, of 1] ex_rm2_reach(2) by simp
  then have ne: "Done (rm_heap ex_rm2) 1 \<noteq> []" by auto
  have "owner (Done (rm_heap ex_rm2) 1 ! 2) = Some 1" "sc_done (Done (rm_heap ex_rm2) 1 ! 1)"
    "memory (sc_rc (Done (rm_heap ex_rm2) 1 ! 2)) = 500"
    by code_simp+
  then show ?thesis
    using late_done_releases_nothing [OF r ex_limiter_ok, of 2 1 0] len ne by (simp add: Let_def)
qed

end
