(* ===== verification/Task_Queue.thy ===== *)
theory Task_Queue
  imports Limits "HOL-Library.List_Lexorder" "HOL-Library.Char_ord" "HOL-Library.Multiset"
begin

text \<open>
  The task queues of the manager and the executors: \<open>base/gfsptqueue/queue.go\<close>
  (\<open>GfSpTQueue\<close>) and \<open>base/gfsptqueue/queue_limit.go\<close> (\<open>GfSpTQueueWithLimit\<close>, same fields and
  same methods except that its top task is chosen among those that fit a resource limit).

  A \<open>coretask.Task\<close> is seen through what the queue calls: its key, creation time (Unix
  seconds) and estimated limit; \<open>tk_ref\<close> is the identity of the object, which \<open>PopTask\<close>
  compares. The Go map of tasks is an association list with distinct keys. Its iteration
  order is not specified, so \<open>top\<close> takes the order \<open>it\<close> of the keys as an argument and the
  lemmas hold for every order. The two strategy callbacks are functions of the task; a nil
  callback is \<open>None\<close>. Locks are not modelled: each method runs under the queue's mutex.
\<close>

section \<open>State and operations\<close>

record task =
  tk_ref :: nat
  tk_key :: string
  tk_createTime :: int
  tk_estimate :: Limit

record GfSpTQueue =
  tq_name :: string
  tq_current :: int
  tq_tasks :: "(string \<times> task) list"
  tq_cap :: int
  tq_gcFunc :: "(task \<Rightarrow> bool) option"
  tq_filterFunc :: "(task \<Rightarrow> bool) option"

datatype tq_error = ErrTaskRepeated | ErrTaskQueueExceed

definition NewGfSpTQueue :: "string \<Rightarrow> int \<Rightarrow> GfSpTQueue" where
  "NewGfSpTQueue name c = \<lparr>tq_name = name, tq_current = 0, tq_tasks = [], tq_cap = c,
     tq_gcFunc = None, tq_filterFunc = None\<rparr>"

text \<open>Go's \<open>delete(m, k)\<close> and \<open>maps.SortKeys\<close> (bytewise order on strings).\<close>

definition map_delete :: "string \<Rightarrow> (string \<times> 'a) list \<Rightarrow> (string \<times> 'a) list" where
  "map_delete k m = filter (\<lambda>kv. fst kv \<noteq> k) m"

definition SortKeys :: "(string \<times> 'a) list \<Rightarrow> string list" where
  "SortKeys m = sort (map fst m)"

text \<open>A nil callback retires nothing and filters nothing out.\<close>

definition retires :: "GfSpTQueue \<Rightarrow> task \<Rightarrow> bool" where
  "retires t task = (case tq_gcFunc t of None \<Rightarrow> False | Some gc \<Rightarrow> gc task)"

definition passes :: "GfSpTQueue \<Rightarrow> task \<Rightarrow> bool" where
  "passes t task = (case tq_filterFunc t of None \<Rightarrow> True | Some f \<Rightarrow> f task)"

definition tq_Len :: "GfSpTQueue \<Rightarrow> int" where
  "tq_Len t = int (length (tq_tasks t))"

definition exceed :: "GfSpTQueue \<Rightarrow> bool" where
  "exceed t \<longleftrightarrow> tq_Len t \<ge> tq_cap t"

definition tq_has :: "GfSpTQueue \<Rightarrow> string \<Rightarrow> bool \<times> GfSpTQueue" where
  "tq_has t key = (case map_of (tq_tasks t) key of
     None \<Rightarrow> (False, t)
   | Some task \<Rightarrow>
      if tq_gcFunc t \<noteq> None \<and> retires t task
      then (False, t\<lparr>tq_tasks := map_delete (tk_key task) (tq_tasks t)\<rparr>)
      else (True, t))"

definition tq_add :: "GfSpTQueue \<Rightarrow> task \<Rightarrow> GfSpTQueue" where
  "tq_add t task = (let (b, t1) = tq_has t (tk_key task) in
     if b then t1 else t1\<lparr>tq_tasks := (tk_key task, task) # map_delete (tk_key task) (tq_tasks t1)\<rparr>)"

definition tq_delete :: "GfSpTQueue \<Rightarrow> task \<Rightarrow> GfSpTQueue" where
  "tq_delete t task = (let (b, t1) = tq_has t (tk_key task) in
     if \<not> b then t1 else t1\<lparr>tq_tasks := map_delete (tk_key task) (tq_tasks t1)\<rparr>)"

definition tq_Push :: "GfSpTQueue \<Rightarrow> task \<Rightarrow> tq_error option \<times> GfSpTQueue" where
  "tq_Push t task =
    (let (b, t1) = tq_has t (tk_key task) in
     if b then (Some ErrTaskRepeated, t1)
     else if exceed t1 then
       (if tq_gcFunc t1 = None then (Some ErrTaskQueueExceed, t1)
        else case find (\<lambda>key. retires t1 (the (map_of (tq_tasks t1) key))) (SortKeys (tq_tasks t1)) of
            None \<Rightarrow> (Some ErrTaskQueueExceed, t1)
          | Some key \<Rightarrow> (None, tq_add (tq_delete t1 (the (map_of (tq_tasks t1) key))) task))
     else (None, tq_add t1 task))"

definition tq_PopByKey :: "GfSpTQueue \<Rightarrow> string \<Rightarrow> task option \<times> GfSpTQueue" where
  "tq_PopByKey t key =
    (let (b, t1) = tq_has t key in
     if \<not> b then (None, t1)
     else case map_of (tq_tasks t1) key of
         None \<Rightarrow> (None, t1)
       | Some task \<Rightarrow> (Some task, tq_delete t1 task))"

text \<open>The argument of \<open>PopTask\<close> may be nil.\<close>

definition tq_PopTask :: "GfSpTQueue \<Rightarrow> task option \<Rightarrow> bool \<times> GfSpTQueue" where
  "tq_PopTask t otask = (case otask of
     None \<Rightarrow> (False, t)
   | Some task \<Rightarrow>
      (if map_option tk_ref (map_of (tq_tasks t) (tk_key task)) \<noteq> Some (tk_ref task) then (False, t)
       else (True, tq_delete t task)))"

text \<open>The common tail of \<open>top\<close> and \<open>topByLimit\<close>: sort the candidates by creation time and take the
  first one created after \<open>current\<close>, wrapping around to the oldest. \<open>sort.Slice\<close> may order equal
  creation times arbitrarily; so does the iteration order that the stable sort starts from.\<close>

definition pick :: "GfSpTQueue \<Rightarrow> task list \<Rightarrow> task option \<times> GfSpTQueue" where
  "pick t backupTasks =
    (if backupTasks = [] then (None, t)
     else let sorted = sort_key tk_createTime backupTasks;
              index = go_search (\<lambda>i. tk_createTime (sorted ! i) > tq_current t) 0 (length sorted);
              index = (if index = length sorted then 0 else index)
          in (Some (sorted ! index), t\<lparr>tq_current := tk_createTime (sorted ! index)\<rparr>))"

definition drop_retired :: "GfSpTQueue \<Rightarrow> task list \<Rightarrow> GfSpTQueue" where
  "drop_retired t gcTasks = t\<lparr>tq_tasks := foldl (\<lambda>m task. map_delete (tk_key task) m) (tq_tasks t) gcTasks\<rparr>"

definition top_task :: "GfSpTQueue \<Rightarrow> string list \<Rightarrow> task option \<times> GfSpTQueue" where
  "top_task t it =
    (if tq_tasks t = [] then (None, t)
     else let ts = map (\<lambda>key. the (map_of (tq_tasks t) key)) it;
              gcTasks = filter (retires t) ts;
              backupTasks = filter (\<lambda>task. \<not> retires t task \<and> passes t task) ts;
              (r, t1) = pick t backupTasks
          in (r, drop_retired t1 gcTasks))"

definition tq_Pop :: "GfSpTQueue \<Rightarrow> string list \<Rightarrow> task option \<times> GfSpTQueue" where
  "tq_Pop t it = (case top_task t it of
     (None, t1) \<Rightarrow> (None, t1)
   | (Some task, t1) \<Rightarrow> (Some task, tq_delete t1 task))"

definition topByLimit :: "GfSpTQueue \<Rightarrow> Limit \<Rightarrow> string list \<Rightarrow> task option \<times> GfSpTQueue" where
  "topByLimit t lim it =
    (if tq_tasks t = [] then (None, t)
     else let ts = map (\<lambda>key. the (map_of (tq_tasks t) key)) it;
              gcTasks = filter (retires t) ts;
              backupTasks = filter (\<lambda>task. \<not> retires t task \<and> NotLess lim (tk_estimate task) \<and> passes t task) ts;
              (r, t1) = pick t backupTasks
          in (r, drop_retired t1 gcTasks))"

definition PopByLimit :: "GfSpTQueue \<Rightarrow> Limit \<Rightarrow> string list \<Rightarrow> task option \<times> GfSpTQueue" where
  "PopByLimit t lim it = (case topByLimit t lim it of
     (None, t1) \<Rightarrow> (None, t1)
   | (Some task, t1) \<Rightarrow> (Some task, tq_delete t1 task))"

definition SetFilterTaskStrategy :: "GfSpTQueue \<Rightarrow> (task \<Rightarrow> bool) option \<Rightarrow> GfSpTQueue" where
  "SetFilterTaskStrategy t f = t\<lparr>tq_filterFunc := f\<rparr>"

definition SetRetireTaskStrategy :: "GfSpTQueue \<Rightarrow> (task \<Rightarrow> bool) option \<Rightarrow> GfSpTQueue" where
  "SetRetireTaskStrategy t f = t\<lparr>tq_gcFunc := f\<rparr>"

text \<open>\<open>ScanTask\<close> threads a client state through the callback, in iteration order.\<close>

definition ScanTask :: "GfSpTQueue \<Rightarrow> string list \<Rightarrow> ('s \<Rightarrow> task \<Rightarrow> 's) \<Rightarrow> 's \<Rightarrow> 's" where
  "ScanTask t it scan s = foldl scan s (map (\<lambda>key. the (map_of (tq_tasks t) key)) it)"

section \<open>Invariant and abstraction\<close>

definition tq_inv :: "GfSpTQueue \<Rightarrow> bool" where
  "tq_inv t \<longleftrightarrow> distinct (map fst (tq_tasks t)) \<and> (\<forall>(k, v) \<in> set (tq_tasks t). tk_key v = k)
     \<and> tq_Len t \<le> tq_cap t"

text \<open>What the queue holds for its clients: the stored tasks the retire strategy does not give up.\<close>

definition live :: "GfSpTQueue \<Rightarrow> string \<rightharpoonup> task" where
  "live t k = (case map_of (tq_tasks t) k of None \<Rightarrow> None | Some task \<Rightarrow> if retires t task then None else Some task)"

lemma map_of_map_delete [simp]: "map_of (map_delete k m) = (map_of m)(k := None)"
  unfolding map_delete_def by (induction m) (auto simp: fun_eq_iff)

lemma map_delete_keys [simp]: "distinct (map fst m) \<Longrightarrow> distinct (map fst (map_delete k m))"
  by (simp add: map_delete_def distinct_map_filter)

lemma set_map_delete [simp]: "set (map_delete k m) = {kv \<in> set m. fst kv \<noteq> k}"
  by (auto simp: map_delete_def)

lemma length_map_delete: "length (map_delete k m) \<le> length m"
  by (simp add: map_delete_def)

lemma length_map_delete_less: "map_of m k \<noteq> None \<Longrightarrow> length (map_delete k m) < length m"
proof -
  assume "map_of m k \<noteq> None"
  then obtain v where "(k, v) \<in> set m" using map_of_SomeD by fastforce
  then show ?thesis unfolding map_delete_def by (intro length_filter_less [of "(k, v)"]) auto
qed

lemma map_delete_absent: "map_of m k = None \<Longrightarrow> map_delete k m = m"
  by (induction m) (auto simp: map_delete_def split: if_splits)

lemma tq_inv_stored: "tq_inv t \<Longrightarrow> map_of (tq_tasks t) k = Some task \<Longrightarrow> tk_key task = k"
  by (auto simp: tq_inv_def dest: map_of_SomeD)

lemma tq_inv_shrink:
  "tq_inv t \<Longrightarrow> tq_inv (t\<lparr>tq_tasks := map_delete k (tq_tasks t)\<rparr>)"
  using length_map_delete [of k "tq_tasks t"] by (auto simp: tq_inv_def tq_Len_def)

lemma retires_upd [simp]: "retires (t\<lparr>tq_tasks := m\<rparr>) = retires t" "retires (t\<lparr>tq_current := c\<rparr>) = retires t"
  by (auto simp: retires_def fun_eq_iff)

lemma passes_upd [simp]: "passes (t\<lparr>tq_tasks := m\<rparr>) = passes t" "passes (t\<lparr>tq_current := c\<rparr>) = passes t"
  by (auto simp: passes_def fun_eq_iff)

lemma live_current [simp]: "live (t\<lparr>tq_current := c\<rparr>) = live t"
  by (simp add: live_def fun_eq_iff split: option.split)

lemma live_delete [simp]: "live (t\<lparr>tq_tasks := map_delete k (tq_tasks t)\<rparr>) = (live t)(k := None)"
  by (auto simp: live_def fun_eq_iff split: option.split)

lemma live_insert:
  "live (t\<lparr>tq_tasks := (k, v) # m\<rparr>) = (live (t\<lparr>tq_tasks := m\<rparr>))(k := (if retires t v then None else Some v))"
  by (auto simp: live_def fun_eq_iff split: option.split)

text \<open>The fields other than the tasks and the cursor never change.\<close>

definition same_conf :: "GfSpTQueue \<Rightarrow> GfSpTQueue \<Rightarrow> bool" where
  "same_conf t t' \<longleftrightarrow> tq_cap t' = tq_cap t \<and> tq_gcFunc t' = tq_gcFunc t \<and> tq_filterFunc t' = tq_filterFunc t"

lemma same_conf_refl [simp]: "same_conf t t"
  by (simp add: same_conf_def)

lemma same_conf_retires: "same_conf t t' \<Longrightarrow> retires t' = retires t"
  by (auto simp: same_conf_def retires_def fun_eq_iff)

lemma same_conf_passes: "same_conf t t' \<Longrightarrow> passes t' = passes t"
  by (auto simp: same_conf_def passes_def fun_eq_iff)

lemma tq_has_spec:
  assumes "tq_inv t" "tq_has t k = (b, t1)"
  shows "b \<longleftrightarrow> live t k \<noteq> None" "live t1 = live t" "tq_inv t1" "same_conf t t1"
    "tq_current t1 = tq_current t" "\<not> b \<Longrightarrow> map_of (tq_tasks t1) k = None" "b \<Longrightarrow> t1 = t"
    "length (tq_tasks t1) \<le> length (tq_tasks t)" "set (tq_tasks t1) \<subseteq> set (tq_tasks t)"
proof -
  have "(b \<longleftrightarrow> live t k \<noteq> None) \<and> live t1 = live t \<and> tq_inv t1 \<and> same_conf t t1 \<and> tq_current t1 = tq_current t
     \<and> (\<not> b \<longrightarrow> map_of (tq_tasks t1) k = None) \<and> (b \<longrightarrow> t1 = t) \<and> length (tq_tasks t1) \<le> length (tq_tasks t)
     \<and> set (tq_tasks t1) \<subseteq> set (tq_tasks t)"
  proof (cases "map_of (tq_tasks t) k")
    case None
    then show ?thesis using assms by (auto simp: tq_has_def live_def)
  next
    case (Some task)
    have k: "tk_key task = k" using tq_inv_stored assms(1) Some by blast
    show ?thesis
    proof (cases "retires t task")
      case True
      then have g: "tq_gcFunc t \<noteq> None" by (auto simp: retires_def split: option.splits)
      then have "b = False" "t1 = t\<lparr>tq_tasks := map_delete k (tq_tasks t)\<rparr>"
        using assms(2) Some True k by (auto simp: tq_has_def)
      moreover have "live t k = None" using Some True by (simp add: live_def)
      ultimately show ?thesis
        using tq_inv_shrink [OF assms(1), of k] length_map_delete [of k "tq_tasks t"]
        by (auto simp: same_conf_def fun_upd_idem)
    next
      case False
      then have "b" "t1 = t" using assms(2) Some by (auto simp: tq_has_def)
      then show ?thesis using assms(1) Some False by (auto simp: live_def)
    qed
  qed
  then show "b \<longleftrightarrow> live t k \<noteq> None" "live t1 = live t" "tq_inv t1" "same_conf t t1"
    "tq_current t1 = tq_current t" "\<not> b \<Longrightarrow> map_of (tq_tasks t1) k = None" "b \<Longrightarrow> t1 = t"
    "length (tq_tasks t1) \<le> length (tq_tasks t)" "set (tq_tasks t1) \<subseteq> set (tq_tasks t)" by blast+
qed

lemma tq_delete_spec:
  assumes "tq_inv t" "tq_delete t task = t1"
  shows "live t1 = (live t)(tk_key task := None)" "tq_inv t1" "same_conf t t1" "tq_current t1 = tq_current t"
    "map_of (tq_tasks t1) (tk_key task) = None" "length (tq_tasks t1) \<le> length (tq_tasks t)"
    "set (tq_tasks t1) \<subseteq> set (tq_tasks t)"
    "map_of (tq_tasks t) (tk_key task) \<noteq> None \<Longrightarrow> length (tq_tasks t1) < length (tq_tasks t)"
proof -
  obtain b t2 where h: "tq_has t (tk_key task) = (b, t2)" by force
  note hs = tq_has_spec [OF assms(1) h]
  have t1: "t1 = (if b then t\<lparr>tq_tasks := map_delete (tk_key task) (tq_tasks t)\<rparr> else t2)"
    using assms(2) h hs(7) by (auto simp: tq_delete_def)
  have "live t1 = (live t)(tk_key task := None) \<and> tq_inv t1 \<and> same_conf t t1 \<and> tq_current t1 = tq_current t
    \<and> map_of (tq_tasks t1) (tk_key task) = None \<and> length (tq_tasks t1) \<le> length (tq_tasks t)
    \<and> set (tq_tasks t1) \<subseteq> set (tq_tasks t)"
    using t1 hs tq_inv_shrink [OF assms(1), of "tk_key task"] length_map_delete [of "tk_key task" "tq_tasks t"]
    by (cases b) (auto simp: same_conf_def fun_upd_idem)
  then show "live t1 = (live t)(tk_key task := None)" "tq_inv t1" "same_conf t t1" "tq_current t1 = tq_current t"
    "map_of (tq_tasks t1) (tk_key task) = None" "length (tq_tasks t1) \<le> length (tq_tasks t)"
    "set (tq_tasks t1) \<subseteq> set (tq_tasks t)" by blast+
  assume p: "map_of (tq_tasks t) (tk_key task) \<noteq> None"
  then obtain v where v: "map_of (tq_tasks t) (tk_key task) = Some v" by blast
  show "length (tq_tasks t1) < length (tq_tasks t)"
  proof (cases b)
    case True
    then show ?thesis using t1 length_map_delete_less [OF p] by simp
  next
    case False
    then have "t2 = t\<lparr>tq_tasks := map_delete (tk_key task) (tq_tasks t)\<rparr>"
      using h v tq_inv_stored [OF assms(1) v] by (auto simp: tq_has_def split: if_splits)
    then show ?thesis using t1 False length_map_delete_less [OF p] by simp
  qed
qed

section \<open>Keyed operations\<close>

lemma tq_add_spec:
  assumes "tq_inv t" "map_of (tq_tasks t) (tk_key task) = None" "tq_Len t < tq_cap t"
  shows "tq_inv (tq_add t task)" "same_conf t (tq_add t task)"
    "live (tq_add t task) = (live t)(tk_key task := (if retires t task then None else Some task))"
proof -
  have "tq_add t task = t\<lparr>tq_tasks := (tk_key task, task) # tq_tasks t\<rparr>"
    using assms(2) by (simp add: tq_add_def tq_has_def map_delete_absent)
  moreover have "tk_key task \<notin> fst ` set (tq_tasks t)" using assms(2) by (simp add: map_of_eq_None_iff)
  ultimately show "tq_inv (tq_add t task)" "same_conf t (tq_add t task)"
    "live (tq_add t task) = (live t)(tk_key task := (if retires t task then None else Some task))"
    using assms by (auto simp: tq_inv_def tq_Len_def same_conf_def live_insert)
qed

text \<open>The queue is full of tasks none of which the retire strategy gives up.\<close>

definition full_of_live :: "GfSpTQueue \<Rightarrow> bool" where
  "full_of_live t \<longleftrightarrow> tq_Len t \<ge> tq_cap t \<and> (\<forall>(k, v) \<in> set (tq_tasks t). \<not> retires t v)"

lemma find_SomeD: "find P xs = Some x \<Longrightarrow> x \<in> set xs \<and> P x"
  by (induction xs) (auto split: if_splits)

lemma find_SortKeys:
  assumes "tq_inv t"
  shows "find (\<lambda>key. P (the (map_of (tq_tasks t) key))) (SortKeys (tq_tasks t)) = None
      \<longleftrightarrow> (\<forall>(k, v) \<in> set (tq_tasks t). \<not> P v)"
    and "find (\<lambda>key. P (the (map_of (tq_tasks t) key))) (SortKeys (tq_tasks t)) = Some key \<Longrightarrow>
      \<exists>v. map_of (tq_tasks t) key = Some v \<and> P v"
proof -
  have d: "map_of (tq_tasks t) k = Some v \<longleftrightarrow> (k, v) \<in> set (tq_tasks t)" for k v
    using assms by (simp add: tq_inv_def)
  have dom: "set (SortKeys (tq_tasks t)) = fst ` set (tq_tasks t)" by (simp add: SortKeys_def)
  have "P (the (map_of (tq_tasks t) k)) \<longleftrightarrow> P v" if "(k, v) \<in> set (tq_tasks t)" for k v
    using d [of k v] that by simp
  then show "find (\<lambda>key. P (the (map_of (tq_tasks t) key))) (SortKeys (tq_tasks t)) = None
      \<longleftrightarrow> (\<forall>(k, v) \<in> set (tq_tasks t). \<not> P v)"
    unfolding find_None_iff dom by force
  assume "find (\<lambda>key. P (the (map_of (tq_tasks t) key))) (SortKeys (tq_tasks t)) = Some key"
  then have "key \<in> fst ` set (tq_tasks t)" "P (the (map_of (tq_tasks t) key))"
    using find_SomeD dom by fastforce+
  then show "\<exists>v. map_of (tq_tasks t) key = Some v \<and> P v"
    using d by force
qed

lemma tq_Push_cases:
  assumes "tq_inv t" "tq_Push t task = (e, t')" "tq_has t (tk_key task) = (b, t1)"
  obtains (rep) b "e = Some ErrTaskRepeated" "t' = t"
    | (full) "\<not> b" "e = Some ErrTaskQueueExceed" "t' = t1" "full_of_live t1"
    | (retire) v where "\<not> b" "e = None" "map_of (tq_tasks t1) (tk_key v) = Some v" "retires t1 v"
        "t' = tq_add (tq_delete t1 v) task"
    | (room) "\<not> b" "e = None" "\<not> exceed t1" "t' = tq_add t1 task"
proof (cases b)
  case True
  then show ?thesis using rep assms tq_has_spec(7) [OF assms(1,3)] by (simp add: tq_Push_def)
next
  case nb: False
  let ?gc = "find (\<lambda>key. retires t1 (the (map_of (tq_tasks t1) key))) (SortKeys (tq_tasks t1))"
  note hs = tq_has_spec [OF assms(1,3)]
  have push: "(if exceed t1 then (if tq_gcFunc t1 = None then (Some ErrTaskQueueExceed, t1)
        else case ?gc of None \<Rightarrow> (Some ErrTaskQueueExceed, t1)
          | Some key \<Rightarrow> (None, tq_add (tq_delete t1 (the (map_of (tq_tasks t1) key))) task))
     else (None, tq_add t1 task)) = (e, t')"
    using assms(2,3) nb by (simp add: tq_Push_def)
  show ?thesis
  proof (cases "exceed t1")
    case False
    then show ?thesis using room nb push by simp
  next
    case ex: True
    show ?thesis
    proof (cases "tq_gcFunc t1 = None \<or> ?gc = None")
      case True
      have "\<forall>(k, v) \<in> set (tq_tasks t1). \<not> retires t1 v"
        using True find_SortKeys(1) [OF hs(3), of "retires t1"] by (cases "tq_gcFunc t1 = None") (auto simp: retires_def)
      then have "full_of_live t1" using ex by (simp add: full_of_live_def exceed_def)
      then show ?thesis using full nb ex True push by (cases "tq_gcFunc t1 = None") auto
    next
      case False
      then obtain key where k: "?gc = Some key" by blast
      then obtain v where v: "map_of (tq_tasks t1) key = Some v" "retires t1 v"
        using find_SortKeys(2) [OF hs(3)] by blast
      then have "tk_key v = key" using tq_inv_stored hs(3) by blast
      then show ?thesis using retire [of v] nb v push k False ex by auto
    qed
  qed
qed

lemma tq_Push_spec:
  assumes "tq_inv t" "tq_Push t task = (e, t')"
  shows "tq_inv t' \<and> same_conf t t' \<and> (case e of
     None \<Rightarrow> live t (tk_key task) = None
       \<and> live t' = (live t)(tk_key task := (if retires t task then None else Some task))
   | Some ErrTaskRepeated \<Rightarrow> live t (tk_key task) \<noteq> None \<and> t' = t
   | Some ErrTaskQueueExceed \<Rightarrow> live t (tk_key task) = None \<and> full_of_live t' \<and> live t' = live t)"
proof -
  obtain b t1 where h: "tq_has t (tk_key task) = (b, t1)" by force
  note hs = tq_has_spec [OF assms(1) h]
  from assms h show ?thesis
  proof (cases rule: tq_Push_cases)
    case rep
    then show ?thesis using hs assms(1) by simp
  next
    case full
    then show ?thesis using hs by simp
  next
    case (retire v)
    note ds = tq_delete_spec [OF hs(3) refl, of v]
    have "live t1 (tk_key v) = None" using retire(3,4) by (simp add: live_def)
    then have l2: "live (tq_delete t1 v) = live t" using ds(1) hs(2) by (simp add: fun_upd_idem)
    have none: "map_of (tq_tasks (tq_delete t1 v)) (tk_key task) = None"
      using hs(6) retire(1) ds(7) by (auto simp: map_of_eq_None_iff)
    have conf: "same_conf t (tq_delete t1 v)" using ds(3) hs(4) by (auto simp: same_conf_def)
    have len: "tq_Len (tq_delete t1 v) < tq_cap (tq_delete t1 v)"
      using ds(2,3,8) retire(3) hs(3) by (auto simp: tq_inv_def tq_Len_def same_conf_def)
    show ?thesis
      using tq_add_spec [OF ds(2) none len] retire(1,2,5) l2 hs(1) same_conf_retires [OF conf] conf
      by (auto simp: same_conf_def)
  next
    case room
    then have "tq_Len t1 < tq_cap t1" by (simp add: exceed_def)
    then show ?thesis
      using tq_add_spec [OF hs(3) hs(6)] room hs same_conf_retires [OF hs(4)] by (auto simp: same_conf_def)
  qed
qed

lemma tq_PopByKey_spec:
  assumes "tq_inv t" "tq_PopByKey t k = (r, t')"
  shows "r = live t k \<and> live t' = (live t)(k := None) \<and> tq_inv t' \<and> same_conf t t'"
proof -
  obtain b t1 where h: "tq_has t k = (b, t1)" by force
  note hs = tq_has_spec [OF assms(1) h]
  show ?thesis
  proof (cases b)
    case False
    then show ?thesis using assms(2) h hs by (auto simp: tq_PopByKey_def fun_upd_idem)
  next
    case True
    then have t1: "t1 = t" using hs(7) by simp
    then obtain v where v: "map_of (tq_tasks t) k = Some v" "live t k = Some v"
      using True hs(1) by (auto simp: live_def split: option.splits if_splits)
    then have "tk_key v = k" using tq_inv_stored assms(1) by blast
    then show ?thesis
      using assms(2) h True t1 v tq_delete_spec [OF assms(1) refl, of v] by (auto simp: tq_PopByKey_def)
  qed
qed

section \<open>Choosing the top task\<close>

text \<open>\<open>next_after c S x\<close>: \<open>x\<close> is the oldest task of \<open>S\<close> created after \<open>c\<close>, or the oldest of all when
  none was created after \<open>c\<close>: the round-robin successor of the cursor.\<close>

definition next_after :: "int \<Rightarrow> task set \<Rightarrow> task \<Rightarrow> bool" where
  "next_after c S x \<longleftrightarrow> x \<in> S \<and>
    (if \<exists>y \<in> S. tk_createTime y > c
     then tk_createTime x > c \<and> (\<forall>y \<in> S. tk_createTime y > c \<longrightarrow> tk_createTime x \<le> tk_createTime y)
     else \<forall>y \<in> S. tk_createTime x \<le> tk_createTime y)"

definition order_of :: "GfSpTQueue \<Rightarrow> string list \<Rightarrow> bool" where
  "order_of t it \<longleftrightarrow> distinct it \<and> set it = fst ` set (tq_tasks t)"

lemma pick_spec:
  assumes "ts \<noteq> []"
  shows "\<exists>x. pick t ts = (Some x, t\<lparr>tq_current := tk_createTime x\<rparr>) \<and> next_after (tq_current t) (set ts) x"
proof -
  define s where "s = sort_key tk_createTime ts"
  define f where "f = (\<lambda>i. tk_createTime (s ! i) > tq_current t)"
  define n where "n = go_search f 0 (length s)"
  define i where "i = (if n = length s then 0 else n)"
  have s': "sorted (map tk_createTime s)" "set s = set ts" "length s = length ts" by (simp_all add: s_def)
  then have "s \<noteq> []" using assms by auto
  note s = s' this
  have nth_mono: "tk_createTime (s ! a) \<le> tk_createTime (s ! b)" if "a \<le> b" "b < length s" for a b
    using sorted_nth_mono [OF s(1), of a b] that by simp
  have mono: "\<forall>a b. a \<le> b \<longrightarrow> b < length s \<longrightarrow> f a \<longrightarrow> f b" using nth_mono unfolding f_def by force
  note first = go_search_first [OF mono, folded n_def]
  have il: "i < length s" using first(1) s(4) by (simp add: i_def)
  have mem: "s ! i \<in> set ts" using il s(2) by force
  have later: "tk_createTime (s ! i) \<le> tk_createTime y" if y: "y \<in> set ts" "n = length s \<or> tk_createTime y > tq_current t" for y
  proof -
    obtain j where j: "j < length s" "y = s ! j" using y(1) s(2) by (metis in_set_conv_nth)
    have "i \<le> j"
    proof (cases "n = length s")
      case False
      then have "f j" using y(2) j by (simp add: f_def)
      then show ?thesis using first(2) [of j] False by (simp add: i_def not_less [symmetric]) blast
    qed (simp add: i_def)
    then show ?thesis using nth_mono j by simp
  qed
  have ex: "(\<exists>y \<in> set ts. tk_createTime y > tq_current t) \<longleftrightarrow> n \<noteq> length s"
  proof
    assume "\<exists>y \<in> set ts. tk_createTime y > tq_current t"
    then obtain j where "j < length s" "f j" using s(2) by (metis f_def in_set_conv_nth)
    then show "n \<noteq> length s" using first(2) [of j] by auto
  next
    assume "n \<noteq> length s"
    then have "n < length s" "f n" using first(1,3) by (auto simp: le_less)
    then show "\<exists>y \<in> set ts. tk_createTime y > tq_current t" using s(2) by (force simp: f_def)
  qed
  have gt: "tk_createTime (s ! i) > tq_current t" if "n \<noteq> length s"
    using that first(1) first(3) [of n] by (simp add: i_def f_def)
  have "pick t ts = (Some (s ! i), t\<lparr>tq_current := tk_createTime (s ! i)\<rparr>)"
    using assms by (simp add: pick_def Let_def s_def f_def n_def i_def)
  moreover have "next_after (tq_current t) (set ts) (s ! i)"
    using mem later ex gt by (auto simp: next_after_def)
  ultimately show ?thesis by blast
qed

lemma drop_retired_spec:
  assumes "tq_inv t" "\<And>x. x \<in> set gcs \<Longrightarrow> live t (tk_key x) = None"
  shows "tq_inv (drop_retired t gcs) \<and> live (drop_retired t gcs) = live t \<and> same_conf t (drop_retired t gcs)
    \<and> tq_current (drop_retired t gcs) = tq_current t"
  using assms
proof (induction gcs arbitrary: t)
  case Nil
  then show ?case by (simp add: drop_retired_def)
next
  case (Cons x gcs)
  let ?t = "t\<lparr>tq_tasks := map_delete (tk_key x) (tq_tasks t)\<rparr>"
  have l: "live ?t = live t" using Cons.prems(2) [of x] by (simp add: fun_upd_idem)
  have "drop_retired t (x # gcs) = drop_retired ?t gcs" by (simp add: drop_retired_def)
  moreover have "live ?t (tk_key y) = None" if "y \<in> set gcs" for y using that Cons.prems(2) [of y] l by simp
  ultimately show ?case
    using Cons.IH [OF tq_inv_shrink [OF Cons.prems(1)], of "tk_key x"] l
    by (simp add: same_conf_def del: live_delete)
qed

text \<open>The candidates of a scan in any iteration order: the live tasks that satisfy the selection.\<close>

lemma scan_candidates:
  assumes "tq_inv t" "order_of t it"
  defines "ts \<equiv> map (\<lambda>key. the (map_of (tq_tasks t) key)) it"
  shows "set (filter (\<lambda>x. \<not> retires t x \<and> P x) ts) = {x \<in> ran (live t). P x}"
    and "x \<in> set (filter (retires t) ts) \<Longrightarrow> live t (tk_key x) = None"
proof -
  have ts: "set ts = snd ` set (tq_tasks t)"
  proof -
    have "the (map_of (tq_tasks t) k) = v" if "(k, v) \<in> set (tq_tasks t)" for k v
      using that assms(1) by (simp add: tq_inv_def)
    then show ?thesis using assms(2) by (force simp: ts_def order_of_def image_image)
  qed
  have mem: "map_of (tq_tasks t) (tk_key x) = Some x" if "x \<in> set ts" for x
    using that assms(1) ts by (auto simp: tq_inv_def)
  have ran: "ran (live t) = {x \<in> set ts. \<not> retires t x}"
  proof
    show "ran (live t) \<subseteq> {x \<in> set ts. \<not> retires t x}"
    proof
      fix x
      assume "x \<in> ran (live t)"
      then obtain k where "map_of (tq_tasks t) k = Some x" "\<not> retires t x"
        by (auto simp: ran_def live_def split: option.splits if_splits)
      then show "x \<in> {x \<in> set ts. \<not> retires t x}" unfolding ts by (force dest: map_of_SomeD)
    qed
    show "{x \<in> set ts. \<not> retires t x} \<subseteq> ran (live t)"
    proof
      fix x
      assume "x \<in> {x \<in> set ts. \<not> retires t x}"
      then have "live t (tk_key x) = Some x" using mem by (simp add: live_def)
      then show "x \<in> ran (live t)" by (rule ranI)
    qed
  qed
  then show "set (filter (\<lambda>x. \<not> retires t x \<and> P x) ts) = {x \<in> ran (live t). P x}" by auto
  show "x \<in> set (filter (retires t) ts) \<Longrightarrow> live t (tk_key x) = None" using mem by (simp add: live_def)
qed

definition scan :: "GfSpTQueue \<Rightarrow> (task \<Rightarrow> bool) \<Rightarrow> string list \<Rightarrow> task option \<times> GfSpTQueue" where
  "scan t P it =
    (let ts = map (\<lambda>key. the (map_of (tq_tasks t) key)) it;
         (r, t1) = pick t (filter (\<lambda>x. \<not> retires t x \<and> P x) ts)
     in (r, drop_retired t1 (filter (retires t) ts)))"

lemma scan_spec:
  assumes "tq_inv t" "order_of t it" "scan t P it = (r, t')"
  shows "tq_inv t' \<and> live t' = live t \<and> same_conf t t' \<and> (case r of
     None \<Rightarrow> {x \<in> ran (live t). P x} = {} \<and> tq_current t' = tq_current t
   | Some x \<Rightarrow> next_after (tq_current t) {x \<in> ran (live t). P x} x \<and> tq_current t' = tk_createTime x)"
proof -
  let ?ts = "map (\<lambda>key. the (map_of (tq_tasks t) key)) it"
  let ?c = "filter (\<lambda>x. \<not> retires t x \<and> P x) ?ts"
  note sc = scan_candidates [OF assms(1,2)]
  obtain r1 t1 where p: "pick t ?c = (r1, t1)" by force
  have t': "r = r1" "t' = drop_retired t1 (filter (retires t) ?ts)" using assms(3) p by (auto simp: scan_def)
  have c: "\<exists>c. t1 = t\<lparr>tq_current := c\<rparr>" using p pick_spec [of ?c t]
    by (cases "?c = []") (auto simp: pick_def intro: exI [of _ "tq_current t"])
  then have inv1: "tq_inv t1" "live t1 = live t" "same_conf t t1"
    using assms(1) by (auto simp: tq_inv_def tq_Len_def same_conf_def)
  note dr = drop_retired_spec [OF inv1(1), of "filter (retires t) ?ts"]
  have d: "tq_inv t' \<and> live t' = live t1 \<and> same_conf t1 t' \<and> tq_current t' = tq_current t1"
    unfolding t' using dr sc(2) inv1(2) by simp
  show ?thesis
  proof (cases "?c = []")
    case True
    then have "r = None" "t1 = t" using p t' by (auto simp: pick_def)
    moreover have "{x \<in> ran (live t). P x} = {}" using sc(1) [of P] True by (metis list.set(1))
    ultimately show ?thesis using d by simp
  next
    case False
    then obtain x where x: "pick t ?c = (Some x, t\<lparr>tq_current := tk_createTime x\<rparr>)" "next_after (tq_current t) (set ?c) x"
      using pick_spec by blast
    then show ?thesis using d p t' inv1(3) unfolding sc(1) by (auto simp: same_conf_def)
  qed
qed

lemma top_task_scan: "order_of t it \<Longrightarrow> top_task t it = scan t (passes t) it"
  by (auto simp: top_task_def scan_def order_of_def pick_def drop_retired_def Let_def)

lemma topByLimit_scan:
  "order_of t it \<Longrightarrow> topByLimit t lim it = scan t (\<lambda>x. NotLess lim (tk_estimate x) \<and> passes t x) it"
  by (auto simp: topByLimit_def scan_def order_of_def pick_def drop_retired_def Let_def)

text \<open>The tasks a \<open>Top\<close> or \<open>Pop\<close> may return.\<close>

definition poppable :: "GfSpTQueue \<Rightarrow> task set" where
  "poppable t = {x \<in> ran (live t). passes t x}"

lemma live_key: "tq_inv t \<Longrightarrow> live t k = Some x \<Longrightarrow> tk_key x = k"
  using tq_inv_stored by (auto simp: live_def split: option.splits if_splits)

lemma ran_live_key: "tq_inv t \<Longrightarrow> x \<in> ran (live t) \<Longrightarrow> live t (tk_key x) = Some x"
  using live_key by (auto simp: ran_def)

lemma finite_poppable: "finite (poppable t)"
proof -
  have "ran (live t) \<subseteq> snd ` set (tq_tasks t)"
  proof
    fix x
    assume "x \<in> ran (live t)"
    then obtain k where "map_of (tq_tasks t) k = Some x"
      by (auto simp: ran_def live_def split: option.splits if_splits)
    then show "x \<in> snd ` set (tq_tasks t)" by (force dest: map_of_SomeD)
  qed
  then have "finite (ran (live t))" by (rule finite_subset) simp
  then show ?thesis by (simp add: poppable_def)
qed

lemma tq_Pop_spec:
  assumes "tq_inv t" "order_of t it" "tq_Pop t it = (r, t')"
  shows "tq_inv t' \<and> same_conf t t' \<and> (case r of
     None \<Rightarrow> poppable t = {} \<and> live t' = live t \<and> tq_current t' = tq_current t
   | Some x \<Rightarrow> next_after (tq_current t) (poppable t) x \<and> live t' = (live t)(tk_key x := None)
       \<and> poppable t' = poppable t - {x} \<and> tq_current t' = tk_createTime x)"
proof -
  obtain r1 t1 where s: "scan t (passes t) it = (r1, t1)" by force
  note sp = scan_spec [OF assms(1,2) s]
  show ?thesis
  proof (cases r1)
    case None
    then show ?thesis using sp s assms(3) top_task_scan [OF assms(2)] by (auto simp: tq_Pop_def poppable_def)
  next
    case (Some x)
    have r: "r = Some x" "t' = tq_delete t1 x" using s Some assms(3) top_task_scan [OF assms(2)] by (auto simp: tq_Pop_def)
    have inv1: "tq_inv t1" "live t1 = live t" "same_conf t t1" "tq_current t1 = tk_createTime x"
      and nx: "next_after (tq_current t) (poppable t) x" using sp Some by (auto simp: poppable_def)
    note ds = tq_delete_spec [OF inv1(1) r(2) [symmetric]]
    have conf: "same_conf t t'" using ds(3) inv1(3) by (auto simp: same_conf_def)
    have "x \<in> ran (live t)" using nx by (simp add: next_after_def poppable_def)
    then have x: "live t (tk_key x) = Some x" using ran_live_key [OF assms(1)] by blast
    have "ran ((live t)(tk_key x := None)) = ran (live t) - {x}"
    proof (intro set_eqI iffI)
      fix y
      assume "y \<in> ran ((live t)(tk_key x := None))"
      then obtain k where "live t k = Some y" "k \<noteq> tk_key x" by (auto simp: ran_def split: if_splits)
      then show "y \<in> ran (live t) - {x}" using live_key [OF assms(1)] by (auto simp: ran_def)
    next
      fix y
      assume y: "y \<in> ran (live t) - {x}"
      then have "live t (tk_key y) = Some y" "tk_key y \<noteq> tk_key x" using ran_live_key [OF assms(1), of y] x by auto
      then show "y \<in> ran ((live t)(tk_key x := None))" by (auto simp: ran_def)
    qed
    then have "poppable t' = poppable t - {x}"
      using ds(1) inv1(2) same_conf_passes [OF conf] by (auto simp: poppable_def)
    then show ?thesis using r ds inv1 nx conf by simp
  qed
qed

section \<open>The interface of a keyed queue\<close>

text \<open>What the manager relies on when it pushes, looks up and removes tasks by key: the queue
  behaves as a partial map from keys to tasks. \<open>fresh\<close> are the tasks the retire strategy keeps.\<close>

locale keyed_queue =
  fixes inv :: "'q \<Rightarrow> bool" and content :: "'q \<Rightarrow> string \<rightharpoonup> 't" and key_of :: "'t \<Rightarrow> string"
    and fresh :: "'q \<Rightarrow> 't \<Rightarrow> bool"
    and has :: "'q \<Rightarrow> string \<Rightarrow> bool \<times> 'q"
    and push :: "'q \<Rightarrow> 't \<Rightarrow> 'e option \<times> 'q"
    and pop_by_key :: "'q \<Rightarrow> string \<Rightarrow> 't option \<times> 'q"
  assumes has_law: "inv q \<Longrightarrow> has q k = (b, q') \<Longrightarrow> inv q' \<and> content q' = content q \<and> (b \<longleftrightarrow> content q k \<noteq> None)"
    and push_law: "inv q \<Longrightarrow> push q x = (None, q') \<Longrightarrow> fresh q x \<Longrightarrow>
      inv q' \<and> content q (key_of x) = None \<and> content q' = (content q)(key_of x \<mapsto> x)"
    and push_err: "inv q \<Longrightarrow> push q x = (Some e, q') \<Longrightarrow> inv q' \<and> content q' = content q"
    and pop_law: "inv q \<Longrightarrow> pop_by_key q k = (r, q') \<Longrightarrow> inv q' \<and> r = content q k \<and> content q' = (content q)(k := None)"
begin

text \<open>A pushed task is found, is returned by its key, and is then gone.\<close>

lemma push_pop:
  assumes "inv q" "push q x = (None, q1)" "fresh q x" "pop_by_key q1 (key_of x) = (r, q2)"
  shows "r = Some x \<and> content q2 = content q"
proof -
  have q1: "inv q1" "content q (key_of x) = None" "content q1 = (content q)(key_of x \<mapsto> x)"
    using push_law [OF assms(1-3)] by auto
  then show ?thesis using pop_law [OF q1(1) assms(4)] by (simp add: fun_upd_idem)
qed

lemma push_has: "inv q \<Longrightarrow> push q x = (None, q1) \<Longrightarrow> fresh q x \<Longrightarrow> fst (has q1 (key_of x))"
  using push_law [of q x q1] has_law [OF _ surjective_pairing, of q1] by simp

text \<open>Operations on one key do not disturb the others.\<close>

lemma pop_other: "inv q \<Longrightarrow> k \<noteq> k' \<Longrightarrow> content (snd (pop_by_key q k)) k' = content q k'"
  using pop_law [OF _ surjective_pairing, of q] by simp

end

interpretation tq: keyed_queue tq_inv live tk_key "\<lambda>t x. \<not> retires t x" tq_has tq_Push tq_PopByKey
proof (unfold_locales, goal_cases)
  case (1 q k b q')
  then show ?case using tq_has_spec [OF 1] by simp
next
  case (2 q x q')
  then show ?case using tq_Push_spec [of q x None q'] by simp
next
  case (3 q x e q')
  then show ?case using tq_Push_spec [of q x "Some e" q'] by (cases e) simp_all
next
  case (4 q k r q')
  then show ?case using tq_PopByKey_spec [of q k r q'] by simp
qed

section \<open>Runs of a queue\<close>

text \<open>All calls on a queue; a scan runs in any iteration order of the map.\<close>

inductive tq_step :: "GfSpTQueue \<Rightarrow> GfSpTQueue \<Rightarrow> bool" where
  "tq_step t (snd (tq_has t k))"
| "tq_step t (snd (tq_Push t x))"
| "tq_step t (snd (tq_PopByKey t k))"
| "tq_step t (snd (tq_PopTask t ox))"
| "order_of t it \<Longrightarrow> tq_step t (snd (top_task t it))"
| "order_of t it \<Longrightarrow> tq_step t (snd (tq_Pop t it))"
| "order_of t it \<Longrightarrow> tq_step t (snd (topByLimit t lim it))"
| "order_of t it \<Longrightarrow> tq_step t (snd (PopByLimit t lim it))"
| "tq_step t (SetFilterTaskStrategy t f)"
| "tq_step t (SetRetireTaskStrategy t f)"

inductive tq_reach :: "string \<Rightarrow> int \<Rightarrow> GfSpTQueue \<Rightarrow> bool" for nm c where
  tq_new: "tq_reach nm c (NewGfSpTQueue nm c)"
| tq_next: "tq_reach nm c t \<Longrightarrow> tq_step t t' \<Longrightarrow> tq_reach nm c t'"

lemma PopByLimit_inv:
  assumes "tq_inv t" "order_of t it"
  shows "tq_inv (snd (PopByLimit t lim it)) \<and> same_conf t (snd (PopByLimit t lim it))"
proof -
  obtain r t1 where s: "topByLimit t lim it = (r, t1)" by force
  have i: "tq_inv t1 \<and> same_conf t t1" using scan_spec [OF assms] s topByLimit_scan [OF assms(2)] by auto
  show ?thesis
  proof (cases r)
    case None
    then show ?thesis using s i by (simp add: PopByLimit_def)
  next
    case (Some x)
    have "tq_inv t1" using i by simp
    note ds = tq_delete_spec [OF this refl, of x]
    show ?thesis using s i Some ds(2,3) by (simp add: PopByLimit_def same_conf_def)
  qed
qed

lemma tq_PopTask_inv:
  assumes "tq_inv t"
  shows "tq_inv (snd (tq_PopTask t ox)) \<and> same_conf t (snd (tq_PopTask t ox))"
proof (cases ox)
  case (Some x)
  then show ?thesis using assms tq_delete_spec(2,3) [OF assms refl, of x] by (simp add: tq_PopTask_def)
qed (simp add: tq_PopTask_def assms)

lemma tq_step_inv: "tq_step t t' \<Longrightarrow> tq_inv t \<Longrightarrow> tq_inv t' \<and> tq_cap t' = tq_cap t"
proof (induction rule: tq_step.induct)
  case (1 t k)
  then show ?case using tq_has_spec [OF _ surjective_pairing, of t k] by (auto simp: same_conf_def)
next
  case (2 t x)
  then show ?case using tq_Push_spec [OF _ surjective_pairing, of t x] by (auto simp: same_conf_def)
next
  case (3 t k)
  then show ?case using tq_PopByKey_spec [OF _ surjective_pairing, of t k] by (auto simp: same_conf_def)
next
  case (4 t ox)
  then show ?case using tq_PopTask_inv by (auto simp: same_conf_def)
next
  case (5 t it)
  then show ?case
    using scan_spec [OF _ 5(1) surjective_pairing, of "passes t"] top_task_scan [OF 5(1)] by (auto simp: same_conf_def)
next
  case (6 t it)
  then show ?case using tq_Pop_spec [OF _ 6(1) surjective_pairing] by (auto simp: same_conf_def)
next
  case (7 t it lim)
  then show ?case
    using scan_spec [OF _ 7(1) surjective_pairing] topByLimit_scan [OF 7(1)] by (auto simp: same_conf_def)
next
  case (8 t it lim)
  then show ?case using PopByLimit_inv by (auto simp: same_conf_def)
next
  case (9 t f)
  then show ?case by (simp add: SetFilterTaskStrategy_def tq_inv_def tq_Len_def)
next
  case (10 t f)
  then show ?case by (simp add: SetRetireTaskStrategy_def tq_inv_def tq_Len_def)
qed

lemma tq_reach_inv: "tq_reach nm c t \<Longrightarrow> 0 \<le> c \<Longrightarrow> tq_inv t \<and> tq_cap t = c"
proof (induction rule: tq_reach.induct)
  case tq_new
  then show ?case by (simp add: NewGfSpTQueue_def tq_inv_def tq_Len_def)
next
  case (tq_next t t')
  then show ?case using tq_step_inv [OF tq_next(2)] by auto
qed

section \<open>Fairness\<close>

fun tops :: "GfSpTQueue \<Rightarrow> string list list \<Rightarrow> task option list" where
  "tops t [] = []"
| "tops t (it # its) = (case top_task t it of (r, t1) \<Rightarrow> r # tops t1 its)"

fun pops :: "GfSpTQueue \<Rightarrow> string list list \<Rightarrow> task option list" where
  "pops t [] = []"
| "pops t (it # its) = (case tq_Pop t it of (r, t1) \<Rightarrow> r # pops t1 its)"

text \<open>The iteration orders fit the queue at the time of each call.\<close>

fun pop_orders :: "GfSpTQueue \<Rightarrow> string list list \<Rightarrow> bool" where
  "pop_orders t [] = True"
| "pop_orders t (it # its) = (order_of t it \<and> pop_orders (snd (tq_Pop t it)) its)"

lemma rotate_range:
  assumes "i < n"
  shows "(\<lambda>k. (i + k) mod n) ` {0..<n} = {0..<(n :: nat)}"
proof (intro set_eqI iffI)
  fix j
  assume "j \<in> {0..<n}"
  then have "j = (i + (j + n - i) mod n) mod n" "(j + n - i) mod n \<in> {0..<n}"
    using assms by (simp_all add: mod_add_right_eq)
  then show "j \<in> (\<lambda>k. (i + k) mod n) ` {0..<n}" by blast
qed (use assms in auto)

text \<open>The round-robin successor in a list sorted by distinct creation times.\<close>

lemma next_after_nth:
  assumes "sorted_wrt (<) (map tk_createTime xs)" "i < length xs"
    and "next_after (tk_createTime (xs ! i)) (set xs) x"
  shows "x = xs ! (Suc i mod length xs)"
proof -
  let ?T = "\<lambda>j. tk_createTime (xs ! j)"
  have lt: "?T a < ?T b" if "a < b" "b < length xs" for a b
    using sorted_wrt_nth_less [OF assms(1), of a b] that by simp
  have less: "?T a < ?T b \<longleftrightarrow> a < b" if "a < length xs" "b < length xs" for a b
    using lt [of a b] lt [of b a] that by (cases a b rule: linorder_cases) auto
  obtain j where j: "j < length xs" "x = xs ! j" using assms(3) by (auto simp: next_after_def in_set_conv_nth)
  show ?thesis
  proof (cases "Suc i < length xs")
    case True
    then have m: "xs ! Suc i \<in> set xs" "?T i < ?T (Suc i)" using less assms(2) by auto
    then have "?T i < ?T j" "?T j \<le> ?T (Suc i)" using assms(3) j by (auto simp: next_after_def split: if_splits)
    then have "i < j" "\<not> Suc i < j" using less [of i j] less [of "Suc i" j] assms(2) j True by linarith+
    then have "j = Suc i" by linarith
    then show ?thesis using j True by simp
  next
    case False
    then have i: "Suc i = length xs" using assms(2) by simp
    have "\<not> (\<exists>y \<in> set xs. tk_createTime y > ?T i)"
      using less i by (auto simp: in_set_conv_nth)
    moreover have "xs ! 0 \<in> set xs" using assms(2) by (intro nth_mem) linarith
    ultimately have "?T j \<le> ?T 0" using assms(3) j by (auto simp: next_after_def)
    then have "\<not> ?T 0 < ?T j" by simp
    moreover have "0 < length xs" using assms(2) by linarith
    ultimately have "j = 0" using less [of 0 j] j(1) by blast
    moreover have "Suc i mod length xs = 0" unfolding i by (rule mod_self)
    ultimately show ?thesis using j(2) by simp
  qed
qed

lemma top_static:
  assumes "tq_inv t" "tq_gcFunc t = None" "order_of t it" "top_task t it = (r, t1)" "poppable t \<noteq> {}"
  shows "\<exists>x. r = Some x \<and> next_after (tq_current t) (poppable t) x \<and> t1 = t\<lparr>tq_current := tk_createTime x\<rparr>"
proof -
  let ?ts = "map (\<lambda>key. the (map_of (tq_tasks t) key)) it"
  have nr: "filter (retires t) ?ts = []" using assms(2) by (simp add: retires_def)
  have sc: "scan t (passes t) it = (r, t1)" using assms(3,4) top_task_scan by simp
  let ?c = "filter (\<lambda>x. \<not> retires t x \<and> passes t x) ?ts"
  have c: "set ?c = poppable t" using scan_candidates(1) [OF assms(1,3), of "passes t"] by (simp add: poppable_def)
  then have "?c \<noteq> []" using assms(5) by (metis list.set(1))
  then obtain x where x: "pick t ?c = (Some x, t\<lparr>tq_current := tk_createTime x\<rparr>)" "next_after (tq_current t) (poppable t) x"
    using pick_spec [of ?c t] c by auto
  then show ?thesis using sc nr by (auto simp: scan_def drop_retired_def)
qed

lemma tops_rotate:
  assumes "tq_inv t" "tq_gcFunc t = None" "\<forall>it \<in> set its. order_of t it"
    and "set xs = poppable t" "sorted_wrt (<) (map tk_createTime xs)" "i < length xs" "tq_current t = tk_createTime (xs ! i)"
  shows "tops t its = map (\<lambda>k. Some (xs ! ((i + k) mod length xs))) [1..<Suc (length its)]"
  using assms
proof (induction its arbitrary: t i)
  case (Cons it its)
  obtain r t1 where s: "top_task t it = (r, t1)" by force
  have ne: "poppable t \<noteq> {}" using Cons.prems(4,6) by (metis length_0_conv less_nat_zero_code list.set(1) set_empty)
  obtain x where x: "r = Some x" "next_after (tq_current t) (poppable t) x" "t1 = t\<lparr>tq_current := tk_createTime x\<rparr>"
    using top_static [OF Cons.prems(1,2) _ s ne] Cons.prems(3) by auto
  let ?j = "Suc i mod length xs"
  have j: "x = xs ! ?j" "?j < length xs"
    using next_after_nth [OF Cons.prems(5,6)] x(2) Cons.prems(4,6,7) by (simp, intro mod_less_divisor, linarith)
  have t1: "tq_inv t1" "tq_gcFunc t1 = None" "poppable t1 = poppable t" "tq_current t1 = tk_createTime (xs ! ?j)"
    "\<And>it. order_of t1 it = order_of t it"
    using Cons.prems(1,2) x(3) j by (simp_all add: tq_inv_def tq_Len_def poppable_def order_of_def)
  have "tops t1 its = map (\<lambda>k. Some (xs ! ((?j + k) mod length xs))) [1..<Suc (length its)]"
    by (rule Cons.IH) (use t1 Cons.prems j in auto)
  also have "\<dots> = map (\<lambda>k. Some (xs ! ((i + k) mod length xs))) [Suc 1..<Suc (Suc (length its))]"
    by (subst map_Suc_upt [symmetric]) (simp add: mod_add_left_eq)
  finally have rest: "tops t1 its = \<dots>" .
  have "[1..<Suc (length (it # its))] = 1 # [Suc 1..<Suc (Suc (length its))]" by (subst upt_conv_Cons) simp_all
  then show ?case using rest s x(1) j(1) by (simp del: upt_Suc)
qed simp

lemma pops_drain:
  assumes "tq_inv t" "pop_orders t its" "length its = card (poppable t)"
  shows "distinct (pops t its) \<and> set (pops t its) = Some ` poppable t"
  using assms
proof (induction its arbitrary: t)
  case Nil
  then show ?case using finite_poppable [of t] by simp
next
  case (Cons it its)
  obtain r t1 where s: "tq_Pop t it = (r, t1)" by force
  have o: "order_of t it" "pop_orders t1 its" using Cons.prems(2) s by auto
  note sp = tq_Pop_spec [OF Cons.prems(1) o(1) s]
  have ne: "poppable t \<noteq> {}" using Cons.prems(3) by auto
  then obtain x where r: "r = Some x" using sp by (cases r) auto
  then have x: "x \<in> poppable t" "poppable t1 = poppable t - {x}" "tq_inv t1"
    using sp by (auto simp: next_after_def)
  have "length its = card (poppable t1)"
    using Cons.prems(3) x finite_poppable [of t] by simp
  then have "distinct (pops t1 its) \<and> set (pops t1 its) = Some ` poppable t1"
    using Cons.IH [OF x(3) o(2)] by blast
  then show ?case using s r x by auto
qed

section \<open>Properties of the task queues\<close>

text \<open>Three tasks and a queue for the witnesses.\<close>

definition ex_task :: "nat \<Rightarrow> string \<Rightarrow> int \<Rightarrow> task" where
  "ex_task n k c = \<lparr>tk_ref = n, tk_key = k, tk_createTime = c,
     tk_estimate = GfSp \<lparr>l_Memory = 10, l_Tasks = 1, l_TasksHighPriority = 1, l_TasksMediumPriority = 0,
       l_TasksLowPriority = 0, l_Fd = 0, l_Conns = 0, l_ConnsInbound = 0, l_ConnsOutbound = 0\<rparr>\<rparr>"

definition ex_queue :: GfSpTQueue where
  "ex_queue = snd (tq_Push (snd (tq_Push (snd (tq_Push (NewGfSpTQueue ''q'' 3)
     (ex_task 1 ''a'' 5))) (ex_task 2 ''b'' 9))) (ex_task 3 ''c'' 7))"

lemma ex_queue_reach: "tq_reach ''q'' 3 ex_queue"
  unfolding ex_queue_def by (rule tq_next [OF tq_next [OF tq_next [OF tq_new]]]) (rule tq_step.intros(2))+

lemma ex_queue_inv: "tq_inv ex_queue"
  using tq_reach_inv [OF ex_queue_reach] by simp

lemma ex_queue_eq: "tq_tasks ex_queue = [(''c'', ex_task 3 ''c'' 7), (''b'', ex_task 2 ''b'' 9), (''a'', ex_task 1 ''a'' 5)]"
  "tq_gcFunc ex_queue = None" "tq_filterFunc ex_queue = None" "tq_current ex_queue = 0" "tq_cap ex_queue = 3"
  by (simp_all add: ex_queue_def tq_Push_def tq_has_def NewGfSpTQueue_def exceed_def tq_Len_def tq_add_def
      map_delete_def ex_task_def)

text \<open>C36: In every state a queue can reach, by any interleaving of its methods, strategies that
  change at any time and any map iteration order, it holds at most \<open>cap\<close> tasks, no key twice, and
  every task under its own key.\<close>

theorem queue_bounded:
  assumes "tq_reach nm c t" "0 \<le> c"
  shows "int (length (tq_tasks t)) \<le> c \<and> distinct (map fst (tq_tasks t))
    \<and> (\<forall>(k, v) \<in> set (tq_tasks t). tk_key v = k)"
proof -
  have "tq_inv t" "tq_cap t = c" using tq_reach_inv [OF assms] by blast+
  then show ?thesis unfolding tq_inv_def tq_Len_def by blast
qed

theorem queue_bounded_witness:
  "int (length (tq_tasks ex_queue)) \<le> 3 \<and> distinct (map fst (tq_tasks ex_queue))
    \<and> (''a'', ex_task 1 ''a'' 5) \<in> set (tq_tasks ex_queue) \<and> tk_key (ex_task 1 ''a'' 5) = ''a''"
  using queue_bounded [OF ex_queue_reach] by (simp add: ex_queue_eq)

text \<open>C32: \<open>Push\<close> refines insertion into a map. It fails with "request repeated" exactly when a live
  task (one the retire strategy keeps) has the key, leaving the queue alone; it fails with "request
  exceed limit" only when the queue is full of live tasks, losing none of them; otherwise the live
  tasks are the old ones plus the new one, and no live task was evicted to make room.\<close>

theorem push_refines_map_insert:
  assumes "tq_reach nm c t" "0 \<le> c" "tq_Push t task = (e, t')"
  shows "case e of
     Some ErrTaskRepeated \<Rightarrow> live t (tk_key task) \<noteq> None \<and> t' = t
   | Some ErrTaskQueueExceed \<Rightarrow> live t (tk_key task) = None \<and> live t' = live t
       \<and> int (length (tq_tasks t')) = c \<and> (\<forall>(k, v) \<in> set (tq_tasks t'). \<not> retires t v)
   | None \<Rightarrow> live t (tk_key task) = None
       \<and> live t' = (live t)(tk_key task := (if retires t task then None else Some task))"
proof -
  note inv = tq_reach_inv [OF assms(1,2)]
  have sp: "tq_inv t' \<and> same_conf t t'" using tq_Push_spec [OF _ assms(3)] inv by simp
  then have "retires t' = retires t" "int (length (tq_tasks t')) \<le> c"
    using same_conf_retires inv by (auto simp: tq_inv_def tq_Len_def same_conf_def)
  then show ?thesis
    using tq_Push_spec [OF _ assms(3)] inv sp
    by (auto simp: full_of_live_def tq_Len_def same_conf_def split: option.splits tq_error.splits)
qed

theorem push_refines_map_insert_witness:
  "(let (e, t') = tq_Push ex_queue (ex_task 4 ''d'' 8) in
      e = Some ErrTaskQueueExceed \<and> live t' = live ex_queue)
   \<and> (let (e, t') = tq_Push (snd (tq_PopByKey ex_queue ''c'')) (ex_task 4 ''d'' 8) in
      e = None \<and> live t' = (live (snd (tq_PopByKey ex_queue ''c'')))(''d'' \<mapsto> ex_task 4 ''d'' 8))"
proof -
  let ?q = "snd (tq_PopByKey ex_queue ''c'')"
  have e1: "tq_Push ex_queue (ex_task 4 ''d'' 8) = (Some ErrTaskQueueExceed, ex_queue)"
    by (simp add: tq_Push_def tq_has_def ex_queue_eq ex_task_def exceed_def tq_Len_def)
  have q: "tq_tasks ?q = [(''b'', ex_task 2 ''b'' 9), (''a'', ex_task 1 ''a'' 5)]" "tq_gcFunc ?q = None" "tq_cap ?q = 3"
    by (simp_all add: tq_PopByKey_def tq_delete_def tq_has_def ex_queue_eq map_delete_def) (simp add: ex_task_def)+
  have e2: "fst (tq_Push ?q (ex_task 4 ''d'' 8)) = None"
    by (simp add: tq_Push_def tq_has_def q exceed_def tq_Len_def ex_task_def)
  have r: "tq_reach ''q'' 3 ?q" by (rule tq_next [OF ex_queue_reach]) (rule tq_step.intros(3))
  have nr: "\<not> retires ?q (ex_task 4 ''d'' 8)" by (simp add: retires_def q)
  show ?thesis
    using push_refines_map_insert [OF ex_queue_reach _ e1] e1
      push_refines_map_insert [OF r _ surjective_pairing, of "ex_task 4 ''d'' 8"] e2 nr
    by (simp add: Let_def split_beta) (simp add: ex_task_def)
qed

lemma ex_queue_order: "order_of ex_queue [''a'', ''b'', ''c'']"
  by (auto simp: order_of_def ex_queue_eq)

lemma live_no_retire: "tq_gcFunc t = None \<Longrightarrow> live t = map_of (tq_tasks t)"
  by (auto simp: live_def retires_def fun_eq_iff split: option.split)

lemma ex_queue_poppable: "poppable ex_queue = {ex_task 1 ''a'' 5, ex_task 2 ''b'' 9, ex_task 3 ''c'' 7}"
proof -
  have "ran (live ex_queue) = snd ` set (tq_tasks ex_queue)"
    using ran_distinct [of "tq_tasks ex_queue"] ex_queue_inv live_no_retire [OF ex_queue_eq(2)] by (simp add: tq_inv_def)
  then show ?thesis by (auto simp: poppable_def passes_def ex_queue_eq)
qed

text \<open>C33: \<open>Pop\<close> is a round robin over creation times, whatever the map iteration order: it returns
  nothing exactly when no live task passes the filter; otherwise it returns the oldest eligible task
  created after the cursor, or the oldest of all when there is none, removes exactly that task and
  moves the cursor to its creation time.\<close>

theorem pop_round_robin:
  assumes "tq_reach nm c t" "0 \<le> c" "order_of t it" "tq_Pop t it = (r, t')"
  shows "case r of
     None \<Rightarrow> poppable t = {} \<and> live t' = live t
   | Some x \<Rightarrow> next_after (tq_current t) (poppable t) x \<and> live t' = (live t)(tk_key x := None)
       \<and> poppable t' = poppable t - {x} \<and> tq_current t' = tk_createTime x"
  using tq_Pop_spec [OF _ assms(3,4)] tq_reach_inv [OF assms(1,2)] by (auto split: option.splits)

theorem pop_round_robin_witness:
  "fst (tq_Pop ex_queue [''a'', ''b'', ''c'']) = Some (ex_task 1 ''a'' 5)
    \<and> next_after 0 (poppable ex_queue) (ex_task 1 ''a'' 5)
    \<and> tq_current (snd (tq_Pop ex_queue [''a'', ''b'', ''c''])) = 5"
proof -
  have p: "fst (tq_Pop ex_queue [''a'', ''b'', ''c'']) = Some (ex_task 1 ''a'' 5)" by code_simp
  then show ?thesis
    using pop_round_robin [OF ex_queue_reach _ ex_queue_order surjective_pairing] ex_queue_eq(4)
    by (simp add: ex_task_def)
qed

text \<open>C34: No task starves under \<open>Pop\<close>: as many calls as there are eligible tasks return each of them
  exactly once, in every iteration order and also when creation times coincide.\<close>

theorem pop_drains_queue:
  assumes "tq_reach nm c t" "0 \<le> c" "pop_orders t its" "length its = card (poppable t)"
  shows "distinct (pops t its) \<and> set (pops t its) = Some ` poppable t"
  using pops_drain [OF _ assms(3,4)] tq_reach_inv [OF assms(1,2)] by blast

theorem pop_drains_queue_witness:
  "set (pops ex_queue [[''a'', ''b'', ''c''], [''c'', ''b''], [''b'']]) = Some ` poppable ex_queue"
proof -
  have o: "pop_orders ex_queue [[''a'', ''b'', ''c''], [''c'', ''b''], [''b'']]" by code_simp
  have c: "card (poppable ex_queue) = 3" by (simp add: ex_queue_poppable ex_task_def)
  show ?thesis using pop_drains_queue [OF ex_queue_reach _ o] c by simp
qed

text \<open>C35: No task starves under \<open>Top\<close> either: without a retire strategy and with distinct creation
  times, as many consecutive calls of \<open>Top\<close> as there are eligible tasks visit every one of them.\<close>

theorem top_visits_all:
  assumes "tq_reach nm c t" "0 \<le> c" "tq_gcFunc t = None" "\<forall>it \<in> set its. order_of t it"
    and "inj_on tk_createTime (poppable t)" "length its = card (poppable t)"
  shows "set (tops t its) = Some ` poppable t"
proof (cases its)
  case Nil
  then show ?thesis using assms(6) finite_poppable [of t] by simp
next
  case (Cons it its')
  have inv: "tq_inv t" using tq_reach_inv [OF assms(1,2)] by blast
  obtain ys where ys: "set ys = poppable t" "distinct ys" using finite_distinct_list [OF finite_poppable] by blast
  define xs where "xs = sort_key tk_createTime ys"
  have xs: "set xs = poppable t" "length xs = length its" "sorted_wrt (<) (map tk_createTime xs)"
    using ys assms(5,6) distinct_card [OF ys(2)]
    by (auto simp: xs_def strict_sorted_iff distinct_map inj_on_def)
  obtain r t1 where s: "top_task t it = (r, t1)" by force
  have ne: "poppable t \<noteq> {}" using assms(6) Cons by auto
  obtain x where x: "r = Some x" "next_after (tq_current t) (poppable t) x" "t1 = t\<lparr>tq_current := tk_createTime x\<rparr>"
    using top_static [OF inv assms(3) _ s ne] assms(4) Cons by auto
  obtain i where i: "i < length xs" "x = xs ! i" using x(2) xs(1) by (metis in_set_conv_nth next_after_def)
  have t1: "tq_inv t1" "tq_gcFunc t1 = None" "\<forall>it \<in> set its'. order_of t1 it" "set xs = poppable t1"
    "tq_current t1 = tk_createTime (xs ! i)"
    using inv assms(3,4) x(3) xs(1) i Cons by (simp_all add: tq_inv_def tq_Len_def poppable_def order_of_def)
  have "tops t its = Some (xs ! i) # map (\<lambda>k. Some (xs ! ((i + k) mod length xs))) [1..<length its]"
    using tops_rotate [OF t1(1-4) xs(3) i(1) t1(5)] s x(1) i Cons by simp
  also have "\<dots> = map (\<lambda>k. Some (xs ! ((i + k) mod length xs))) [0..<length its]"
    using i Cons by (subst upt_conv_Cons [of 0]) simp_all
  finally have "set (tops t its) = (\<lambda>k. Some (xs ! ((i + k) mod length xs))) ` {0..<length xs}"
    using xs(2) by simp
  also have "\<dots> = (\<lambda>j. Some (xs ! j)) ` ((\<lambda>k. (i + k) mod length xs) ` {0..<length xs})"
    by (simp add: image_image)
  also have "\<dots> = Some ` set xs" unfolding rotate_range [OF i(1)] by (force simp: in_set_conv_nth image_iff)
  finally show ?thesis using xs(1) by simp
qed

theorem top_visits_all_witness:
  "set (tops ex_queue [[''a'', ''b'', ''c''], [''c'', ''a'', ''b''], [''b'', ''c'', ''a'']]) = Some ` poppable ex_queue"
  by (rule top_visits_all [OF ex_queue_reach])
     (auto simp: ex_queue_eq order_of_def ex_queue_poppable ex_task_def)



text \<open>C37: \<open>PopTask\<close> removes a task only if the very object is queued under its key: it answers true
  exactly in that case, then the key is gone; otherwise the queue is unchanged, so a newer task
  under the same key is never removed.\<close>

theorem pop_task_identity:
  assumes "tq_reach nm c t" "0 \<le> c"
  shows "(case tq_PopTask t (Some x) of (b, t') \<Rightarrow>
      (b \<longleftrightarrow> (\<exists>y. map_of (tq_tasks t) (tk_key x) = Some y \<and> tk_ref y = tk_ref x))
    \<and> (if b then live t' = (live t)(tk_key x := None) else t' = t))"
  using tq_delete_spec(1) [of t "x"] tq_reach_inv [OF assms] by (auto simp: tq_PopTask_def)

theorem pop_task_identity_witness:
  "\<not> fst (tq_PopTask ex_queue (Some (ex_task 9 ''a'' 5))) \<and> snd (tq_PopTask ex_queue (Some (ex_task 9 ''a'' 5))) = ex_queue"
proof -
  have n: "\<not> fst (tq_PopTask ex_queue (Some (ex_task 9 ''a'' 5)))" by code_simp
  then show ?thesis
    using pop_task_identity [OF ex_queue_reach, of "ex_task 9 ''a'' 5"] by (auto simp: split_beta)
qed

end
