(* ===== verification/Task_Model.thy ===== *)
theory Task_Model
  imports Limits
begin

text \<open>
  Tasks: the base task of \<open>base/types/gfsptask/task.go\<close>, the task types and priorities of
  \<open>core/task/const.go\<close>, the resource estimates of the task kinds
  (\<open>base/types/gfsptask/upload.go\<close>, \<open>download.go\<close>, \<open>recovery.go\<close>), the task keys of
  \<open>task_key.go\<close> and the defaults of \<open>base/gfspapp/task_options.go\<close> (timeout, retries,
  priority per task type). Sizes are uint64 (\<open>64 word\<close>), priorities uint8 (\<open>8 word\<close>). A Go
  panic (division by zero) is \<open>None\<close>. The clock is an argument.
\<close>

section \<open>Types and priorities\<close>

datatype TType =
    TypeTaskUnknown | TypeTaskCreateBucketApproval | TypeTaskMigrateBucketApproval
  | TypeTaskCreateObjectApproval | TypeTaskReplicatePieceApproval | TypeTaskUpload
  | TypeTaskReplicatePiece | TypeTaskSealObject | TypeTaskReceivePiece | TypeTaskDownloadObject
  | TypeTaskDownloadPiece | TypeTaskChallengePiece | TypeTaskGCObject | TypeTaskGCZombiePiece
  | TypeTaskGCMeta | TypeTaskGCBucketMigration | TypeTaskRecoverPiece | TypeTaskMigrateGVG
  | TypeTaskGCStaleVersionObject

fun TypeTaskMap :: "TType \<Rightarrow> string option" where
  "TypeTaskMap TypeTaskUnknown = Some ''UnknownTask''"
| "TypeTaskMap TypeTaskCreateBucketApproval = Some ''CreateBucketApprovalTask''"
| "TypeTaskMap TypeTaskMigrateBucketApproval = Some ''MigrateBucketApprovalTask''"
| "TypeTaskMap TypeTaskCreateObjectApproval = Some ''CreateObjectApprovalTask''"
| "TypeTaskMap TypeTaskReplicatePieceApproval = Some ''ReplicatePieceApprovalTask''"
| "TypeTaskMap TypeTaskUpload = Some ''UploadObjectTask''"
| "TypeTaskMap TypeTaskReplicatePiece = Some ''ReplicatePieceTask''"
| "TypeTaskMap TypeTaskSealObject = Some ''SealObjectTask''"
| "TypeTaskMap TypeTaskReceivePiece = Some ''ReceivePieceTask''"
| "TypeTaskMap TypeTaskDownloadObject = Some ''DownloadObjectTask''"
| "TypeTaskMap TypeTaskChallengePiece = Some ''ChallengePieceTask''"
| "TypeTaskMap TypeTaskGCObject = Some ''GCObjectTask''"
| "TypeTaskMap TypeTaskGCZombiePiece = Some ''GCZombiePieceTask''"
| "TypeTaskMap TypeTaskGCMeta = Some ''GCMetaTask''"
| "TypeTaskMap TypeTaskGCBucketMigration = Some ''GCBucketMigrationTask''"
| "TypeTaskMap TypeTaskRecoverPiece = Some ''RecoverPieceTask''"
| "TypeTaskMap TypeTaskMigrateGVG = Some ''MigrateGVGTask''"
| "TypeTaskMap _ = None"

definition TaskTypeName :: "TType \<Rightarrow> string" where
  "TaskTypeName ty = (case TypeTaskMap ty of None \<Rightarrow> the (TypeTaskMap TypeTaskUnknown) | Some n \<Rightarrow> n)"

definition UnKnownTaskPriority :: "8 word" where
  "UnKnownTaskPriority = 0"

definition UnSchedulingPriority :: "8 word" where
  "UnSchedulingPriority = 0"

definition MaxTaskPriority :: "8 word" where
  "MaxTaskPriority = 255"

definition DefaultLargerTaskPriority :: "8 word" where
  "DefaultLargerTaskPriority = 170"

definition DefaultSmallerPriority :: "8 word" where
  "DefaultSmallerPriority = 85"



section \<open>The base task\<close>

text \<open>The error field of the protobuf message, with its inner code; \<open>None\<close> is nil.\<close>

record GfSpTask =
  t_Address :: string
  t_CreateTime :: int
  t_UpdateTime :: int
  t_Timeout :: int
  t_TaskPriority :: int
  t_Retry :: int
  t_MaxRetry :: int
  t_Err :: "(int \<times> string) option"

definition ExceedTimeout :: "int \<Rightarrow> GfSpTask \<Rightarrow> bool" where
  "ExceedTimeout now m \<longleftrightarrow> i64 (t_UpdateTime m + t_Timeout m) < now"

definition IncRetry :: "GfSpTask \<Rightarrow> GfSpTask" where
  "IncRetry m = m\<lparr>t_Retry := i64 (t_Retry m + 1)\<rparr>"

definition ExceedRetry :: "GfSpTask \<Rightarrow> bool" where
  "ExceedRetry m \<longleftrightarrow> t_Retry m \<ge> t_MaxRetry m"

definition Expired :: "int \<Rightarrow> GfSpTask \<Rightarrow> bool" where
  "Expired now m = (if ExceedRetry m \<and> ExceedTimeout now m then True else False)"

definition GetPriority :: "GfSpTask \<Rightarrow> 8 word" where
  "GetPriority m = word_of_int (t_TaskPriority m)"

definition SetPriority :: "8 word \<Rightarrow> GfSpTask \<Rightarrow> GfSpTask" where
  "SetPriority priority m = m\<lparr>t_TaskPriority := uint priority\<rparr>"

definition task_Error :: "GfSpTask \<Rightarrow> (int \<times> string) option" where
  "task_Error m = (case t_Err m of
     None \<Rightarrow> None
   | Some e \<Rightarrow> if fst e = 0 then None else Some e)"

section \<open>Resource estimates\<close>

definition limit_zero :: GfSpLimit where
  "limit_zero = \<lparr>l_Memory = 0, l_Tasks = 0, l_TasksHighPriority = 0, l_TasksMediumPriority = 0,
     l_TasksLowPriority = 0, l_Fd = 0, l_Conns = 0, l_ConnsInbound = 0, l_ConnsOutbound = 0\<rparr>"

definition LimitEstimateByPriority :: "8 word \<Rightarrow> Limit" where
  "LimitEstimateByPriority priority =
    (if priority < DefaultSmallerPriority then GfSp (limit_zero\<lparr>l_Tasks := 1, l_TasksLowPriority := 1\<rparr>)
     else if priority > DefaultLargerTaskPriority then GfSp (limit_zero\<lparr>l_Tasks := 1, l_TasksHighPriority := 1\<rparr>)
     else GfSp (limit_zero\<lparr>l_Tasks := 1, l_TasksMediumPriority := 1\<rparr>))"

text \<open>\<open>int64(x)\<close> of a uint64.\<close>

definition u64_i64 :: "64 word \<Rightarrow> int" where
  "u64_i64 x = i64 (uint x)"

definition UploadObject_EstimateLimit :: "64 word \<Rightarrow> 64 word \<Rightarrow> 8 word \<Rightarrow> Limit" where
  "UploadObject_EstimateLimit payloadSize maxSegmentSize priority =
    (let mem = (if payloadSize \<ge> maxSegmentSize then i64 (u64_i64 maxSegmentSize * 2)
                else i64 (u64_i64 payloadSize * 2))
     in limit_Add (GfSp (limit_zero\<lparr>l_Memory := mem\<rparr>)) (LimitEstimateByPriority priority))"

definition SealObject_EstimateLimit :: "8 word \<Rightarrow> Limit" where
  "SealObject_EstimateLimit priority = limit_Add (GfSp limit_zero) (LimitEstimateByPriority priority)"

definition ReceivePiece_EstimateLimit :: "int \<Rightarrow> 8 word \<Rightarrow> Limit" where
  "ReceivePiece_EstimateLimit pieceSize priority =
     limit_Add (GfSp (limit_zero\<lparr>l_Memory := pieceSize\<rparr>)) (LimitEstimateByPriority priority)"

definition DownloadObject_EstimateLimit :: "int \<Rightarrow> 8 word \<Rightarrow> Limit" where
  "DownloadObject_EstimateLimit sz priority =
     limit_Add (GfSp (limit_zero\<lparr>l_Memory := sz\<rparr>)) (LimitEstimateByPriority priority)"

definition RecoverPiece_EstimateLimit :: "64 word \<Rightarrow> 8 word \<Rightarrow> Limit" where
  "RecoverPiece_EstimateLimit payloadSize priority =
     limit_Add (GfSp (limit_zero\<lparr>l_Memory := i64 (2 * u64_i64 payloadSize)\<rparr>)) (LimitEstimateByPriority priority)"

text \<open>The memory a challenged piece is estimated at; \<open>None\<close> is the panic of a division by zero.\<close>

definition challengeMemSize :: "64 word \<Rightarrow> 64 word \<Rightarrow> 32 word \<Rightarrow> int \<Rightarrow> 32 word \<Rightarrow> int option" where
  "challengeMemSize payloadSize maxSegmentSize dataChunkNum redundancyIdx segmentIdx =
    (if maxSegmentSize = 0 then None
     else let q = payloadSize div maxSegmentSize;
              segmentCount = (if payloadSize mod maxSegmentSize \<noteq> 0 then q + 1 else q);
              lastIdx = (ucast (segmentCount - 1) :: 32 word)
       in if redundancyIdx < 0 then
            Some (if segmentCount = 1 then u64_i64 payloadSize
                  else if segmentIdx = lastIdx
                  then i64 (u64_i64 payloadSize - i64 (i64 (u64_i64 segmentCount - 1) * u64_i64 maxSegmentSize))
                  else u64_i64 maxSegmentSize)
          else if dataChunkNum = 0 then None
          else Some (if segmentCount = 1 then go_div (u64_i64 payloadSize) (uint dataChunkNum)
                  else if segmentIdx = lastIdx
                  then i64 (u64_i64 payloadSize
                    - go_div (i64 (i64 (u64_i64 segmentCount - 1) * u64_i64 maxSegmentSize)) (uint dataChunkNum))
                  else go_div (u64_i64 maxSegmentSize) (uint dataChunkNum)))"

definition ChallengePiece_EstimateLimit ::
  "64 word \<Rightarrow> 64 word \<Rightarrow> 32 word \<Rightarrow> int \<Rightarrow> 32 word \<Rightarrow> 8 word \<Rightarrow> Limit option" where
  "ChallengePiece_EstimateLimit payloadSize maxSegmentSize dataChunkNum redundancyIdx segmentIdx priority =
    map_option (\<lambda>mem. limit_Add (GfSp (limit_zero\<lparr>l_Memory := mem\<rparr>)) (LimitEstimateByPriority priority))
      (challengeMemSize payloadSize maxSegmentSize dataChunkNum redundancyIdx segmentIdx)"

section \<open>Defaults per task type\<close>

record GfSpBaseApp =
  uploadSpeed :: int
  downloadSpeed :: int
  replicateSpeed :: int
  sealObjectTimeout :: int
  gcObjectTimeout :: int
  gcZombieTimeout :: int
  gcMetaTimeout :: int
  gcBucketMigrationTimeout :: int
  gcStaleVersionObjectTimeout :: int
  migrateGVGTimeout :: int
  sealObjectRetry :: int
  replicateRetry :: int
  receiveConfirmRetry :: int
  gcObjectRetry :: int
  gcZombieRetry :: int
  gcMetaRetry :: int
  gcBucketMigrationRetry :: int
  recoveryRetry :: int
  migrateGVGRetry :: int

definition MinSpeed :: "64 word" where
  "MinSpeed = 10 * (1024 * 1024)"

text \<open>\<open>util.Uint64ToInt64\<close> prints and parses; beyond int64 the parse fails and the result is 0.\<close>

definition Uint64ToInt64 :: "64 word \<Rightarrow> int" where
  "Uint64ToInt64 n = (if uint n \<le> MaxInt64 then uint n else 0)"

text \<open>\<open>if x < lo return lo; if x > hi return hi; return x\<close> on int64, and on a uint64 transfer time.\<close>

definition clampI :: "int \<Rightarrow> int \<Rightarrow> int \<Rightarrow> int" where
  "clampI lo hi x = (if x < lo then lo else if x > hi then hi else x)"

definition clampU :: "int \<Rightarrow> int \<Rightarrow> 64 word \<Rightarrow> int" where
  "clampU lo hi timeout =
    (if timeout < word_of_int lo then lo else if timeout > word_of_int hi then hi else Uint64ToInt64 timeout)"

text \<open>\<open>size / d / MinSpeed\<close>; a zero divisor panics.\<close>

definition transferTime :: "64 word \<Rightarrow> 64 word \<Rightarrow> 64 word option" where
  "transferTime sz d = (if d = 0 then None else Some (sz div d div MinSpeed))"

fun TaskTimeout :: "GfSpBaseApp \<Rightarrow> TType \<Rightarrow> 64 word \<Rightarrow> int option" where
  "TaskTimeout g TypeTaskUpload sz =
     map_option (clampU 2 300) (transferTime sz (word_of_int (i64 (uploadSpeed g + 1))))"
| "TaskTimeout g TypeTaskReplicatePiece sz =
     map_option (clampU 90 500) (transferTime sz (word_of_int (replicateSpeed g) + 1))"
| "TaskTimeout g TypeTaskReceivePiece sz =
     map_option (clampU 90 300) (transferTime sz (word_of_int (replicateSpeed g) + 1))"
| "TaskTimeout g TypeTaskSealObject sz = Some (clampI 90 300 (sealObjectTimeout g))"
| "TaskTimeout g TypeTaskDownloadObject sz =
     map_option (clampU 2 300) (transferTime sz (word_of_int (downloadSpeed g) + 1))"
| "TaskTimeout g TypeTaskChallengePiece sz =
     map_option (clampU 2 300) (transferTime sz (word_of_int (downloadSpeed g) + 1))"
| "TaskTimeout g TypeTaskGCObject sz = Some (clampI 300 600 (gcObjectTimeout g))"
| "TaskTimeout g TypeTaskGCZombiePiece sz = Some (clampI 300 600 (gcZombieTimeout g))"
| "TaskTimeout g TypeTaskGCMeta sz = Some (clampI 300 600 (gcMetaTimeout g))"
| "TaskTimeout g TypeTaskRecoverPiece sz =
     map_option (\<lambda>q. clampU 10 50 (q + 1)) (transferTime sz (word_of_int (replicateSpeed g) + 1))"
| "TaskTimeout g TypeTaskMigrateGVG sz = Some (clampI 1800 3600 (migrateGVGTimeout g))"
| "TaskTimeout g TypeTaskGCBucketMigration sz = Some (clampI 1800 3600 (gcBucketMigrationTimeout g))"
| "TaskTimeout g TypeTaskGCStaleVersionObject sz = Some (clampI 300 600 (gcStaleVersionObjectTimeout g))"
| "TaskTimeout g _ sz = Some 0"

fun TaskMaxRetry :: "GfSpBaseApp \<Rightarrow> TType \<Rightarrow> int" where
  "TaskMaxRetry g TypeTaskReplicatePiece = clampI 3 6 (replicateRetry g)"
| "TaskMaxRetry g TypeTaskReceivePiece = clampI 1 3 (receiveConfirmRetry g)"
| "TaskMaxRetry g TypeTaskSealObject = clampI 3 10 (sealObjectRetry g)"
| "TaskMaxRetry g TypeTaskGCObject = clampI 3 5 (gcObjectRetry g)"
| "TaskMaxRetry g TypeTaskGCZombiePiece = clampI 3 5 (gcZombieRetry g)"
| "TaskMaxRetry g TypeTaskGCMeta = clampI 3 5 (gcMetaRetry g)"
| "TaskMaxRetry g TypeTaskRecoverPiece = clampI 2 3 (recoveryRetry g)"
| "TaskMaxRetry g TypeTaskMigrateGVG = clampI 2 3 (migrateGVGRetry g)"
| "TaskMaxRetry g TypeTaskGCBucketMigration = clampI 3 5 (gcBucketMigrationRetry g)"
| "TaskMaxRetry g _ = 0"

fun TaskPriority :: "TType \<Rightarrow> 8 word" where
  "TaskPriority TypeTaskCreateBucketApproval = UnSchedulingPriority"
| "TaskPriority TypeTaskMigrateBucketApproval = UnSchedulingPriority"
| "TaskPriority TypeTaskCreateObjectApproval = UnSchedulingPriority"
| "TaskPriority TypeTaskReplicatePieceApproval = UnSchedulingPriority"
| "TaskPriority TypeTaskUpload = UnSchedulingPriority"
| "TaskPriority TypeTaskReplicatePiece = MaxTaskPriority"
| "TaskPriority TypeTaskReceivePiece = DefaultSmallerPriority div 4"
| "TaskPriority TypeTaskSealObject = DefaultSmallerPriority"
| "TaskPriority TypeTaskDownloadObject = UnSchedulingPriority"
| "TaskPriority TypeTaskChallengePiece = UnSchedulingPriority"
| "TaskPriority TypeTaskGCObject = DefaultSmallerPriority div 4"
| "TaskPriority TypeTaskGCZombiePiece = DefaultSmallerPriority div 4"
| "TaskPriority TypeTaskGCMeta = DefaultSmallerPriority div 4"
| "TaskPriority TypeTaskGCBucketMigration = DefaultSmallerPriority div 4"
| "TaskPriority TypeTaskGCStaleVersionObject = DefaultSmallerPriority div 4"
| "TaskPriority TypeTaskRecoverPiece = DefaultSmallerPriority div 4"
| "TaskPriority TypeTaskMigrateGVG = DefaultSmallerPriority"
| "TaskPriority _ = UnKnownTaskPriority"


section \<open>Task keys\<close>

definition Delimiter :: string where
  "Delimiter = ''-''"

definition CombineKey :: "string list \<Rightarrow> string" where
  "CombineKey fs = foldl (\<lambda>key f. key @ Delimiter @ f) '''' fs"

text \<open>\<open>hex.EncodeToString\<close>.\<close>

definition hex_digit :: "nat \<Rightarrow> char" where
  "hex_digit n = char_of (if n < 10 then 48 + n else 87 + n)"

definition hex_encode :: "8 word list \<Rightarrow> string" where
  "hex_encode bs = concat (map (\<lambda>b. [hex_digit (unat b div 16), hex_digit (unat b mod 16)]) bs)"

definition GfSpCreateBucketApprovalTaskKey :: "string \<Rightarrow> string \<Rightarrow> 8 word list \<Rightarrow> string" where
  "GfSpCreateBucketApprovalTaskKey bucket account fingerprint = ''CreateBucketApproval'' @
     CombineKey [''bucket:'' @ bucket, ''account:'' @ account, ''fingerprint:'' @ hex_encode fingerprint]"

definition GfSpCreateObjectApprovalTaskKey :: "string \<Rightarrow> string \<Rightarrow> string \<Rightarrow> 8 word list \<Rightarrow> string" where
  "GfSpCreateObjectApprovalTaskKey bucket object account fingerprint = ''CreateObjectApproval'' @
     CombineKey [''bucket:'' @ bucket, ''object:'' @ object, ''account:'' @ account,
       ''fingerprint:'' @ hex_encode fingerprint]"

definition GfSpMigrateBucketApprovalTaskKey :: "string \<Rightarrow> string \<Rightarrow> string" where
  "GfSpMigrateBucketApprovalTaskKey bucket h = ''MigrateBucketApproval'' @
     CombineKey [''bucket:'' @ bucket, ''hash:'' @ h]"

definition GfSpReplicatePieceApprovalTaskKey :: "string \<Rightarrow> string \<Rightarrow> string \<Rightarrow> string" where
  "GfSpReplicatePieceApprovalTaskKey bucket object i = ''ReplicatePieceApproval'' @
     CombineKey [''bucket:'' @ bucket, ''object:'' @ object, ''id:'' @ i]"

definition GfSpDownloadObjectTaskKey :: "string \<Rightarrow> string \<Rightarrow> string \<Rightarrow> int \<Rightarrow> int \<Rightarrow> string" where
  "GfSpDownloadObjectTaskKey bucket object i low high = ''DownloadObject'' @
     CombineKey [''bucket:'' @ bucket, ''object:'' @ object, ''id:'' @ i,
       ''low:'' @ decimal_int low, ''high:'' @ decimal_int high]"

definition GfSpDownloadPieceTaskKey :: "string \<Rightarrow> string \<Rightarrow> string \<Rightarrow> 64 word \<Rightarrow> 64 word \<Rightarrow> string" where
  "GfSpDownloadPieceTaskKey bucket object pieceKey pieceOffset pieceLength = ''DownloadPiece'' @
     CombineKey [''bucket:'' @ bucket, ''object:'' @ object, ''piece:'' @ pieceKey,
       ''offset:'' @ decimal (unat pieceOffset), ''length:'' @ decimal (unat pieceLength)]"

definition GfSpChallengePieceTaskKey :: "string \<Rightarrow> string \<Rightarrow> string \<Rightarrow> 32 word \<Rightarrow> int \<Rightarrow> string \<Rightarrow> string" where
  "GfSpChallengePieceTaskKey bucket object i sIdx rIdx user = ''ChallengePiece'' @
     CombineKey [''bucket:'' @ bucket, ''object:'' @ object, ''id:'' @ i,
       ''sIdx:'' @ decimal (unat sIdx), ''rIdx:'' @ decimal_int rIdx, user]"

definition GfSpUploadObjectTaskKey :: "string \<Rightarrow> string \<Rightarrow> string \<Rightarrow> string" where
  "GfSpUploadObjectTaskKey bucket object i = ''Uploading'' @
     CombineKey [''bucket:'' @ bucket, ''object:'' @ object, ''id:'' @ i]"

definition GfSpResumableUploadObjectTaskKey :: "string \<Rightarrow> string \<Rightarrow> string \<Rightarrow> 64 word \<Rightarrow> string" where
  "GfSpResumableUploadObjectTaskKey bucket object i offset = ''ResumableUploading'' @
     CombineKey [bucket, object, i, decimal (unat offset)]"

definition GfSpReplicatePieceTaskKey :: "string \<Rightarrow> string \<Rightarrow> string \<Rightarrow> string" where
  "GfSpReplicatePieceTaskKey bucket object i = ''Uploading'' @
     CombineKey [''bucket:'' @ bucket, ''object:'' @ object, ''id:'' @ i]"

definition GfSpRecoverPieceTaskKey :: "string \<Rightarrow> string \<Rightarrow> string \<Rightarrow> 32 word \<Rightarrow> int \<Rightarrow> string" where
  "GfSpRecoverPieceTaskKey bucket object i pIdx replicateIdx =
    (if replicateIdx \<ge> 0 then ''Recovering'' @
       CombineKey [''bucket:'' @ bucket, ''object:'' @ object, ''id:'' @ i,
         ''segIdx:'' @ decimal (unat pIdx), ''ecIdx:'' @ decimal_int replicateIdx]
     else ''Recovering'' @
       CombineKey [''bucket:'' @ bucket, ''object:'' @ object, ''id:'' @ i, ''segIdx:'' @ decimal (unat pIdx)])"

definition GfSpSealObjectTaskKey :: "string \<Rightarrow> string \<Rightarrow> string \<Rightarrow> string" where
  "GfSpSealObjectTaskKey bucket object i = ''Uploading'' @
     CombineKey [''bucket:'' @ bucket, ''object:'' @ object, ''id:'' @ i]"

definition GfSpReceivePieceTaskKey :: "string \<Rightarrow> string \<Rightarrow> string \<Rightarrow> 32 word \<Rightarrow> int \<Rightarrow> string" where
  "GfSpReceivePieceTaskKey bucket object i rIdx pIdx = ''ReceivePiece'' @
     CombineKey [''bucket:'' @ bucket, ''object:'' @ object, ''id:'' @ i,
       ''segmentIdx:'' @ decimal (unat rIdx), ''redundancyIdx:'' @ decimal_int pIdx]"

definition GfSpGCObjectTaskKey :: "64 word \<Rightarrow> 64 word \<Rightarrow> int \<Rightarrow> string" where
  "GfSpGCObjectTaskKey start stop tm = ''GCObject'' @
     CombineKey [''start'' @ decimal (unat start), ''end'' @ decimal (unat stop), ''time'' @ decimal_int tm]"

definition GfSpGCZombiePieceTaskKey :: "64 word \<Rightarrow> 64 word \<Rightarrow> int \<Rightarrow> string" where
  "GfSpGCZombiePieceTaskKey start stop tm = ''GCZombiePiece'' @
     CombineKey [''start'' @ decimal (unat start), ''end'' @ decimal (unat stop), ''time'' @ decimal_int tm]"

definition GfSpGCStaleVersionObjectTaskKey :: "64 word \<Rightarrow> int \<Rightarrow> int \<Rightarrow> int \<Rightarrow> string" where
  "GfSpGCStaleVersionObjectTaskKey objectID redundancyIndex version tm = ''GCStaleVersionObject'' @
     CombineKey [''object_id'' @ decimal (unat objectID), ''version'' @ decimal_int version,
       ''redundancy_index'' @ decimal_int redundancyIndex, ''time'' @ decimal_int tm]"

definition GfSpGfSpGCMetaTaskKey :: "int \<Rightarrow> string" where
  "GfSpGfSpGCMetaTaskKey tm = ''GCMeta'' @ CombineKey [''time'' @ decimal_int tm]"

definition GfSpGCBucketMigrationTaskKey :: "64 word \<Rightarrow> string" where
  "GfSpGCBucketMigrationTaskKey bucketID = ''GCBucketMigration'' @ CombineKey [''bucketID'' @ decimal (unat bucketID)]"

definition GfSpMigrateGVGTaskKey :: "32 word \<Rightarrow> 64 word \<Rightarrow> int \<Rightarrow> string" where
  "GfSpMigrateGVGTaskKey oldGvgID bucketID redundancyIndex = ''MigrateGVG'' @
     CombineKey [''oldGvgID'' @ decimal (unat oldGvgID), ''bucketID'' @ decimal (unat bucketID),
       ''redundancyIndex'' @ decimal_int redundancyIndex]"

definition GfSpMigrateBucketTaskKey :: "64 word \<Rightarrow> string" where
  "GfSpMigrateBucketTaskKey bucketID = ''MigrateBucket'' @ CombineKey [''bucketID'' @ decimal (unat bucketID)]"

definition GfSpMigratePieceTaskKey :: "string \<Rightarrow> string \<Rightarrow> 32 word \<Rightarrow> int \<Rightarrow> string" where
  "GfSpMigratePieceTaskKey object i redundancyIdx ecIdx = ''MigratePiece'' @
     CombineKey [''object:'' @ object, ''id:'', i, ''segIdx:'', decimal (unat redundancyIdx),
       ''redundancyIndex:'', decimal_int ecIdx]"

section \<open>Lemmas\<close>

text \<open>Splitting at the last occurrence of a separator.\<close>

lemma append_sep_last:
  assumes "xs @ c # ns = ys @ c # ms" "c \<notin> set ns" "c \<notin> set ms"
  shows "xs = ys \<and> ns = ms"
  using assms
proof (induction xs arbitrary: ys)
  case Nil
  then show ?case by (cases ys) auto
next
  case (Cons x xs)
  show ?case
  proof (cases ys)
    case Nil
    then show ?thesis using Cons.prems by auto
  next
    case (Cons y ys')
    then show ?thesis using Cons.prems Cons.IH [of ys'] by auto
  qed
qed

text \<open>Splitting at the first occurrence.\<close>

lemma append_sep_first:
  assumes "xs @ c # ns = ys @ c # ms" "c \<notin> set xs" "c \<notin> set ys"
  shows "xs = ys \<and> ns = ms"
  using append_sep_last [of "rev ns" c "rev xs" "rev ms" "rev ys"] assms
  by (metis append.assoc append_Cons append_Nil rev.simps(2) rev_append rev_rev_ident set_rev)

lemma clampI_bounds: "lo \<le> hi \<Longrightarrow> lo \<le> clampI lo hi x \<and> clampI lo hi x \<le> hi"
  by (auto simp: clampI_def)

lemma clampU_bounds:
  assumes "0 \<le> lo" "lo \<le> hi" "hi < 2 ^ 63"
  shows "lo \<le> clampU lo hi x \<and> clampU lo hi x \<le> hi"
proof -
  have u: "uint (word_of_int lo :: 64 word) = lo" "uint (word_of_int hi :: 64 word) = hi"
    using assms by (simp_all add: uint_word_of_int_eq take_bit_int_eq_self)
  show ?thesis
    using assms u by (auto simp: clampU_def word_less_def not_less Uint64ToInt64_def MaxInt64_def)
qed

section \<open>Properties of tasks\<close>

text \<open>The documented range of the timeout of each task type.\<close>

fun timeout_range :: "TType \<Rightarrow> int \<times> int" where
  "timeout_range TypeTaskUpload = (2, 300)"
| "timeout_range TypeTaskReplicatePiece = (90, 500)"
| "timeout_range TypeTaskReceivePiece = (90, 300)"
| "timeout_range TypeTaskSealObject = (90, 300)"
| "timeout_range TypeTaskDownloadObject = (2, 300)"
| "timeout_range TypeTaskChallengePiece = (2, 300)"
| "timeout_range TypeTaskGCObject = (300, 600)"
| "timeout_range TypeTaskGCZombiePiece = (300, 600)"
| "timeout_range TypeTaskGCMeta = (300, 600)"
| "timeout_range TypeTaskRecoverPiece = (10, 50)"
| "timeout_range TypeTaskMigrateGVG = (1800, 3600)"
| "timeout_range TypeTaskGCBucketMigration = (1800, 3600)"
| "timeout_range TypeTaskGCStaleVersionObject = (300, 600)"
| "timeout_range _ = (0, 0)"

definition speeds_ok :: "GfSpBaseApp \<Rightarrow> bool" where
  "speeds_ok g \<longleftrightarrow> 0 \<le> uploadSpeed g \<and> uploadSpeed g < MaxInt64 \<and> 0 \<le> downloadSpeed g \<and> downloadSpeed g < MaxInt64
     \<and> 0 \<le> replicateSpeed g \<and> replicateSpeed g < MaxInt64"

lemma speed_divisor_nonzero:
  assumes "0 \<le> v" "v < MaxInt64"
  shows "(word_of_int v :: 64 word) + 1 \<noteq> 0" "(word_of_int (i64 (v + 1)) :: 64 word) \<noteq> 0"
proof -
  have "uint (word_of_int (v + 1) :: 64 word) = v + 1"
    unfolding uint_word_of_int_eq by (rule take_bit_int_eq_self) (use assms in \<open>simp_all add: MaxInt64_def\<close>)
  then have "(word_of_int (v + 1) :: 64 word) \<noteq> 0" using assms by (metis add_nonneg_pos less_irrefl uint_0_eq zero_less_one)
  moreover have "i64 (v + 1) = v + 1" using assms by (intro i64_id) (simp add: in_i64_def MaxInt64_def)
  ultimately show "(word_of_int v :: 64 word) + 1 \<noteq> 0" "(word_of_int (i64 (v + 1)) :: 64 word) \<noteq> 0"
    by simp_all
qed

text \<open>C39: With non-negative configured speeds, \<open>TaskTimeout\<close> never panics and, for every object size
  (the full uint64 range), returns a timeout inside the range documented for the task type.\<close>

theorem task_timeout_in_range:
  assumes "speeds_ok g"
  shows "\<exists>r. TaskTimeout g ty sz = Some r \<and> fst (timeout_range ty) \<le> r \<and> r \<le> snd (timeout_range ty)"
proof -
  have nz: "(word_of_int (i64 (uploadSpeed g + 1)) :: 64 word) \<noteq> 0"
    "(word_of_int (replicateSpeed g) :: 64 word) + 1 \<noteq> 0" "(word_of_int (downloadSpeed g) :: 64 word) + 1 \<noteq> 0"
    using assms speed_divisor_nonzero by (auto simp: speeds_ok_def)
  show ?thesis
    using nz clampU_bounds clampI_bounds by (cases ty) (auto simp: transferTime_def)
qed

definition ex_app :: GfSpBaseApp where
  "ex_app = \<lparr>uploadSpeed = 1, downloadSpeed = 1, replicateSpeed = 1, sealObjectTimeout = 0, gcObjectTimeout = 0,
     gcZombieTimeout = 0, gcMetaTimeout = 0, gcBucketMigrationTimeout = 0, gcStaleVersionObjectTimeout = 0,
     migrateGVGTimeout = 0, sealObjectRetry = 0, replicateRetry = 0, receiveConfirmRetry = 0, gcObjectRetry = 0,
     gcZombieRetry = 0, gcMetaRetry = 0, gcBucketMigrationRetry = 0, recoveryRetry = 0, migrateGVGRetry = 0\<rparr>"

theorem task_timeout_in_range_witness:
  "\<exists>r. TaskTimeout ex_app TypeTaskUpload (2 ^ 63) = Some r \<and> 2 \<le> r \<and> r \<le> 300"
  using task_timeout_in_range [of ex_app TypeTaskUpload "2 ^ 63"]
  by (simp add: speeds_ok_def ex_app_def MaxInt64_def)



text \<open>The key that identifies an object's upload, replicate and seal tasks determines the bucket,
  the object and the object id, for bucket names without a colon and decimal ids: tasks of different
  objects never share a queue slot.\<close>

theorem upload_key_injective:
  assumes "GfSpUploadObjectTaskKey b ob (decimal i) = GfSpUploadObjectTaskKey b' ob' (decimal i')"
    and "CHR '':'' \<notin> set b" "CHR '':'' \<notin> set b'"
  shows "b = b' \<and> ob = ob' \<and> decimal i = decimal i'"
proof -
  have dig: "CHR '':'' \<notin> set (decimal n)" for n using decimal_digits [of n] by auto
  have key: "GfSpUploadObjectTaskKey x y z = ''Uploading-bucket'' @ CHR '':'' # x @ ''-object'' @ CHR '':'' # y @ ''-id'' @ CHR '':'' # z"
    for x y z by (simp add: GfSpUploadObjectTaskKey_def CombineKey_def Delimiter_def)
  have rest: "(b @ ''-object'') @ CHR '':'' # ob @ ''-id'' @ CHR '':'' # decimal i =
      (b' @ ''-object'') @ CHR '':'' # ob' @ ''-id'' @ CHR '':'' # decimal i'"
    using assms(1) unfolding key by simp
  then have "b @ ''-object'' = b' @ ''-object''" "ob @ ''-id'' @ CHR '':'' # decimal i = ob' @ ''-id'' @ CHR '':'' # decimal i'"
    using append_sep_first [OF rest] assms(2,3) by auto
  then have "b = b'" "(ob @ ''-id'') @ CHR '':'' # decimal i = (ob' @ ''-id'') @ CHR '':'' # decimal i'" by simp_all
  then show ?thesis using append_sep_last [OF _ dig dig, of "ob @ ''-id''" i "ob' @ ''-id''" i'] by simp
qed

theorem upload_key_injective_witness:
  "GfSpUploadObjectTaskKey ''b-1'' ''x-id:2'' (decimal 34) \<noteq> GfSpUploadObjectTaskKey ''b-1'' ''x'' (decimal 2)"
  using upload_key_injective [of "''b-1''" "''x-id:2''" 34 "''b-1''" "''x''" 2] by auto

text \<open>A task whose retry counter starts at zero has exceeded its retries after exactly its
  maximum number of retries, and not before.\<close>

theorem retries_exceeded_after_max:
  assumes "t_Retry m = 0" "0 \<le> t_MaxRetry m" "t_MaxRetry m < 2 ^ 62" "int n < 2 ^ 62"
  shows "ExceedRetry ((IncRetry ^^ n) m) \<longleftrightarrow> t_MaxRetry m \<le> int n"
proof -
  have "t_Retry ((IncRetry ^^ k) m) = int k \<and> t_MaxRetry ((IncRetry ^^ k) m) = t_MaxRetry m" if "int k < 2 ^ 62" for k
    using that
  proof (induction k)
    case (Suc k)
    then have "i64 (int k + 1) = int k + 1" by (intro i64_id) (simp add: in_i64_def)
    then show ?case using Suc by (simp add: IncRetry_def)
  qed (use assms in simp)
  then show ?thesis using assms by (simp add: ExceedRetry_def)
qed

theorem retries_exceeded_after_max_witness:
  "let m = \<lparr>t_Address = [], t_CreateTime = 0, t_UpdateTime = 0, t_Timeout = 0, t_TaskPriority = 0,
     t_Retry = 0, t_MaxRetry = 3, t_Err = None\<rparr> in ExceedRetry ((IncRetry ^^ 3) m) \<and> \<not> ExceedRetry ((IncRetry ^^ 2) m)"
  using retries_exceeded_after_max [of "\<lparr>t_Address = [], t_CreateTime = 0, t_UpdateTime = 0, t_Timeout = 0,
     t_TaskPriority = 0, t_Retry = 0, t_MaxRetry = 3, t_Err = None\<rparr>"] by (simp add: Let_def)

text \<open>The memory estimate for challenging the last erasure-coded piece of an object divides only
  the size of the preceding segments by the number of data chunks: for a 33-byte object in 16-byte
  segments with 4 data chunks, whose last segment holds one byte, it is 25 bytes, more than a whole
  segment, while every other piece is estimated at 4 bytes.\<close>

theorem challenge_last_piece_overestimated:
  "challengeMemSize 33 16 4 0 2 = Some 25 \<and> challengeMemSize 33 16 4 0 1 = Some 4
     \<and> challengeMemSize 33 16 4 (-1) 2 = Some 1"
  by code_simp

end
