(* ===== verification/Piece_Op.thy ===== *)
theory Piece_Op
  imports SP_Prelude
begin

text \<open>
  Piece addressing, \<open>base/gfsppieceop/piece_op.go\<close>: the keys under which the segments and the
  erasure-coded pieces of an object lie in the piece store, the parsers that read the indices
  back from a key, and the sizes of the pieces. Of the Go library the code uses
  \<open>strings.Split\<close>, \<open>strconv.ParseUint\<close> and \<open>strconv.ParseInt\<close>; their loops are modelled here.
  An index or slice expression that panics is the error \<open>PanicIndex\<close>.
\<close>

section \<open>What the code uses of the Go library\<close>

datatype piece_error = ErrKeyFormat | ErrSyntax | ErrRange | PanicIndex | PanicDivide

text \<open>\<open>strings.Split\<close> at a separator of one character.\<close>

fun goSplit :: "char \<Rightarrow> string \<Rightarrow> string list" where
  "goSplit sep [] = [[]]"
| "goSplit sep (c # cs) =
     (if c = sep then [] # goSplit sep cs
      else (case goSplit sep cs of [] \<Rightarrow> [[c]] | p # ps \<Rightarrow> (c # p) # ps))"

text \<open>The loop of \<open>strconv.ParseUint(s, 10, 32)\<close>: the first bad digit or the first prefix above the
  maximum decides the error.\<close>

definition isDigit :: "char \<Rightarrow> bool" where
  "isDigit c \<longleftrightarrow> 48 \<le> (of_char c :: nat) \<and> (of_char c :: nat) \<le> 57"

definition digitVal :: "char \<Rightarrow> nat" where
  "digitVal c = of_char c - 48"

fun parseUintLoop :: "nat \<Rightarrow> nat \<Rightarrow> string \<Rightarrow> piece_error + nat" where
  "parseUintLoop mx n [] = Inr n"
| "parseUintLoop mx n (c # cs) =
     (if \<not> isDigit c then Inl ErrSyntax
      else let n1 = n * 10 + digitVal c in
        if n1 > mx then Inl ErrRange else parseUintLoop mx n1 cs)"

definition ParseUint32 :: "string \<Rightarrow> piece_error + nat" where
  "ParseUint32 s = (if s = [] then Inl ErrSyntax else parseUintLoop (2 ^ 32 - 1) 0 s)"

text \<open>\<open>strconv.ParseInt(s, 10, 32)\<close>: an optional sign, then \<open>ParseUint\<close> and the range check
  against \<open>2 ^ 31\<close>.\<close>

definition ParseInt32 :: "string \<Rightarrow> piece_error + int" where
  "ParseInt32 s = (case s of [] \<Rightarrow> Inl ErrSyntax
     | c # cs \<Rightarrow>
       let neg = (c = CHR ''-'');
           rest = (if c = CHR ''+'' \<or> c = CHR ''-'' then cs else s) in
       (case ParseUint32 rest of Inl e \<Rightarrow> Inl e
        | Inr un \<Rightarrow> if \<not> neg \<and> un \<ge> 2 ^ 31 then Inl ErrRange
                    else if neg \<and> un > 2 ^ 31 then Inl ErrRange
                    else Inr (if neg then - int un else int un)))"

section \<open>The keys\<close>

definition SegmentPieceKey :: "64 word \<Rightarrow> 32 word \<Rightarrow> int \<Rightarrow> string" where
  "SegmentPieceKey objectID segmentIdx version =
     (if version = 0
      then ''s'' @ decimal (unat objectID) @ ''_s'' @ decimal (unat segmentIdx)
      else ''s'' @ decimal (unat objectID) @ ''_s'' @ decimal (unat segmentIdx)
           @ ''_v'' @ decimal_int version)"

definition ECPieceKey :: "64 word \<Rightarrow> 32 word \<Rightarrow> 32 word \<Rightarrow> int \<Rightarrow> string" where
  "ECPieceKey objectID segmentIdx redundancyIdx version =
     (if version = 0
      then ''e'' @ decimal (unat objectID) @ ''_s'' @ decimal (unat segmentIdx)
           @ ''_p'' @ decimal (unat redundancyIdx)
      else ''e'' @ decimal (unat objectID) @ ''_s'' @ decimal (unat segmentIdx)
           @ ''_p'' @ decimal (unat redundancyIdx) @ ''_v'' @ decimal_int version)"

text \<open>The redundancy index of a challenge is an int32, read by \<open>sint\<close>; its conversion to uint32
  keeps the bits.\<close>

definition ChallengePieceKey :: "64 word \<Rightarrow> 32 word \<Rightarrow> 32 word \<Rightarrow> int \<Rightarrow> string" where
  "ChallengePieceKey objectID segmentIdx redundancyIdx version =
     (if sint redundancyIdx < 0 then SegmentPieceKey objectID segmentIdx version
      else ECPieceKey objectID segmentIdx redundancyIdx version)"

definition ParseSegmentIdx :: "string \<Rightarrow> piece_error + 32 word" where
  "ParseSegmentIdx segmentKey =
     (let keyParts = goSplit (CHR ''_'') segmentKey in
      if length keyParts \<noteq> 2 \<and> length keyParts \<noteq> 3 then Inl ErrKeyFormat
      else if keyParts ! 1 = [] then Inl PanicIndex
      else case ParseUint32 (drop 1 (keyParts ! 1)) of Inl e \<Rightarrow> Inl e
           | Inr segmentIdx \<Rightarrow> Inr (of_nat segmentIdx))"

definition ParseECPieceKeyIdx :: "string \<Rightarrow> piece_error + 32 word \<times> 32 word" where
  "ParseECPieceKeyIdx ecPieceKey =
     (let keyParts = goSplit (CHR ''_'') ecPieceKey in
      if length keyParts \<noteq> 3 \<and> length keyParts \<noteq> 4 then Inl ErrKeyFormat
      else if keyParts ! 1 = [] then Inl PanicIndex
      else case ParseUint32 (drop 1 (keyParts ! 1)) of Inl e \<Rightarrow> Inl e
           | Inr segmentIdx \<Rightarrow>
             if keyParts ! 2 = [] then Inl PanicIndex
             else case ParseInt32 (drop 1 (keyParts ! 2)) of Inl e \<Rightarrow> Inl e
                  | Inr redundancyIndex \<Rightarrow> Inr (of_nat segmentIdx, of_int redundancyIndex))"

definition ParseChallengeIdx :: "string \<Rightarrow> piece_error + 32 word \<times> 32 word" where
  "ParseChallengeIdx challengeKey =
     (let keyParts = goSplit (CHR ''_'') challengeKey in
      case hd keyParts of [] \<Rightarrow> Inl PanicIndex
      | c # _ \<Rightarrow>
        if c = CHR ''e'' then ParseECPieceKeyIdx challengeKey
        else if c = CHR ''s'' then
          (case ParseSegmentIdx challengeKey of Inl e \<Rightarrow> Inl e
           | Inr segmentIdx \<Rightarrow> Inr (segmentIdx, - 1))
        else Inl ErrKeyFormat)"

section \<open>The sizes\<close>

text \<open>Sizes are int64 values, \<open>int64(x)\<close> of a uint64 is \<open>sint\<close>.\<close>

definition MaxSegmentPieceSize :: "64 word \<Rightarrow> 64 word \<Rightarrow> int" where
  "MaxSegmentPieceSize payloadSize maxSegmentSize =
     (if payloadSize > maxSegmentSize then sint maxSegmentSize else sint payloadSize)"

definition SegmentPieceCount :: "64 word \<Rightarrow> 64 word \<Rightarrow> 32 word" where
  "SegmentPieceCount payloadSize maxSegmentSize =
     (if maxSegmentSize = 0 then 1
      else let count = payloadSize div maxSegmentSize;
               count = (if payloadSize mod maxSegmentSize > 0 then count + 1 else count) in
        ucast count)"

definition SegmentPieceSize :: "64 word \<Rightarrow> 32 word \<Rightarrow> 64 word \<Rightarrow> int" where
  "SegmentPieceSize payloadSize segmentIdx maxSegmentSize =
     (let segmentCount = SegmentPieceCount payloadSize maxSegmentSize in
      if segmentCount = 1 then sint payloadSize
      else if segmentIdx = segmentCount - 1
      then i64 (sint payloadSize - i64 ((uint segmentCount - 1) * sint maxSegmentSize))
      else sint maxSegmentSize)"

definition ECPieceSize :: "64 word \<Rightarrow> 32 word \<Rightarrow> 64 word \<Rightarrow> 32 word \<Rightarrow> piece_error + int" where
  "ECPieceSize payloadSize segmentIdx maxSegmentSize dataChunkNum =
     (let segmentSize = SegmentPieceSize payloadSize segmentIdx maxSegmentSize in
      if dataChunkNum = 0 then Inl PanicDivide
      else let pieceSize = go_div segmentSize (uint dataChunkNum) in
        if segmentSize > 0 \<and> segmentSize mod uint dataChunkNum \<noteq> 0
        then Inr (i64 (pieceSize + 1)) else Inr pieceSize)"

section \<open>Splitting and parsing what was printed\<close>

lemma goSplit_single: "sep \<notin> set p \<Longrightarrow> goSplit sep p = [p]"
  by (induction p) auto

lemma goSplit_append: "sep \<notin> set p \<Longrightarrow> goSplit sep (p @ sep # rest) = p # goSplit sep rest"
  by (induction p) auto

lemma isDigit_char_of: "d < (10 :: nat) \<Longrightarrow> isDigit (char_of (48 + d))"
  by (simp add: isDigit_def)

lemma digitVal_char_of: "d < (10 :: nat) \<Longrightarrow> digitVal (char_of (48 + d)) = d"
  by (simp add: digitVal_def)

lemma decimal_isDigit: "c \<in> set (decimal n) \<Longrightarrow> isDigit c"
  using decimal_digits [of n] by (auto simp: isDigit_def)

lemma decimal_value: "foldl (\<lambda>a c. a * 10 + digitVal c) 0 (decimal n) = n"
proof (induction n rule: decimal.induct)
  case (1 n)
  then show ?case by (cases "n < 10") (auto simp: decimal.simps [of n] digitVal_char_of)
qed

lemma decimal_not_Nil [simp]: "decimal n \<noteq> []"
  by (simp add: decimal.simps [of n])

lemma decimal_inject [simp]: "decimal n = decimal m \<longleftrightarrow> n = m"
  by (metis decimal_value)

lemma decimal_no_sep [simp]: "CHR ''_'' \<notin> set (decimal n)" "CHR ''-'' \<notin> set (decimal n)"
    "CHR ''+'' \<notin> set (decimal n)"
  using decimal_isDigit [of "CHR ''_''" n] decimal_isDigit [of "CHR ''-''" n]
    decimal_isDigit [of "CHR ''+''" n] by (auto simp: isDigit_def)

lemma decimal_int_no_sep [simp]: "CHR ''_'' \<notin> set (decimal_int i)"
  by (simp add: decimal_int_def)

lemma decimal_int_inject [simp]: "decimal_int i = decimal_int j \<longleftrightarrow> i = j"
proof -
  have "decimal n \<noteq> CHR ''-'' # xs" for n xs by (metis decimal_no_sep(2) list.set_intros(1))
  then show ?thesis by (auto simp: decimal_int_def dest: sym)
qed

lemma foldl_grows: "n \<le> foldl (\<lambda>a c. a * 10 + digitVal c) n s"
proof (induction s arbitrary: n)
  case (Cons c s)
  have "n \<le> n * 10 + digitVal c" by simp
  also have "\<dots> \<le> foldl (\<lambda>a c. a * 10 + digitVal c) (n * 10 + digitVal c) s" by (rule Cons)
  finally show ?case by simp
qed simp

lemma parseUintLoop_digits:
  "\<lbrakk>\<And>c. c \<in> set s \<Longrightarrow> isDigit c; foldl (\<lambda>a c. a * 10 + digitVal c) n s \<le> mx\<rbrakk> \<Longrightarrow>
   parseUintLoop mx n s = Inr (foldl (\<lambda>a c. a * 10 + digitVal c) n s)"
proof (induction s arbitrary: n)
  case (Cons c s)
  then have "n * 10 + digitVal c \<le> mx" using foldl_grows [of "n * 10 + digitVal c" s] by simp
  then show ?case using Cons by (simp add: Let_def)
qed simp

lemma ParseUint32_decimal [simp]: "n < 2 ^ 32 \<Longrightarrow> ParseUint32 (decimal n) = Inr n"
  using parseUintLoop_digits [of "decimal n" 0 "2 ^ 32 - 1"] decimal_isDigit
  by (simp add: ParseUint32_def decimal_value)

lemma ParseInt32_decimal [simp]: "n < 2 ^ 31 \<Longrightarrow> ParseInt32 (decimal n) = Inr (int n)"
proof -
  assume n: "n < 2 ^ 31"
  obtain c cs where d: "decimal n = c # cs" by (cases "decimal n") auto
  with decimal_no_sep [of n] have "c \<noteq> CHR ''-''" "c \<noteq> CHR ''+''" by auto
  then show ?thesis using n ParseUint32_decimal [of n] d by (simp add: ParseInt32_def)
qed

text \<open>The parts of a key.\<close>

lemma SegmentPieceKey_parts: "goSplit (CHR ''_'') (SegmentPieceKey oid s v) =
    [''s'' @ decimal (unat oid), ''s'' @ decimal (unat s)]
    @ (if v = 0 then [] else [''v'' @ decimal_int v])"
  using goSplit_append [of "CHR ''_''" "''s'' @ decimal (unat oid)"]
    goSplit_append [of "CHR ''_''" "''s'' @ decimal (unat s)"]
    goSplit_single [of "CHR ''_''" "''s'' @ decimal (unat s)"]
    goSplit_single [of "CHR ''_''" "''v'' @ decimal_int v"]
  by (simp add: SegmentPieceKey_def)

lemma ECPieceKey_parts: "goSplit (CHR ''_'') (ECPieceKey oid s r v) =
    [''e'' @ decimal (unat oid), ''s'' @ decimal (unat s), ''p'' @ decimal (unat r)]
    @ (if v = 0 then [] else [''v'' @ decimal_int v])"
  using goSplit_append [of "CHR ''_''" "''e'' @ decimal (unat oid)"]
    goSplit_append [of "CHR ''_''" "''s'' @ decimal (unat s)"]
    goSplit_append [of "CHR ''_''" "''p'' @ decimal (unat r)"]
    goSplit_single [of "CHR ''_''" "''p'' @ decimal (unat r)"]
    goSplit_single [of "CHR ''_''" "''v'' @ decimal_int v"]
  by (simp add: ECPieceKey_def)

lemma unat32_less: "unat (x :: 32 word) < 2 ^ 32"
  using unsigned_less [of x] by simp

lemma uint_pos: "w \<noteq> 0 \<Longrightarrow> 0 < uint w"
  by (simp add: order_less_le uint_0_iff)

lemma sint_nonneg: "0 \<le> sint (r :: 'a :: len word) \<Longrightarrow> uint r = sint r"
  using order.strict_trans2 [OF sint_lt [of r] power_increasing [of "LENGTH('a) - 1" "LENGTH('a)"]]
  by (simp add: uint_sint take_bit_int_eq_self_iff)

lemma sint_small: "uint (r :: 'a :: len word) < 2 ^ (LENGTH('a) - 1) \<Longrightarrow> sint r = uint r"
  using order_trans [OF _ uint_ge_0 [of r], of "- (2 ^ (LENGTH('a) - 1))"]
  by (simp add: sint_uint signed_take_bit_int_eq_self_iff)

section \<open>Properties of the keys\<close>

text \<open>C22: Every key \<open>ChallengePieceKey\<close> builds is read back by \<open>ParseChallengeIdx\<close>: the segment
  index exactly, the redundancy index exactly when it names an erasure-coded piece and as \<open>-1\<close>
  when the key is that of a whole segment, for every object, version and index.\<close>

theorem challenge_key_roundtrip:
  "ParseChallengeIdx (ChallengePieceKey objectID segmentIdx redundancyIdx version) =
   Inr (segmentIdx, if sint redundancyIdx < 0 then - 1 else redundancyIdx)"
proof (cases "sint redundancyIdx < 0")
  case True
  then show ?thesis using unat32_less [of segmentIdx]
    by (simp add: ChallengePieceKey_def ParseChallengeIdx_def ParseSegmentIdx_def SegmentPieceKey_parts)
next
  case False
  then have "unat redundancyIdx < 2 ^ 31"
    using sint_nonneg [of redundancyIdx] sint_lt [of redundancyIdx] by (simp add: unat_eq_nat_uint)
  then show ?thesis using False unat32_less [of segmentIdx]
    by (simp add: ChallengePieceKey_def ParseChallengeIdx_def ParseECPieceKeyIdx_def ECPieceKey_parts)
qed

lemma SegmentPieceKey_inject: "SegmentPieceKey oid s v = SegmentPieceKey oid' s' v' \<longleftrightarrow>
    oid = oid' \<and> s = s' \<and> v = v'"
  using SegmentPieceKey_parts [of oid s v] SegmentPieceKey_parts [of oid' s' v']
  by (auto intro!: word_unat_eq_iff [THEN iffD2] split: if_splits)

lemma ECPieceKey_inject: "ECPieceKey oid s r v = ECPieceKey oid' s' r' v' \<longleftrightarrow>
    oid = oid' \<and> s = s' \<and> r = r' \<and> v = v'"
  using ECPieceKey_parts [of oid s r v] ECPieceKey_parts [of oid' s' r' v']
  by (auto intro!: word_unat_eq_iff [THEN iffD2] split: if_splits)

lemma SegmentPieceKey_neq_ECPieceKey: "SegmentPieceKey oid s v \<noteq> ECPieceKey oid' s' r v'"
  by (simp add: SegmentPieceKey_def ECPieceKey_def)

text \<open>C23: Two pieces have the same key in the piece store only when they are the same piece: same
  object, segment and version, and the same redundancy index or both a whole segment (a negative
  index). So no write of a piece can replace another piece of any object or version.\<close>

theorem piece_keys_collision_free:
  "ChallengePieceKey objectID segmentIdx redundancyIdx version =
     ChallengePieceKey objectID' segmentIdx' redundancyIdx' version' \<longleftrightarrow>
   objectID = objectID' \<and> segmentIdx = segmentIdx' \<and> version = version' \<and>
   (redundancyIdx = redundancyIdx' \<or> (sint redundancyIdx < 0 \<and> sint redundancyIdx' < 0))"
  by (auto simp: ChallengePieceKey_def SegmentPieceKey_inject ECPieceKey_inject
      SegmentPieceKey_neq_ECPieceKey SegmentPieceKey_neq_ECPieceKey [symmetric])

section \<open>Properties of the sizes\<close>

text \<open>The count is the quotient rounded up, as long as it fits 32 bits.\<close>

lemma SegmentPieceCount_bounds:
  assumes m: "m \<noteq> 0" and le: "uint p \<le> (2 ^ 32 - 1) * uint m"
  defines "c \<equiv> uint (SegmentPieceCount p m)"
  shows "(c - 1) * uint m < uint p" "uint p \<le> c * uint m"
proof -
  define q r where "q = uint p div uint m" and "r = uint p mod uint m"
  have m0: "0 < uint m" using m by (rule uint_pos)
  have p: "uint p = q * uint m + r" by (simp add: q_def r_def)
  have r: "0 \<le> r" "r < uint m" using m0 by (simp_all add: r_def)
  have "q * uint m \<le> (2 ^ 32 - 1) * uint m" using le p r by linarith
  then have d: "q \<le> 2 ^ 32 - 1" "0 \<le> q" using m0 by (auto simp: q_def pos_imp_zdiv_nonneg_iff)
  have full: "q < 2 ^ 32 - 1" if "0 < r"
    using le p that m0 by (smt (verit) mult_less_cancel_right)
  have "c = q + (if 0 < r then 1 else 0)"
    using m d full unfolding q_def r_def
    by (simp add: c_def SegmentPieceCount_def unsigned_ucast_eq uint_div_distrib
        uint_mod_distrib word_less_def uint_plus_if' take_bit_int_eq_self_iff)
  then show "(c - 1) * uint m < uint p" "uint p \<le> c * uint m"
    using p r m0 by (auto simp: algebra_simps split: if_splits)
qed

text \<open>Segment \<open>i\<close> holds the bytes from \<open>i\<close> times the maximal size on, up to the maximal size.\<close>

lemma SegmentPieceSize_value:
  assumes m: "m \<noteq> 0" and p: "uint p < 2 ^ 63" and le: "uint p \<le> (2 ^ 32 - 1) * uint m"
    and i: "i < unat (SegmentPieceCount p m)"
  shows "SegmentPieceSize p (of_nat i) m = min (uint m) (uint p - int i * uint m)"
proof -
  let ?c = "SegmentPieceCount p m"
  note b = SegmentPieceCount_bounds [OF m le]
  have c: "uint ?c = int (unat ?c)" by simp
  have sp: "sint p = uint p" using p by (simp add: sint_small)
  have "(of_nat i :: 32 word) = ?c - 1 \<longleftrightarrow> (of_nat (Suc i) :: 32 word) = of_nat (unat ?c)"
    by (auto simp: algebra_simps)
  then have last: "(of_nat i :: 32 word) = ?c - 1 \<longleftrightarrow> Suc i = unat ?c"
    using i unat32_less [of ?c] unfolding word_of_nat_eq_iff by (simp add: take_bit_nat_eq_self)
  show ?thesis
  proof (cases "?c = 1")
    case True
    then show ?thesis using i b sp by (simp add: SegmentPieceSize_def)
  next
    case False
    then have "unat ?c \<noteq> 1" by (simp add: word_unat_eq_iff)
    then have "2 \<le> unat ?c" using i by linarith
    then have "1 \<le> uint ?c - 1" using c by linarith
    then have pos: "1 * uint m \<le> (uint ?c - 1) * uint m" by (intro mult_right_mono) simp_all
    then have "uint m < 2 ^ 63" using b p by linarith
    then have sm: "sint m = uint m" by (simp add: sint_small)
    show ?thesis
    proof (cases "Suc i = unat ?c")
      case True
      then have i: "int i = uint ?c - 1" using c by linarith
      have "SegmentPieceSize p (of_nat i) m = i64 (uint p - i64 ((uint ?c - 1) * uint m))"
        using True False last by (simp add: SegmentPieceSize_def sp sm)
      also have "\<dots> = uint p - int i * uint m"
        using b p order_trans [OF uint_ge_0 [of m], of "(uint ?c - 1) * uint m"] pos unfolding i
        by (simp add: i64_id in_i64_def)
      finally show ?thesis using b unfolding i by (simp add: algebra_simps)
    next
      case other: False
      then have "int i \<le> uint ?c - 2" using i c by linarith
      then have "int i * uint m \<le> (uint ?c - 2) * uint m" by (intro mult_right_mono) simp_all
      then show ?thesis using False other last b sm by (simp add: SegmentPieceSize_def algebra_simps)
    qed
  qed
qed

lemma sum_of_segments:
  fixes M P :: int
  assumes "(n - 1) * M < P" "P \<le> n * M" "0 \<le> M" "int k \<le> n" "0 \<le> P"
  shows "(\<Sum>i<k. min M (P - int i * M)) = min (int k * M) P"
  using assms
proof (induction k)
  case (Suc k)
  then have "int k * M \<le> (n - 1) * M" by (intro mult_right_mono) simp_all
  then show ?case using Suc by (simp add: algebra_simps min_def)
qed simp

lemma ECPieceSize_value:
  assumes "d \<noteq> 0" and s: "0 \<le> SegmentPieceSize p i m" "SegmentPieceSize p i m < 2 ^ 63"
  shows "\<exists>e. ECPieceSize p i m d = Inr e \<and> SegmentPieceSize p i m \<le> e * uint d
     \<and> e * uint d < SegmentPieceSize p i m + uint d"
proof -
  define x k where "x = SegmentPieceSize p i m" and "k = uint d"
  have k: "0 < k" using assms(1) by (simp add: k_def uint_pos)
  note s = s [folded x_def]
  have "x div k \<le> x" using s k by (simp add: int_div_le_self)
  moreover have "0 \<le> x div k" using s k by (simp add: pos_imp_zdiv_nonneg_iff)
  moreover have "x div k < x" if "x mod k \<noteq> 0"
  proof -
    have "k \<noteq> 1" "x \<noteq> 0" using that by auto
    then show ?thesis using s k by (intro int_div_less_self) simp_all
  qed
  ultimately have e: "ECPieceSize p i m d = Inr (x div k + (if 0 < x \<and> x mod k \<noteq> 0 then 1 else 0))"
    using assms(1) s k by (auto simp: ECPieceSize_def go_div_def sgn_if i64_id in_i64_def simp flip: x_def k_def)
  obtain q r where "x div k = q" "x mod k = r" "x = q * k + r" "0 \<le> r" "r < k"
    using div_mult_mod_eq [of x k] pos_mod_sign [OF k, of x] pos_mod_bound [OF k, of x] by metis
  then show ?thesis using e s k
    by (cases "x = 0") (auto simp: algebra_simps simp flip: x_def k_def)
qed

text \<open>C24: For a payload an int64 holds and a segment count 32 bits hold, the segments of an object
  cover it exactly: the sizes of its \<open>SegmentPieceCount\<close> segments add up to the payload, every
  segment is non-empty and at most the maximal segment size, and the \<open>dataChunkNum\<close> data pieces of a
  segment hold it with less than one byte of padding per piece.\<close>

theorem segments_cover_payload:
  assumes "maxSegmentSize \<noteq> 0" "dataChunkNum \<noteq> 0" "uint payloadSize < 2 ^ 63"
    and "uint payloadSize \<le> (2 ^ 32 - 1) * uint maxSegmentSize"
  shows "(\<Sum>i < unat (SegmentPieceCount payloadSize maxSegmentSize).
        SegmentPieceSize payloadSize (of_nat i) maxSegmentSize) = uint payloadSize \<and>
    (\<forall>i < unat (SegmentPieceCount payloadSize maxSegmentSize).
      0 < SegmentPieceSize payloadSize (of_nat i) maxSegmentSize \<and>
      SegmentPieceSize payloadSize (of_nat i) maxSegmentSize \<le> uint maxSegmentSize \<and>
      (\<exists>e. ECPieceSize payloadSize (of_nat i) maxSegmentSize dataChunkNum = Inr e \<and>
        SegmentPieceSize payloadSize (of_nat i) maxSegmentSize \<le> e * uint dataChunkNum \<and>
        e * uint dataChunkNum <
          SegmentPieceSize payloadSize (of_nat i) maxSegmentSize + uint dataChunkNum))"
    (is "?sum \<and> (\<forall>i < unat ?c. ?bound i)")
proof
  note v = SegmentPieceSize_value [OF assms(1,3,4)]
    and b = SegmentPieceCount_bounds [OF assms(1,4)]
  have c: "uint ?c = int (unat ?c)" by simp
  have "(\<Sum>i < unat ?c. SegmentPieceSize payloadSize (of_nat i) maxSegmentSize) =
      (\<Sum>i < unat ?c. min (uint maxSegmentSize) (uint payloadSize - int i * uint maxSegmentSize))"
    by (intro sum.cong refl v) simp
  also have "\<dots> = min (int (unat ?c) * uint maxSegmentSize) (uint payloadSize)"
    using b by (rule sum_of_segments) simp_all
  also have "\<dots> = uint payloadSize" using b(2) by (intro min_absorb2) simp
  finally show ?sum .
  show "\<forall>i < unat ?c. ?bound i"
  proof (intro allI impI)
    fix i assume i: "i < unat ?c"
    have nn: "0 \<le> int i * uint maxSegmentSize" by simp
    from i have "int i \<le> uint ?c - 1" using c by linarith
    then have "int i * uint maxSegmentSize \<le> (uint ?c - 1) * uint maxSegmentSize"
      by (intro mult_right_mono) simp_all
    then have "int i * uint maxSegmentSize < uint payloadSize" using b(1) by linarith
    then have "0 < SegmentPieceSize payloadSize (of_nat i) maxSegmentSize"
      using v [OF i] uint_pos [OF assms(1)] by simp
    moreover have "SegmentPieceSize payloadSize (of_nat i) maxSegmentSize < 2 ^ 63"
      unfolding v [OF i] min_less_iff_disj using assms(3) nn by linarith
    ultimately show "?bound i"
      using v [OF i] ECPieceSize_value [OF assms(2), of payloadSize "of_nat i" maxSegmentSize] by simp
  qed
qed

theorem segments_cover_payload_witness:
  "(\<Sum>i < unat (SegmentPieceCount 40 16). SegmentPieceSize 40 (of_nat i) 16) = 40 \<and>
   map (\<lambda>i. SegmentPieceSize 40 i 16) [0, 1, 2] = [16, 16, 8] \<and>
   ECPieceSize 40 2 16 6 = Inr 2"
  using segments_cover_payload [of 16 6 40]
  by (simp add: SegmentPieceCount_def SegmentPieceSize_def ECPieceSize_def go_div_def i64_def)

end
