(* ===== verification/Evm_Records.thy ===== *)
theory Evm_Records
  imports SP_Prelude
begin

text \<open>
  The records of the signer's EVM state (\<open>modular/signer/evm_state.go\<close>): the evidence of every
  signed transaction, the pending submission of a scope, the outcome kept for an operation, audit
  events and the ways a pending row ends; the evidence check \<open>verifySignedTxEvidence\<close> and the check
  \<open>checkSettleable\<close> of a row to be settled.

  Hashes are 256-bit and addresses 160-bit words, the zero word being Go's zero value (the tables
  store it as the empty string). Nonces, blocks and receipt status are 64-bit words; row ids and
  lease epochs are natural numbers, since neither can be counted up to \<open>2 ^ 64\<close>. Error values are
  identified by what \<open>errors.Is\<close> and \<open>errors.As\<close> find in them; message texts are not modelled.
\<close>

section \<open>Values\<close>

type_synonym hash = "256 word"
type_synonym address = "160 word"
type_synonym u64 = "64 word"
type_synonym bytes = "8 word list"
type_synonym SignType = string

definition SignOperator :: SignType where "SignOperator = ''operator''"
definition SignSeal :: SignType where "SignSeal = ''seal''"
definition SignApproval :: SignType where "SignApproval = ''approval''"
definition SignGc :: SignType where "SignGc = ''gc''"

text \<open>The \<open>state\<close> column: pending, one of the three outcome states, or a text the signer never wrote.\<close>

datatype evmRowState =
    RowPending
  | OutcomeSucceeded
  | OutcomeExecutedElsewhere
  | OutcomeBlockedUnknown
  | RowOtherState string

datatype evmAuditName =
    AuditRecorded
  | AuditMarkedAmbiguous
  | AuditResolvedSuccess
  | AuditResolvedFailed
  | AuditNotAdmittedNonceLow
  | AuditNotAdmittedNonceHigh
  | AuditNotAdmittedRejected
  | AuditOutcomeCreated
  | AuditOutcomeConsumed
  | AuditLoadedOnStart
  | AuditLeaseAcquired
  | AuditLeaseLost
  | AuditPendingVanished
  | AuditEvidenceInvalid
  | AuditAutoResolvedFailed
  | AuditAutoBlockedMissing
  | AuditAutoBlockedDropped
  | AuditAutoBlockedNonceGap
  | AuditAutoOutcomeSucceeded
  | AuditAutoOutcomeFailed
  | AuditAutoOutcomeSuperseded
  | AuditManualResolveSuccess
  | AuditManualResolveFailed
  | AuditManualResolveOtherTxFailed
  | AuditManualResolveOtherUnrelated
  | AuditManualResolveSameCall
  | AuditManualResolveElsewhere
  | AuditManualResolveUnknown
  | AuditManualResolveNonceGap
  | AuditManualOutcomeResolved
  | AuditManualReleaseUnknown
  | AuditManualDisposeOutcome
  | AuditManualRejected
  | AuditNone

text \<open>\<open>AuditNone\<close> is the empty event name of \<open>audit("")\<close>, which callers replace before writing.\<close>

datatype evmSource = SourceNone | SourceAuto | SourceSubmit | SourceResolve | SourceStartup | SourceManual

datatype evm_error =
    ErrEvmLeaseNotHeld
  | ErrEvmStateConflict
  | ErrEvmRowGone
  | ErrEvmEvidenceInvalid
  | EvmCommitUnknownError
  | ErrEvmStateNotConfigured
  | ErrEvmNonceUnsynced
  | EvmNonceRejectedError
  | ErrDatabase
  | ErrRpc
  | ErrKeepsChanging
  | ErrOperationBlocked
  | ErrUnconfirmed
  | ErrRejectedByNode
  | ErrContext
  | ErrEncoding
  | ErrStartRefused
  | ErrDanglingPointer
  | ErrSignMsg
  | ErrUnexpectedFundDeposit
  | ErrWrongSequence
  | ErrGasRefused
  | ErrBroadcast

text \<open>From \<open>ErrDatabase\<close> to \<open>ErrStartRefused\<close>, and the last two, the constructors stand for errors no
  caller tells apart: a failed statement, a failed call of a node, a scope that keeps changing, an
  operation blocked by its outcome, a submission without a receipt, a refusal by the node, a finished
  context, bytes that cannot be encoded, state the signer refuses to start with, gas the signer does not
  pay, and a failed Cosmos broadcast.\<close>

definition isEvmCommitUnknown :: "evm_error \<Rightarrow> bool" where
  "isEvmCommitUnknown e \<longleftrightarrow> e = EvmCommitUnknownError"

section \<open>Records\<close>

record evmFence =
  f_ChainID :: string
  f_Owner :: string
  f_Epoch :: nat

record signedTxEvidence =
  e_ID :: nat
  e_ChainID :: string
  e_EvmChainID :: u64
  e_Scope :: SignType
  e_Operation :: hash
  e_From :: address
  e_Nonce :: u64
  e_TxHash :: hash
  e_Raw :: bytes
  e_RecordedBlock :: u64
  e_LeaseEpoch :: nat

record pendingRecord =
  p_ID :: nat
  p_ChainID :: string
  p_SignedTxID :: nat
  p_Scope :: SignType
  p_From :: address
  p_Nonce :: u64
  p_TxHash :: hash
  p_Operation :: hash
  p_Ambiguous :: bool
  p_LeaseEpoch :: nat

record outcomeRecord =
  o_ID :: nat
  o_SignedTxID :: nat
  o_ChainID :: string
  o_Scope :: SignType
  o_Operation :: hash
  o_From :: address
  o_Nonce :: u64
  o_TxHash :: hash
  o_ResultTxHash :: hash
  o_State :: evmRowState
  o_EvidenceTxHash :: string
  o_EvidenceKind :: string
  o_Reason :: string
  o_ReceiptBlock :: u64
  o_Source :: evmSource

text \<open>Of an audit event the model keeps what the program itself reads back or what identifies the
  row; free text (detail, reason, decision reference, actor, tool version) is left out.\<close>

record evmAuditEvent =
  a_Event :: evmAuditName
  a_Scope :: SignType
  a_From :: address
  a_Nonce :: "u64 option"
  a_TxHash :: hash
  a_Operation :: hash
  a_SignedTxID :: "nat option"
  a_ReceiptStatus :: "u64 option"
  a_ReceiptBlock :: "u64 option"
  a_ChainNonce :: "u64 option"
  a_OutcomeID :: "nat option"
  a_OutcomeState :: "evmRowState option"
  a_OutcomeReason :: string
  a_EvidenceTxHash :: string
  a_EvidenceKind :: string
  a_ChainHeight :: "u64 option"

definition emptyAudit :: "evmAuditName \<Rightarrow> evmAuditEvent" where
  "emptyAudit event = \<lparr>a_Event = event, a_Scope = [], a_From = 0, a_Nonce = None, a_TxHash = 0, a_Operation = 0,
     a_SignedTxID = None, a_ReceiptStatus = None, a_ReceiptBlock = None, a_ChainNonce = None, a_OutcomeID = None,
     a_OutcomeState = None, a_OutcomeReason = [], a_EvidenceTxHash = [], a_EvidenceKind = [], a_ChainHeight = None\<rparr>"

definition pending_audit :: "pendingRecord \<Rightarrow> evmAuditName \<Rightarrow> evmAuditEvent" where
  "pending_audit p event = (emptyAudit event)\<lparr>a_Scope := p_Scope p, a_From := p_From p, a_Nonce := Some (p_Nonce p),
     a_TxHash := p_TxHash p, a_Operation := p_Operation p, a_SignedTxID := Some (p_SignedTxID p)\<rparr>"

definition outcome_audit :: "outcomeRecord \<Rightarrow> evmAuditName \<Rightarrow> evmAuditEvent" where
  "outcome_audit out event = (emptyAudit event)\<lparr>a_Scope := o_Scope out, a_From := o_From out,
     a_Nonce := Some (o_Nonce out), a_TxHash := o_TxHash out, a_Operation := o_Operation out,
     a_SignedTxID := Some (o_SignedTxID out), a_OutcomeID := Some (o_ID out), a_OutcomeState := Some (o_State out),
     a_OutcomeReason := o_Reason out, a_EvidenceTxHash := o_EvidenceTxHash out, a_EvidenceKind := o_EvidenceKind out\<rparr>"

section \<open>How a pending row ends\<close>

datatype pendingTerminalKind =
    TerminalSuccessConsume
  | TerminalSuccessKeep
  | TerminalFailed
  | TerminalNotAdmittedNonceLow
  | TerminalNotAdmittedNonceHigh
  | TerminalNotAdmittedRejected

fun auditEvents :: "pendingTerminalKind \<Rightarrow> evmAuditName list" where
  "auditEvents TerminalSuccessConsume = [AuditResolvedSuccess, AuditOutcomeConsumed]"
| "auditEvents TerminalSuccessKeep = [AuditResolvedSuccess, AuditOutcomeCreated]"
| "auditEvents TerminalFailed = [AuditResolvedFailed]"
| "auditEvents TerminalNotAdmittedNonceLow = [AuditNotAdmittedNonceLow]"
| "auditEvents TerminalNotAdmittedNonceHigh = [AuditNotAdmittedNonceHigh]"
| "auditEvents TerminalNotAdmittedRejected = [AuditNotAdmittedRejected]"

definition notAdmitted :: "pendingTerminalKind \<Rightarrow> bool" where
  "notAdmitted k \<longleftrightarrow> k = TerminalNotAdmittedNonceLow \<or> k = TerminalNotAdmittedNonceHigh \<or> k = TerminalNotAdmittedRejected"

definition doneEvent :: "pendingTerminalKind \<Rightarrow> evmAuditName" where
  "doneEvent k = (let events = auditEvents k in events ! (length events - 1))"

lemma doneEvent_simps [simp]:
  "doneEvent TerminalSuccessConsume = AuditOutcomeConsumed"
  "doneEvent TerminalSuccessKeep = AuditOutcomeCreated"
  "doneEvent TerminalFailed = AuditResolvedFailed"
  "doneEvent TerminalNotAdmittedNonceLow = AuditNotAdmittedNonceLow"
  "doneEvent TerminalNotAdmittedNonceHigh = AuditNotAdmittedNonceHigh"
  "doneEvent TerminalNotAdmittedRejected = AuditNotAdmittedRejected"
  by (simp_all add: doneEvent_def)

record pendingTerminal =
  pt_Kind :: pendingTerminalKind
  pt_ReceiptStatus :: "u64 option"
  pt_ReceiptBlock :: u64
  pt_Source :: evmSource

section \<open>The evidence check\<close>

record evidenceRef =
  r_SignedTxID :: nat
  r_ChainID :: string
  r_Scope :: SignType
  r_Operation :: hash
  r_From :: address
  r_Nonce :: u64
  r_TxHash :: hash

definition pending_ref :: "pendingRecord \<Rightarrow> evidenceRef" where
  "pending_ref p = \<lparr>r_SignedTxID = p_SignedTxID p, r_ChainID = p_ChainID p, r_Scope = p_Scope p,
     r_Operation = p_Operation p, r_From = p_From p, r_Nonce = p_Nonce p, r_TxHash = p_TxHash p\<rparr>"

definition outcome_ref :: "outcomeRecord \<Rightarrow> evidenceRef" where
  "outcome_ref out = \<lparr>r_SignedTxID = o_SignedTxID out, r_ChainID = o_ChainID out, r_Scope = o_Scope out,
     r_Operation = o_Operation out, r_From = o_From out, r_Nonce = o_Nonce out, r_TxHash = o_TxHash out\<rparr>"

text \<open>The go-ethereum functions the signer relies on, over its type \<open>'tx\<close> of transactions: decoding and
  encoding of EIP-2718 bytes, the transaction hash and Keccak-256 of bytes, the chain id (a big
  integer, or nil), sender recovery for a chain id, and the nonce.\<close>

record 'tx ethLib =
  UnmarshalBinary :: "bytes \<Rightarrow> 'tx option"
  MarshalBinary :: "'tx \<Rightarrow> bytes option"
  tx_Hash :: "'tx \<Rightarrow> hash"
  Keccak256Hash :: "bytes \<Rightarrow> hash"
  tx_ChainId :: "'tx \<Rightarrow> int option"
  tx_Sender :: "int \<Rightarrow> 'tx \<Rightarrow> address option"
  tx_Nonce :: "'tx \<Rightarrow> u64"

definition IsUint64 :: "int \<Rightarrow> bool" where
  "IsUint64 x \<longleftrightarrow> 0 \<le> x \<and> x < 2 ^ 64"

definition mismatched :: "signedTxEvidence \<Rightarrow> evidenceRef \<Rightarrow> string list" where
  "mismatched ev ref =
     (if r_SignedTxID ref \<noteq> e_ID ev then [''signed_tx_id''] else []) @
     (if r_ChainID ref \<noteq> e_ChainID ev then [''chain_id''] else []) @
     (if r_Scope ref \<noteq> e_Scope ev then [''scope''] else []) @
     (if r_Operation ref \<noteq> e_Operation ev then [''operation''] else []) @
     (if r_From ref \<noteq> e_From ev then [''from_address''] else []) @
     (if r_Nonce ref \<noteq> e_Nonce ev then [''nonce''] else []) @
     (if r_TxHash ref \<noteq> e_TxHash ev then [''tx_hash''] else [])"

definition verifySignedTxEvidence ::
  "'tx ethLib \<Rightarrow> signedTxEvidence option \<Rightarrow> evidenceRef \<Rightarrow> evm_error + 'tx" where
  "verifySignedTxEvidence E evidence ref =
     (case evidence of None \<Rightarrow> Inl ErrEvmEvidenceInvalid
      | Some ev \<Rightarrow>
     (case UnmarshalBinary E (e_Raw ev) of None \<Rightarrow> Inl ErrEvmEvidenceInvalid
      | Some tx \<Rightarrow>
        if Keccak256Hash E (e_Raw ev) \<noteq> e_TxHash ev \<or> tx_Hash E tx \<noteq> e_TxHash ev then Inl ErrEvmEvidenceInvalid
        else (case tx_ChainId E tx of None \<Rightarrow> Inl ErrEvmEvidenceInvalid
      | Some cid \<Rightarrow>
        if \<not> IsUint64 cid \<or> word_of_int cid \<noteq> e_EvmChainID ev then Inl ErrEvmEvidenceInvalid
        else (case tx_Sender E cid tx of None \<Rightarrow> Inl ErrEvmEvidenceInvalid
      | Some sender \<Rightarrow>
        if sender \<noteq> e_From ev then Inl ErrEvmEvidenceInvalid
        else if tx_Nonce E tx \<noteq> e_Nonce ev then Inl ErrEvmEvidenceInvalid
        else if length (mismatched ev ref) \<noteq> 0 then Inl ErrEvmEvidenceInvalid
        else Inr tx))))"

definition sameEvidence :: "signedTxEvidence \<Rightarrow> signedTxEvidence \<Rightarrow> bool" where
  "sameEvidence a b \<longleftrightarrow> e_ChainID a = e_ChainID b \<and> e_EvmChainID a = e_EvmChainID b \<and> e_Scope a = e_Scope b
     \<and> e_Operation a = e_Operation b \<and> e_From a = e_From b \<and> e_Nonce a = e_Nonce b \<and> e_TxHash a = e_TxHash b
     \<and> e_Raw a = e_Raw b"

definition checkSettleable :: "outcomeRecord \<Rightarrow> outcomeRecord \<Rightarrow> evmRowState list \<Rightarrow> evm_error option" where
  "checkSettleable current want from =
     (if o_ChainID current \<noteq> o_ChainID want \<or> o_Scope current \<noteq> o_Scope want \<or> o_Operation current \<noteq> o_Operation want
         \<or> o_SignedTxID current \<noteq> o_SignedTxID want \<or> o_TxHash current \<noteq> o_TxHash want \<or> o_Nonce current \<noteq> o_Nonce want
         \<or> o_From current \<noteq> o_From want
      then Some ErrEvmStateConflict
      else if o_State current \<notin> set from then Some ErrEvmStateConflict
      else None)"

lemma mismatched_Nil_iff [simp]:
  "mismatched ev ref = [] \<longleftrightarrow> ref = \<lparr>r_SignedTxID = e_ID ev, r_ChainID = e_ChainID ev, r_Scope = e_Scope ev,
     r_Operation = e_Operation ev, r_From = e_From ev, r_Nonce = e_Nonce ev, r_TxHash = e_TxHash ev\<rparr>"
  by (cases ref) (auto simp: mismatched_def)

text \<open>What the check establishes, as one condition on the evidence row and the referencing row.\<close>

definition evidence_valid :: "'tx ethLib \<Rightarrow> signedTxEvidence \<Rightarrow> evidenceRef \<Rightarrow> 'tx \<Rightarrow> bool" where
  "evidence_valid E ev ref tx \<longleftrightarrow>
     UnmarshalBinary E (e_Raw ev) = Some tx \<and> Keccak256Hash E (e_Raw ev) = e_TxHash ev \<and> tx_Hash E tx = e_TxHash ev
   \<and> (\<exists>cid. tx_ChainId E tx = Some cid \<and> IsUint64 cid \<and> word_of_int cid = e_EvmChainID ev
        \<and> tx_Sender E cid tx = Some (e_From ev))
   \<and> tx_Nonce E tx = e_Nonce ev \<and> mismatched ev ref = []"

lemma verifySignedTxEvidence_iff:
  "verifySignedTxEvidence E evidence ref = Inr tx \<longleftrightarrow> (\<exists>ev. evidence = Some ev \<and> evidence_valid E ev ref tx)"
  by (auto simp: verifySignedTxEvidence_def evidence_valid_def split: option.splits if_splits)

lemma verifySignedTxEvidence_Inl:
  "verifySignedTxEvidence E evidence ref = Inl err \<Longrightarrow> err = ErrEvmEvidenceInvalid"
  by (auto simp: verifySignedTxEvidence_def split: option.splits if_splits)

end
