(* ===== verification/Evm_Store.thy ===== *)
theory Evm_Store
  imports Evm_Records
begin

text \<open>
  The SQL store of the signer's EVM state: the four tables of \<open>store/sqldb/signer_evm.go\<close> with their
  generated columns, unique keys and foreign key, and the transactions of
  \<open>modular/signer/evm_state_store_sql.go\<close>, one definition per method.

  A transaction is a function of the database: the lease row or the row it changes is locked before
  it is read, so transactions that touch the same rows are serialised. What can go wrong around it is
  the argument \<open>dbCall\<close>: a statement fails (the transaction rolls back), or COMMIT is sent and its
  result is unknown, and then it landed or it did not. Rolling back restores the tables but, as in
  InnoDB, not the AUTO_INCREMENT counters. Hex codecs between columns and values are not modelled.
\<close>

section \<open>Tables\<close>

record SignerEvmStateTable =
  sr_ID :: nat
  sr_SignedTxID :: nat
  sr_ChainID :: string
  sr_Scope :: SignType
  sr_Operation :: hash
  sr_FromAddress :: address
  sr_Nonce :: u64
  sr_TxHash :: hash
  sr_ResultTxHash :: hash
  sr_State :: evmRowState
  sr_EvidenceTxHash :: string
  sr_EvidenceKind :: string
  sr_Reason :: string
  sr_ReceiptBlock :: u64
  sr_Source :: evmSource
  sr_Ambiguous :: bool
  sr_LeaseEpoch :: nat
  sr_UpdatedAt :: int
  sr_CreatedAt :: int

record SignerEvmLeaseTable =
  ls_ChainID :: string
  ls_Owner :: string
  ls_Epoch :: nat
  ls_ExpiresAt :: int

record SignerEvmAuditTable =
  au_ID :: nat
  au_ChainID :: string
  au_Event :: evmAuditEvent
  au_LeaseEpoch :: nat
  au_CreatedAt :: int

record evm_db =
  db_signed :: "signedTxEvidence list"
  db_state :: "SignerEvmStateTable list"
  db_lease :: "SignerEvmLeaseTable list"
  db_audit :: "SignerEvmAuditTable list"
  db_nextSigned :: nat
  db_nextState :: nat
  db_nextAudit :: nat

definition empty_db :: evm_db where
  "empty_db = \<lparr>db_signed = [], db_state = [], db_lease = [], db_audit = [], db_nextSigned = 1, db_nextState = 1,
     db_nextAudit = 1\<rparr>"

text \<open>The generated columns and the unique keys \<open>uniq_pending\<close> and \<open>uniq_outcome\<close>; NULL never
  conflicts.\<close>

definition pending_scope :: "SignerEvmStateTable \<Rightarrow> SignType option" where
  "pending_scope r = (if sr_State r = RowPending then Some (sr_Scope r) else None)"

definition outcome_operation :: "SignerEvmStateTable \<Rightarrow> hash option" where
  "outcome_operation r = (if sr_State r \<noteq> RowPending then Some (sr_Operation r) else None)"

definition key_conflict :: "SignerEvmStateTable \<Rightarrow> SignerEvmStateTable \<Rightarrow> bool" where
  "key_conflict r r' \<longleftrightarrow> sr_ID r \<noteq> sr_ID r' \<and> sr_ChainID r = sr_ChainID r'
     \<and> ((pending_scope r \<noteq> None \<and> pending_scope r = pending_scope r')
        \<or> (sr_Scope r = sr_Scope r' \<and> outcome_operation r \<noteq> None \<and> outcome_operation r = outcome_operation r'))"

definition keys_ok :: "SignerEvmStateTable list \<Rightarrow> bool" where
  "keys_ok rows \<longleftrightarrow> (\<forall>r \<in> set rows. \<forall>r' \<in> set rows. \<not> key_conflict r r')"

datatype sql_error = DuplicateEntry | ForeignKeyViolation

definition isDuplicateKey :: "sql_error \<Rightarrow> bool" where
  "isDuplicateKey e \<longleftrightarrow> e = DuplicateEntry"

text \<open>INSERT into the evidence and the state table, UPDATE and DELETE on the state table. The number of
  rows an UPDATE affects is, as MySQL reports it, the number of rows it changed.\<close>

definition createSigned :: "signedTxEvidence \<Rightarrow> evm_db \<Rightarrow> sql_error + (nat \<times> evm_db)" where
  "createSigned e db =
     (if \<exists>x \<in> set (db_signed db). e_ChainID x = e_ChainID e \<and> e_TxHash x = e_TxHash e then Inl DuplicateEntry
      else let i = db_nextSigned db in
        Inr (i, db\<lparr>db_signed := db_signed db @ [e\<lparr>e_ID := i\<rparr>], db_nextSigned := i + 1\<rparr>))"

definition createState :: "SignerEvmStateTable \<Rightarrow> evm_db \<Rightarrow> sql_error + (nat \<times> evm_db)" where
  "createState row db =
     (let i = db_nextState db; r = row\<lparr>sr_ID := i\<rparr> in
      if \<exists>x \<in> set (db_state db). key_conflict r x then Inl DuplicateEntry
      else if sr_SignedTxID r \<notin> e_ID ` set (db_signed db) then Inl ForeignKeyViolation
      else Inr (i, db\<lparr>db_state := db_state db @ [r], db_nextState := i + 1\<rparr>))"

definition updateState ::
  "(SignerEvmStateTable \<Rightarrow> bool) \<Rightarrow> (SignerEvmStateTable \<Rightarrow> SignerEvmStateTable) \<Rightarrow> evm_db \<Rightarrow> sql_error + (nat \<times> evm_db)" where
  "updateState P f db =
     (let rows = map (\<lambda>r. if P r then f r else r) (db_state db) in
      if keys_ok rows then Inr (length (filter (\<lambda>r. P r \<and> f r \<noteq> r) (db_state db)), db\<lparr>db_state := rows\<rparr>)
      else Inl DuplicateEntry)"

definition deleteState :: "(SignerEvmStateTable \<Rightarrow> bool) \<Rightarrow> evm_db \<Rightarrow> nat \<times> evm_db" where
  "deleteState P db = (length (filter P (db_state db)), db\<lparr>db_state := filter (\<lambda>r. \<not> P r) (db_state db)\<rparr>)"

section \<open>Transactions\<close>

datatype txnFault = NoFault | StatementFails | CommitUnknown bool

text \<open>What a call meets: the database's clock NOW(6), the caller's clock (Unix seconds) and the fault.\<close>

record dbCall =
  dc_now :: int
  dc_clock :: int
  dc_fault :: txnFault

definition rollback :: "evm_db \<Rightarrow> evm_db \<Rightarrow> evm_db" where
  "rollback db db' = db\<lparr>db_nextSigned := db_nextSigned db', db_nextState := db_nextState db',
     db_nextAudit := db_nextAudit db'\<rparr>"

type_synonym 'a txn_body = "evm_db \<Rightarrow> (evm_error + 'a) \<times> evm_db"

definition txn :: "dbCall \<Rightarrow> 'a txn_body \<Rightarrow> 'a txn_body" where
  "txn X fn db =
     (case dc_fault X of
        StatementFails \<Rightarrow> (Inl ErrDatabase, db)
      | NoFault \<Rightarrow> (case fn db of (Inl e, db') \<Rightarrow> (Inl e, rollback db db') | (Inr a, db') \<Rightarrow> (Inr a, db'))
      | CommitUnknown l \<Rightarrow> (case fn db of (Inl e, db') \<Rightarrow> (Inl e, rollback db db')
          | (Inr a, db') \<Rightarrow> (Inl EvmCommitUnknownError, if l then db' else rollback db db')))"

definition fenceCheck :: "dbCall \<Rightarrow> evmFence \<Rightarrow> evm_db \<Rightarrow> bool" where
  "fenceCheck X fence db \<longleftrightarrow>
     (case filter (\<lambda>l. ls_ChainID l = f_ChainID fence) (db_lease db) of
        [l] \<Rightarrow> ls_Owner l = f_Owner fence \<and> ls_Epoch l = f_Epoch fence \<and> ls_ExpiresAt l > dc_now X
      | _ \<Rightarrow> False)"

definition insertAudit :: "dbCall \<Rightarrow> string \<Rightarrow> nat \<Rightarrow> evmAuditEvent \<Rightarrow> evm_db \<Rightarrow> evm_db" where
  "insertAudit X chainID epoch event db =
     db\<lparr>db_audit := db_audit db @ [\<lparr>au_ID = db_nextAudit db, au_ChainID = chainID, au_Event = event,
          au_LeaseEpoch = epoch, au_CreatedAt = dc_clock X\<rparr>], db_nextAudit := db_nextAudit db + 1\<rparr>"

definition pendingFromRow :: "SignerEvmStateTable \<Rightarrow> pendingRecord" where
  "pendingFromRow r = \<lparr>p_ID = sr_ID r, p_ChainID = sr_ChainID r, p_SignedTxID = sr_SignedTxID r, p_Scope = sr_Scope r,
     p_From = sr_FromAddress r, p_Nonce = sr_Nonce r, p_TxHash = sr_TxHash r, p_Operation = sr_Operation r,
     p_Ambiguous = sr_Ambiguous r, p_LeaseEpoch = sr_LeaseEpoch r\<rparr>"

definition outcomeFromRow :: "SignerEvmStateTable \<Rightarrow> outcomeRecord" where
  "outcomeFromRow r = \<lparr>o_ID = sr_ID r, o_SignedTxID = sr_SignedTxID r, o_ChainID = sr_ChainID r, o_Scope = sr_Scope r,
     o_Operation = sr_Operation r, o_From = sr_FromAddress r, o_Nonce = sr_Nonce r, o_TxHash = sr_TxHash r,
     o_ResultTxHash = sr_ResultTxHash r, o_State = sr_State r, o_EvidenceTxHash = sr_EvidenceTxHash r,
     o_EvidenceKind = sr_EvidenceKind r, o_Reason = sr_Reason r, o_ReceiptBlock = sr_ReceiptBlock r,
     o_Source = sr_Source r\<rparr>"

section \<open>The lease\<close>

definition releasedAt :: int where
  "releasedAt = 1000000"

text \<open>\<open>releasedAt\<close> is the instant 1970-01-01 00:00:01 in microseconds, the expiry of a lease that is
  free to take.\<close>

definition AcquireLease_txn :: "dbCall \<Rightarrow> string \<Rightarrow> string \<Rightarrow> int \<Rightarrow> (nat \<times> bool) txn_body" where
  "AcquireLease_txn X chainID owner ttl db =
     (let leases = (if \<exists>l \<in> set (db_lease db). ls_ChainID l = chainID then db_lease db
            else db_lease db @ [\<lparr>ls_ChainID = chainID, ls_Owner = [], ls_Epoch = 0, ls_ExpiresAt = releasedAt\<rparr>]);
          db1 = db\<lparr>db_lease := leases\<rparr> in
      case filter (\<lambda>l. ls_ChainID l = chainID) leases of
        [l] \<Rightarrow>
          if \<not> (ls_ExpiresAt l < dc_now X) \<and> ls_Owner l \<noteq> owner then (Inr (0, False), db1)
          else let epoch = ls_Epoch l + 1 in
            (Inr (epoch, True), insertAudit X chainID epoch (emptyAudit AuditLeaseAcquired)
               (db1\<lparr>db_lease := map (\<lambda>l. if ls_ChainID l = chainID
                  then l\<lparr>ls_Owner := owner, ls_Epoch := epoch, ls_ExpiresAt := dc_now X + ttl\<rparr> else l) leases\<rparr>))
      | _ \<Rightarrow> (Inl ErrDatabase, db1))"

definition AcquireLease :: "dbCall \<Rightarrow> string \<Rightarrow> string \<Rightarrow> int \<Rightarrow> (nat \<times> bool) txn_body" where
  "AcquireLease X chainID owner ttl = txn X (AcquireLease_txn X chainID owner ttl)"

text \<open>Renewal and release are single statements outside \<open>txn\<close>: a failed call may have taken effect.\<close>

definition statement :: "dbCall \<Rightarrow> (evm_db \<Rightarrow> 'a \<times> evm_db) \<Rightarrow> 'a txn_body" where
  "statement X f db =
     (case dc_fault X of
        NoFault \<Rightarrow> (case f db of (a, db') \<Rightarrow> (Inr a, db'))
      | StatementFails \<Rightarrow> (Inl ErrDatabase, db)
      | CommitUnknown l \<Rightarrow> (Inl ErrDatabase, if l then snd (f db) else db))"

definition RenewLease :: "dbCall \<Rightarrow> evmFence \<Rightarrow> int \<Rightarrow> bool txn_body" where
  "RenewLease X fence ttl = statement X (\<lambda>db.
     (let P = (\<lambda>l. ls_ChainID l = f_ChainID fence \<and> ls_Owner l = f_Owner fence \<and> ls_Epoch l = f_Epoch fence
                 \<and> ls_ExpiresAt l > dc_now X);
          f = (\<lambda>l. l\<lparr>ls_ExpiresAt := dc_now X + ttl\<rparr>)
      in (length (filter (\<lambda>l. P l \<and> f l \<noteq> l) (db_lease db)) = 1,
          db\<lparr>db_lease := map (\<lambda>l. if P l then f l else l) (db_lease db)\<rparr>)))"

definition ReleaseLease :: "dbCall \<Rightarrow> evmFence \<Rightarrow> unit txn_body" where
  "ReleaseLease X fence = statement X (\<lambda>db.
     ((), db\<lparr>db_lease := map (\<lambda>l. if ls_ChainID l = f_ChainID fence \<and> ls_Owner l = f_Owner fence \<and> ls_Epoch l = f_Epoch fence
            then l\<lparr>ls_ExpiresAt := releasedAt\<rparr> else l) (db_lease db)\<rparr>))"

section \<open>Reads\<close>

definition pendingRows :: "string \<Rightarrow> SignType \<Rightarrow> evm_db \<Rightarrow> SignerEvmStateTable list" where
  "pendingRows chainID scope db =
     filter (\<lambda>r. sr_State r = RowPending \<and> sr_ChainID r = chainID \<and> sr_Scope r = scope) (db_state db)"

definition GetPending :: "string \<Rightarrow> SignType \<Rightarrow> evm_db \<Rightarrow> pendingRecord option" where
  "GetPending chainID scope db = (case pendingRows chainID scope db of [] \<Rightarrow> None | r # _ \<Rightarrow> Some (pendingFromRow r))"

definition ListPending :: "string \<Rightarrow> evm_db \<Rightarrow> pendingRecord list" where
  "ListPending chainID db = map pendingFromRow
     (sort_key sr_ID (filter (\<lambda>r. sr_State r = RowPending \<and> sr_ChainID r = chainID) (db_state db)))"

definition outcomeRows :: "string \<Rightarrow> SignType \<Rightarrow> hash \<Rightarrow> evm_db \<Rightarrow> SignerEvmStateTable list" where
  "outcomeRows chainID scope operation db = filter (\<lambda>r. sr_State r \<noteq> RowPending \<and> sr_ChainID r = chainID
     \<and> sr_Scope r = scope \<and> sr_Operation r = operation) (db_state db)"

definition GetOutcome :: "string \<Rightarrow> SignType \<Rightarrow> hash \<Rightarrow> evm_db \<Rightarrow> outcomeRecord option" where
  "GetOutcome chainID scope operation db =
     (case outcomeRows chainID scope operation db of [] \<Rightarrow> None | r # _ \<Rightarrow> Some (outcomeFromRow r))"

definition ListOutcomes :: "string \<Rightarrow> evm_db \<Rightarrow> outcomeRecord list" where
  "ListOutcomes chainID db = map outcomeFromRow
     (sort_key sr_ID (filter (\<lambda>r. sr_State r \<noteq> RowPending \<and> sr_ChainID r = chainID) (db_state db)))"

definition GetSignedTx :: "nat \<Rightarrow> evm_db \<Rightarrow> signedTxEvidence option" where
  "GetSignedTx i db = (case filter (\<lambda>e. e_ID e = i) (db_signed db) of [] \<Rightarrow> None | e # _ \<Rightarrow> Some e)"

definition HasAudit :: "string \<Rightarrow> evmAuditName \<Rightarrow> hash \<Rightarrow> nat \<Rightarrow> evm_db \<Rightarrow> bool" where
  "HasAudit chainID event txHash outcomeID db \<longleftrightarrow>
     length (filter (\<lambda>a. au_ChainID a = chainID \<and> a_Event (au_Event a) = event
        \<and> (txHash = 0 \<or> a_TxHash (au_Event a) = txHash)
        \<and> (outcomeID = 0 \<or> a_OutcomeID (au_Event a) = Some outcomeID)) (db_audit db)) > 0"

definition ForeignChainIDs :: "string \<Rightarrow> evm_db \<Rightarrow> string list" where
  "ForeignChainIDs chainID db = remdups (filter (\<lambda>c. c \<noteq> chainID)
     (map sr_ChainID (db_state db) @ map ls_ChainID (db_lease db) @ map e_ChainID (db_signed db)
      @ map au_ChainID (db_audit db)))"

definition GetSignedTxByHash :: "string \<Rightarrow> hash \<Rightarrow> evm_db \<Rightarrow> signedTxEvidence option" where
  "GetSignedTxByHash chainID txHash db =
     (case filter (\<lambda>e. e_ChainID e = chainID \<and> e_TxHash e = txHash) (db_signed db) of [] \<Rightarrow> None | e # _ \<Rightarrow> Some e)"

definition GetOutcomeByID :: "string \<Rightarrow> nat \<Rightarrow> evm_db \<Rightarrow> outcomeRecord option" where
  "GetOutcomeByID chainID i db =
     (case filter (\<lambda>r. sr_State r \<noteq> RowPending \<and> sr_ChainID r = chainID \<and> sr_ID r = i) (db_state db)
      of [] \<Rightarrow> None | r # _ \<Rightarrow> Some (outcomeFromRow r))"

definition ListSignedTxAtNonce :: "string \<Rightarrow> address \<Rightarrow> u64 \<Rightarrow> nat \<Rightarrow> nat \<Rightarrow> evm_db \<Rightarrow> signedTxEvidence list" where
  "ListSignedTxAtNonce chainID from nonce afterID window db = take window
     (sort_key e_ID (filter (\<lambda>e. e_ID e > afterID \<and> e_ChainID e = chainID \<and> e_From e = from \<and> e_Nonce e = nonce)
        (db_signed db)))"


section \<open>Writes\<close>

definition sql_fail :: "sql_error \<Rightarrow> evm_error" where
  "sql_fail e = (if isDuplicateKey e then ErrEvmStateConflict else ErrDatabase)"

text \<open>The second half of \<open>Record\<close>: the pending row and its audit row.\<close>

definition recordPending :: "dbCall \<Rightarrow> evmFence \<Rightarrow> pendingRecord \<Rightarrow> pendingRecord txn_body" where
  "recordPending X fence pending db =
     (case createState \<lparr>sr_ID = 0, sr_SignedTxID = p_SignedTxID pending, sr_ChainID = p_ChainID pending,
          sr_Scope = p_Scope pending, sr_Operation = p_Operation pending, sr_FromAddress = p_From pending,
          sr_Nonce = p_Nonce pending, sr_TxHash = p_TxHash pending, sr_ResultTxHash = 0, sr_State = RowPending,
          sr_EvidenceTxHash = [], sr_EvidenceKind = [], sr_Reason = [], sr_ReceiptBlock = 0, sr_Source = SourceNone,
          sr_Ambiguous = False, sr_LeaseEpoch = f_Epoch fence, sr_UpdatedAt = dc_clock X, sr_CreatedAt = dc_clock X\<rparr> db of
        Inl e \<Rightarrow> (Inl (sql_fail e), db)
      | Inr (i, db') \<Rightarrow>
          let pending' = pending\<lparr>p_ID := i, p_LeaseEpoch := f_Epoch fence\<rparr> in
          (Inr pending', insertAudit X (p_ChainID pending) (f_Epoch fence) (pending_audit pending' AuditRecorded) db'))"

definition Record_txn :: "dbCall \<Rightarrow> evmFence \<Rightarrow> signedTxEvidence \<Rightarrow> pendingRecord \<Rightarrow> pendingRecord txn_body" where
  "Record_txn X fence evidence pending db =
     (if \<not> fenceCheck X fence db then (Inl ErrEvmLeaseNotHeld, db)
      else if outcomeRows (p_ChainID pending) (p_Scope pending) (p_Operation pending) db \<noteq> []
      then (Inl ErrEvmStateConflict, db)
      else (case filter (\<lambda>e. e_ChainID e = e_ChainID evidence \<and> e_TxHash e = e_TxHash evidence) (db_signed db) of
        e # _ \<Rightarrow>
          if \<not> sameEvidence e evidence then (Inl ErrEvmStateConflict, db)
          else recordPending X fence (pending\<lparr>p_SignedTxID := e_ID e\<rparr>) db
      | [] \<Rightarrow>
          (case createSigned (evidence\<lparr>e_LeaseEpoch := f_Epoch fence\<rparr>) db of
             Inl e \<Rightarrow> (Inl (sql_fail e), db)
           | Inr (i, db') \<Rightarrow> recordPending X fence (pending\<lparr>p_SignedTxID := i\<rparr>) db')))"

definition Record :: "dbCall \<Rightarrow> evmFence \<Rightarrow> signedTxEvidence \<Rightarrow> pendingRecord \<Rightarrow> pendingRecord txn_body" where
  "Record X fence evidence pending = txn X (Record_txn X fence evidence pending)"

definition lockPending :: "pendingRecord \<Rightarrow> evm_db \<Rightarrow> evm_error option" where
  "lockPending pending db =
     (case pendingRows (p_ChainID pending) (p_Scope pending) db of
        [] \<Rightarrow> Some ErrEvmRowGone
      | r # _ \<Rightarrow> if sr_ID r \<noteq> p_ID pending \<or> sr_TxHash r \<noteq> p_TxHash pending then Some ErrEvmStateConflict else None)"

definition MarkAmbiguous_txn :: "dbCall \<Rightarrow> evmFence \<Rightarrow> pendingRecord \<Rightarrow> unit txn_body" where
  "MarkAmbiguous_txn X fence pending db =
     (if \<not> fenceCheck X fence db then (Inl ErrEvmLeaseNotHeld, db)
      else (case lockPending pending db of
        Some e \<Rightarrow> (Inl e, db)
      | None \<Rightarrow>
          (case updateState (\<lambda>r. sr_ID r = p_ID pending \<and> sr_TxHash r = p_TxHash pending)
             (\<lambda>r. r\<lparr>sr_Ambiguous := True, sr_UpdatedAt := dc_clock X\<rparr>) db of
             Inl _ \<Rightarrow> (Inl ErrDatabase, db)
           | Inr (_, db') \<Rightarrow> (Inr (), insertAudit X (p_ChainID pending) (f_Epoch fence)
               (pending_audit pending AuditMarkedAmbiguous) db'))))"

definition MarkAmbiguous :: "dbCall \<Rightarrow> evmFence \<Rightarrow> pendingRecord \<Rightarrow> unit txn_body" where
  "MarkAmbiguous X fence pending = txn X (MarkAmbiguous_txn X fence pending)"

definition keptOutcome :: "pendingRecord \<Rightarrow> pendingTerminal \<Rightarrow> outcomeRecord" where
  "keptOutcome pending terminal = \<lparr>o_ID = p_ID pending, o_SignedTxID = p_SignedTxID pending,
     o_ChainID = p_ChainID pending, o_Scope = p_Scope pending, o_Operation = p_Operation pending, o_From = p_From pending,
     o_Nonce = p_Nonce pending, o_TxHash = p_TxHash pending, o_ResultTxHash = p_TxHash pending,
     o_State = OutcomeSucceeded, o_EvidenceTxHash = [], o_EvidenceKind = [], o_Reason = [],
     o_ReceiptBlock = pt_ReceiptBlock terminal, o_Source = pt_Source terminal\<rparr>"

definition terminalEvent :: "pendingRecord \<Rightarrow> pendingTerminal \<Rightarrow> outcomeRecord option \<Rightarrow> evmAuditName \<Rightarrow> evmAuditEvent" where
  "terminalEvent pending terminal outcome name =
     (let event = (pending_audit pending name)\<lparr>a_ReceiptStatus := pt_ReceiptStatus terminal,
            a_ReceiptBlock := (if pt_ReceiptBlock terminal \<noteq> 0 then Some (pt_ReceiptBlock terminal) else None)\<rparr>
      in case outcome of
           Some out \<Rightarrow> if name = AuditOutcomeCreated
             then event\<lparr>a_OutcomeID := Some (o_ID out), a_OutcomeState := Some (o_State out)\<rparr> else event
         | None \<Rightarrow> event)"

definition ResolvePending_txn :: "dbCall \<Rightarrow> evmFence \<Rightarrow> pendingRecord \<Rightarrow> pendingTerminal \<Rightarrow> outcomeRecord option txn_body" where
  "ResolvePending_txn X fence pending terminal db =
     (if \<not> fenceCheck X fence db then (Inl ErrEvmLeaseNotHeld, db)
      else (case lockPending pending db of
        Some e \<Rightarrow> (Inl e, db)
      | None \<Rightarrow>
          let P = (\<lambda>r. sr_ID r = p_ID pending \<and> sr_TxHash r = p_TxHash pending);
              outcome = (if pt_Kind terminal = TerminalSuccessKeep then Some (keptOutcome pending terminal) else None);
              res = (if pt_Kind terminal = TerminalSuccessKeep
                then updateState P (\<lambda>r. r\<lparr>sr_State := OutcomeSucceeded, sr_ResultTxHash := p_TxHash pending,
                       sr_ReceiptBlock := pt_ReceiptBlock terminal, sr_Source := pt_Source terminal,
                       sr_UpdatedAt := dc_clock X\<rparr>) db
                else Inr (deleteState P db))
          in (case res of
               Inl e \<Rightarrow> (Inl (sql_fail e), db)
             | Inr (affected, db') \<Rightarrow>
                 if affected \<noteq> 1 then (Inl ErrEvmStateConflict, db')
                 else (Inr outcome, fold (\<lambda>name. insertAudit X (p_ChainID pending) (f_Epoch fence)
                        (terminalEvent pending terminal outcome name)) (auditEvents (pt_Kind terminal)) db'))))"

definition ResolvePending :: "dbCall \<Rightarrow> evmFence \<Rightarrow> pendingRecord \<Rightarrow> pendingTerminal \<Rightarrow> outcomeRecord option txn_body" where
  "ResolvePending X fence pending terminal = txn X (ResolvePending_txn X fence pending terminal)"

definition ConsumeOutcome_txn :: "dbCall \<Rightarrow> evmFence \<Rightarrow> outcomeRecord \<Rightarrow> unit txn_body" where
  "ConsumeOutcome_txn X fence outcome db =
     (if \<not> fenceCheck X fence db then (Inl ErrEvmLeaseNotHeld, db)
      else (case filter (\<lambda>r. sr_ID r = o_ID outcome) (db_state db) of
        [] \<Rightarrow> (Inl ErrEvmRowGone, db)
      | r # _ \<Rightarrow>
          if sr_State r \<noteq> OutcomeSucceeded \<or> sr_ChainID r \<noteq> o_ChainID outcome \<or> sr_Scope r \<noteq> o_Scope outcome
            \<or> sr_Operation r \<noteq> o_Operation outcome
          then (Inl ErrEvmStateConflict, db)
          else (case deleteState (\<lambda>r. sr_ID r = o_ID outcome \<and> sr_State r = OutcomeSucceeded) db of
            (affected, db') \<Rightarrow>
              if affected \<noteq> 1 then (Inl ErrEvmStateConflict, db')
              else (Inr (), insertAudit X (o_ChainID outcome) (f_Epoch fence)
                (outcome_audit outcome AuditOutcomeConsumed) db'))))"

definition ConsumeOutcome :: "dbCall \<Rightarrow> evmFence \<Rightarrow> outcomeRecord \<Rightarrow> unit txn_body" where
  "ConsumeOutcome X fence outcome = txn X (ConsumeOutcome_txn X fence outcome)"

text \<open>The optional fence of the transitions that the CLI shares with the signer.\<close>

definition fenceFails :: "dbCall \<Rightarrow> evmFence option \<Rightarrow> evm_db \<Rightarrow> bool" where
  "fenceFails X fence db = (case fence of None \<Rightarrow> False | Some f \<Rightarrow> \<not> fenceCheck X f db)"

definition fenceEpoch :: "evmFence option \<Rightarrow> nat" where
  "fenceEpoch fence = (case fence of None \<Rightarrow> 0 | Some f \<Rightarrow> f_Epoch f)"

definition AppendAudit :: "dbCall \<Rightarrow> evmFence option \<Rightarrow> string \<Rightarrow> evmAuditEvent \<Rightarrow> unit txn_body" where
  "AppendAudit X fence chainID event = txn X (\<lambda>db.
     if fenceFails X fence db then (Inl ErrEvmLeaseNotHeld, db)
     else (Inr (), insertAudit X chainID (fenceEpoch fence) event db))"

definition lockEvidence :: "nat \<Rightarrow> evm_db \<Rightarrow> bool" where
  "lockEvidence i db \<longleftrightarrow> length (filter (\<lambda>e. e_ID e = i) (db_signed db)) = 1"

definition outcomeColumns :: "dbCall \<Rightarrow> outcomeRecord \<Rightarrow> SignerEvmStateTable \<Rightarrow> SignerEvmStateTable" where
  "outcomeColumns X out r = r\<lparr>sr_State := o_State out, sr_ResultTxHash := o_ResultTxHash out,
     sr_EvidenceTxHash := o_EvidenceTxHash out, sr_EvidenceKind := o_EvidenceKind out, sr_Reason := o_Reason out,
     sr_ReceiptBlock := o_ReceiptBlock out, sr_Source := o_Source out, sr_UpdatedAt := dc_clock X\<rparr>"

definition resolvePendingTo_txn ::
  "dbCall \<Rightarrow> evmFence option \<Rightarrow> pendingRecord \<Rightarrow> outcomeRecord option \<Rightarrow> evmAuditEvent \<Rightarrow> unit txn_body" where
  "resolvePendingTo_txn X fence pending result event db =
     (if fenceFails X fence db then (Inl ErrEvmLeaseNotHeld, db)
      else (case lockPending pending db of
        Some e \<Rightarrow> (Inl e, db)
      | None \<Rightarrow>
          let P = (\<lambda>r. sr_ID r = p_ID pending \<and> sr_TxHash r = p_TxHash pending \<and> sr_State r = RowPending) in
          if result \<noteq> None \<and> \<not> lockEvidence (p_SignedTxID pending) db then (Inl ErrEvmStateConflict, db)
          else (case (case result of
                  Some out \<Rightarrow> updateState P (\<lambda>r. (outcomeColumns X out r)\<lparr>sr_Ambiguous := False\<rparr>) db
                | None \<Rightarrow> Inr (deleteState P db)) of
               Inl e \<Rightarrow> (Inl (sql_fail e), db)
             | Inr (affected, db') \<Rightarrow>
                 if affected \<noteq> 1 then (Inl ErrEvmStateConflict, db')
                 else (Inr (), insertAudit X (p_ChainID pending) (fenceEpoch fence) event db'))))"

definition resolvePendingTo ::
  "dbCall \<Rightarrow> evmFence option \<Rightarrow> pendingRecord \<Rightarrow> outcomeRecord option \<Rightarrow> evmAuditEvent \<Rightarrow> unit txn_body" where
  "resolvePendingTo X fence pending result event = txn X (resolvePendingTo_txn X fence pending result event)"

definition ManualResolvePending :: "dbCall \<Rightarrow> pendingRecord \<Rightarrow> outcomeRecord option \<Rightarrow> evmAuditEvent \<Rightarrow> unit txn_body" where
  "ManualResolvePending X pending result event = resolvePendingTo X None pending result event"

definition AutoResolvePending ::
  "dbCall \<Rightarrow> evmFence \<Rightarrow> pendingRecord \<Rightarrow> outcomeRecord option \<Rightarrow> evmAuditEvent \<Rightarrow> unit txn_body" where
  "AutoResolvePending X fence pending result event = resolvePendingTo X (Some fence) pending result event"

definition settleOutcome_txn :: "dbCall \<Rightarrow> evmFence option \<Rightarrow> outcomeRecord \<Rightarrow> evmRowState list \<Rightarrow> outcomeRecord option
    \<Rightarrow> evmAuditEvent \<Rightarrow> unit txn_body" where
  "settleOutcome_txn X fence outcome from to event db =
     (if fenceFails X fence db then (Inl ErrEvmLeaseNotHeld, db)
      else (case filter (\<lambda>r. sr_State r \<noteq> RowPending \<and> sr_ChainID r = o_ChainID outcome \<and> sr_ID r = o_ID outcome) (db_state db) of
        [] \<Rightarrow> (Inl ErrEvmRowGone, db)
      | row # _ \<Rightarrow>
         (case checkSettleable (outcomeFromRow row) outcome from of
            Some e \<Rightarrow> (Inl e, db)
          | None \<Rightarrow>
              let P = (\<lambda>r. sr_ID r = o_ID outcome \<and> sr_State r = sr_State row) in
              if to \<noteq> None \<and> \<not> lockEvidence (sr_SignedTxID row) db then (Inl ErrEvmStateConflict, db)
              else (case (case to of Some out \<Rightarrow> updateState P (outcomeColumns X out) db | None \<Rightarrow> Inr (deleteState P db)) of
                   Inl _ \<Rightarrow> (Inl ErrDatabase, db)
                 | Inr (affected, db') \<Rightarrow>
                     if affected \<noteq> 1 then (Inl ErrEvmStateConflict, db')
                     else (Inr (), insertAudit X (o_ChainID outcome) (fenceEpoch fence) event db')))))"

definition settleOutcome :: "dbCall \<Rightarrow> evmFence option \<Rightarrow> outcomeRecord \<Rightarrow> evmRowState list \<Rightarrow> outcomeRecord option
    \<Rightarrow> evmAuditEvent \<Rightarrow> unit txn_body" where
  "settleOutcome X fence outcome from to event = txn X (settleOutcome_txn X fence outcome from to event)"

definition ManualSettleOutcome ::
  "dbCall \<Rightarrow> outcomeRecord \<Rightarrow> evmRowState list \<Rightarrow> outcomeRecord option \<Rightarrow> evmAuditEvent \<Rightarrow> unit txn_body" where
  "ManualSettleOutcome X outcome from to event = settleOutcome X None outcome from to event"

definition AutoSettleOutcome ::
  "dbCall \<Rightarrow> evmFence \<Rightarrow> outcomeRecord \<Rightarrow> evmRowState list \<Rightarrow> outcomeRecord option \<Rightarrow> evmAuditEvent \<Rightarrow> unit txn_body" where
  "AutoSettleOutcome X fence outcome from to event = settleOutcome X (Some fence) outcome from to event"

end
