(* ===== verification/Evm_Store_Spec.thy ===== *)
theory Evm_Store_Spec
  imports Evm_Store "HOL-Library.Sublist"
begin

text \<open>
  What the EVM state store promises, apart from SQL. \<open>db_trans\<close> lists the elementary transitions of the
  tables: a row is opened for freshly recorded evidence, changes without changing what it refers to,
  or is closed, each together with the audit row that names the change; evidence, audit and lease
  epochs only grow. The invariant \<open>db_inv\<close> (at most one pending row per scope, at most one active row
  per operation, every row backed by evidence that agrees with it) and the ledger (recordings =
  closings + active rows, per operation) are proved for these transitions;
  \<open>Evm_Store_Refinement\<close> shows that every method of the store, under every fault, is such a
  transition.
\<close>

section \<open>The invariant\<close>

definition row_ref :: "SignerEvmStateTable \<Rightarrow> evidenceRef" where
  "row_ref r = \<lparr>r_SignedTxID = sr_SignedTxID r, r_ChainID = sr_ChainID r, r_Scope = sr_Scope r,
     r_Operation = sr_Operation r, r_From = sr_FromAddress r, r_Nonce = sr_Nonce r, r_TxHash = sr_TxHash r\<rparr>"

definition evidence_ref :: "signedTxEvidence \<Rightarrow> evidenceRef" where
  "evidence_ref e = \<lparr>r_SignedTxID = e_ID e, r_ChainID = e_ChainID e, r_Scope = e_Scope e,
     r_Operation = e_Operation e, r_From = e_From e, r_Nonce = e_Nonce e, r_TxHash = e_TxHash e\<rparr>"

text \<open>The operation a reference is about: chain, scope and fingerprint.\<close>

definition ref_op :: "evidenceRef \<Rightarrow> string \<times> SignType \<times> hash" where
  "ref_op ref = (r_ChainID ref, r_Scope ref, r_Operation ref)"

definition row_op :: "SignerEvmStateTable \<Rightarrow> string \<times> SignType \<times> hash" where
  "row_op r = (sr_ChainID r, sr_Scope r, sr_Operation r)"

definition db_inv :: "evm_db \<Rightarrow> bool" where
  "db_inv db \<longleftrightarrow>
     distinct (map e_ID (db_signed db)) \<and> (\<forall>e \<in> set (db_signed db). e_ID e < db_nextSigned db)
   \<and> distinct (map (\<lambda>e. (e_ChainID e, e_TxHash e)) (db_signed db))
   \<and> distinct (map sr_ID (db_state db)) \<and> (\<forall>r \<in> set (db_state db). 0 < sr_ID r \<and> sr_ID r < db_nextState db)
   \<and> (\<forall>r \<in> set (db_state db). row_ref r \<in> evidence_ref ` set (db_signed db))
   \<and> (\<forall>r \<in> set (db_state db). \<forall>r' \<in> set (db_state db). sr_State r = RowPending \<and> sr_State r' = RowPending
        \<and> sr_ChainID r = sr_ChainID r' \<and> sr_Scope r = sr_Scope r' \<longrightarrow> r = r')
   \<and> distinct (map row_op (db_state db))
   \<and> distinct (map ls_ChainID (db_lease db))
   \<and> 0 < db_nextSigned db \<and> 0 < db_nextState db"

lemma db_invD:
  assumes "db_inv db"
  shows "distinct (map e_ID (db_signed db))" "\<forall>e \<in> set (db_signed db). e_ID e < db_nextSigned db"
    "distinct (map (\<lambda>e. (e_ChainID e, e_TxHash e)) (db_signed db))"
    "distinct (map sr_ID (db_state db))" "\<forall>r \<in> set (db_state db). 0 < sr_ID r \<and> sr_ID r < db_nextState db"
    "\<forall>r \<in> set (db_state db). row_ref r \<in> evidence_ref ` set (db_signed db)"
    "\<forall>r \<in> set (db_state db). \<forall>r' \<in> set (db_state db). sr_State r = RowPending \<and> sr_State r' = RowPending
        \<and> sr_ChainID r = sr_ChainID r' \<and> sr_Scope r = sr_Scope r' \<longrightarrow> r = r'"
    "distinct (map row_op (db_state db))" "distinct (map ls_ChainID (db_lease db))"
    "0 < db_nextSigned db" "0 < db_nextState db"
  using assms unfolding db_inv_def by blast+

lemma db_inv_same_id: "db_inv db \<Longrightarrow> r \<in> set (db_state db) \<Longrightarrow> r' \<in> set (db_state db) \<Longrightarrow> sr_ID r = sr_ID r' \<Longrightarrow> r = r'"
  using db_invD(4) by (auto simp: distinct_map inj_on_def)

lemma db_inv_same_op: "db_inv db \<Longrightarrow> r \<in> set (db_state db) \<Longrightarrow> r' \<in> set (db_state db) \<Longrightarrow> row_op r = row_op r' \<Longrightarrow> r = r'"
  using db_invD(8) by (auto simp: distinct_map inj_on_def)

lemma db_inv_keys_ok: "db_inv db \<Longrightarrow> keys_ok (db_state db)"
  using db_invD(7) [of db] db_inv_same_op [of db]
  by (fastforce simp: keys_ok_def key_conflict_def pending_scope_def outcome_operation_def row_op_def split: if_splits)

lemma db_inv_empty: "db_inv empty_db"
  by (simp add: db_inv_def empty_db_def)

section \<open>The ledger\<close>

text \<open>The audit rows that end the life of a row, so that its operation may be signed again. A manual
  settlement deletes the row when it leaves the outcome state of the row in the event.\<close>

fun closes :: "evmAuditName \<Rightarrow> evmRowState option \<Rightarrow> bool" where
  "closes AuditOutcomeConsumed _ = True"
| "closes AuditResolvedFailed _ = True"
| "closes AuditNotAdmittedNonceLow _ = True"
| "closes AuditNotAdmittedNonceHigh _ = True"
| "closes AuditNotAdmittedRejected _ = True"
| "closes AuditAutoResolvedFailed _ = True"
| "closes AuditAutoOutcomeFailed _ = True"
| "closes AuditAutoOutcomeSuperseded _ = True"
| "closes AuditManualResolveFailed _ = True"
| "closes AuditManualResolveOtherTxFailed _ = True"
| "closes AuditManualResolveOtherUnrelated _ = True"
| "closes AuditManualReleaseUnknown _ = True"
| "closes AuditManualDisposeOutcome _ = True"
| "closes AuditManualOutcomeResolved st = (st = Some OutcomeBlockedUnknown)"
| "closes _ _ = False"

definition event_closes :: "evmAuditEvent \<Rightarrow> bool" where
  "event_closes ev = closes (a_Event ev) (a_OutcomeState ev)"

definition event_records :: "evmAuditEvent \<Rightarrow> bool" where
  "event_records ev \<longleftrightarrow> a_Event ev = AuditRecorded"

definition event_neutral :: "evmAuditEvent \<Rightarrow> bool" where
  "event_neutral ev \<longleftrightarrow> \<not> event_closes ev \<and> \<not> event_records ev"

lemma records_not_closes: "event_records ev \<Longrightarrow> \<not> event_closes ev"
  by (auto simp: event_records_def event_closes_def)

definition audit_op :: "SignerEvmAuditTable \<Rightarrow> string \<times> SignType \<times> hash" where
  "audit_op a = (au_ChainID a, a_Scope (au_Event a), a_Operation (au_Event a))"

definition recordings :: "string \<times> SignType \<times> hash \<Rightarrow> evm_db \<Rightarrow> nat" where
  "recordings k db = length (filter (\<lambda>a. audit_op a = k \<and> event_records (au_Event a)) (db_audit db))"

definition closings :: "string \<times> SignType \<times> hash \<Rightarrow> evm_db \<Rightarrow> nat" where
  "closings k db = length (filter (\<lambda>a. audit_op a = k \<and> event_closes (au_Event a)) (db_audit db))"

definition active :: "string \<times> SignType \<times> hash \<Rightarrow> evm_db \<Rightarrow> nat" where
  "active k db = length (filter (\<lambda>r. row_op r = k) (db_state db))"

definition ledger :: "evm_db \<Rightarrow> bool" where
  "ledger db \<longleftrightarrow> (\<forall>k. recordings k db = closings k db + active k db)"

section \<open>The elementary transitions\<close>

definition lease_grows :: "SignerEvmLeaseTable list \<Rightarrow> SignerEvmLeaseTable list \<Rightarrow> bool" where
  "lease_grows ls ls' \<longleftrightarrow> (\<forall>l \<in> set ls. \<exists>l' \<in> set ls'. ls_ChainID l' = ls_ChainID l
     \<and> (ls_Epoch l < ls_Epoch l' \<or> (ls_Epoch l = ls_Epoch l' \<and> ls_Owner l = ls_Owner l')))"

inductive db_trans :: "evm_db \<Rightarrow> evm_db \<Rightarrow> bool" where
  t_counters: "db_nextSigned db \<le> n1 \<Longrightarrow> db_nextState db \<le> n2 \<Longrightarrow>
    db_trans db (db\<lparr>db_nextSigned := n1, db_nextState := n2, db_nextAudit := n3\<rparr>)"
| t_lease: "distinct (map ls_ChainID ls) \<Longrightarrow> lease_grows (db_lease db) ls \<Longrightarrow> db_trans db (db\<lparr>db_lease := ls\<rparr>)"
| t_audit: "event_neutral ev \<Longrightarrow> db_trans db (insertAudit X c ep ev db)"
| t_evidence: "\<forall>x \<in> set (db_signed db). (e_ChainID x, e_TxHash x) \<noteq> (e_ChainID e, e_TxHash e) \<Longrightarrow>
    db_trans db (db\<lparr>db_signed := db_signed db @ [e\<lparr>e_ID := db_nextSigned db\<rparr>], db_nextSigned := db_nextSigned db + 1\<rparr>)"
| t_open: "sr_ID r = db_nextState db \<Longrightarrow> sr_State r = RowPending \<Longrightarrow> row_ref r \<in> evidence_ref ` set (db_signed db) \<Longrightarrow>
    \<forall>x \<in> set (db_state db). row_op x \<noteq> row_op r
      \<and> (sr_State x = RowPending \<longrightarrow> (sr_ChainID x, sr_Scope x) \<noteq> (sr_ChainID r, sr_Scope r)) \<Longrightarrow>
    event_records ev \<Longrightarrow> (c, a_Scope ev, a_Operation ev) = row_op r \<Longrightarrow>
    db_trans db (insertAudit X c ep ev
      (db\<lparr>db_state := db_state db @ [r], db_nextState := db_nextState db + 1\<rparr>))"
| t_update: "r \<in> set (db_state db) \<Longrightarrow> sr_ID (f r) = sr_ID r \<Longrightarrow> row_ref (f r) = row_ref r \<Longrightarrow>
    sr_State (f r) = RowPending \<longrightarrow> sr_State r = RowPending \<Longrightarrow> event_neutral ev \<Longrightarrow>
    db_trans db (insertAudit X c ep ev
      (db\<lparr>db_state := map (\<lambda>x. if sr_ID x = sr_ID r then f x else x) (db_state db)\<rparr>))"
| t_close: "r \<in> set (db_state db) \<Longrightarrow> event_closes ev \<Longrightarrow> (c, a_Scope ev, a_Operation ev) = row_op r \<Longrightarrow>
    db_trans db (insertAudit X c ep ev (db\<lparr>db_state := filter (\<lambda>x. sr_ID x \<noteq> sr_ID r) (db_state db)\<rparr>))"

lemma row_ref_op: "row_op r = ref_op (row_ref r)"
  by (simp add: row_op_def ref_op_def row_ref_def)

lemma insertAudit_sel [simp]:
  "db_signed (insertAudit X c ep ev db) = db_signed db" "db_state (insertAudit X c ep ev db) = db_state db"
  "db_lease (insertAudit X c ep ev db) = db_lease db" "db_nextSigned (insertAudit X c ep ev db) = db_nextSigned db"
  "db_nextState (insertAudit X c ep ev db) = db_nextState db"
  by (simp_all add: insertAudit_def)

lemma db_inv_insertAudit [simp]: "db_inv (insertAudit X c ep ev db) = db_inv db"
  by (simp add: db_inv_def)

lemma recordings_insertAudit [simp]:
  "recordings k (insertAudit X c ep ev db) = recordings k db + of_bool ((c, a_Scope ev, a_Operation ev) = k \<and> event_records ev)"
  by (simp add: recordings_def insertAudit_def audit_op_def)

lemma closings_insertAudit [simp]:
  "closings k (insertAudit X c ep ev db) = closings k db + of_bool ((c, a_Scope ev, a_Operation ev) = k \<and> event_closes ev)"
  by (simp add: closings_def insertAudit_def audit_op_def)

lemma active_insertAudit [simp]: "active k (insertAudit X c ep ev db) = active k db"
  by (simp add: active_def)

lemma ledger_fields [simp]:
  "recordings k (db\<lparr>db_state := rs\<rparr>) = recordings k db" "closings k (db\<lparr>db_state := rs\<rparr>) = closings k db"
  "recordings k (db\<lparr>db_nextState := n\<rparr>) = recordings k db" "closings k (db\<lparr>db_nextState := n\<rparr>) = closings k db"
  "recordings k (db\<lparr>db_nextSigned := n\<rparr>) = recordings k db" "closings k (db\<lparr>db_nextSigned := n\<rparr>) = closings k db"
  "recordings k (db\<lparr>db_nextAudit := n\<rparr>) = recordings k db" "closings k (db\<lparr>db_nextAudit := n\<rparr>) = closings k db"
  "recordings k (db\<lparr>db_signed := es\<rparr>) = recordings k db" "closings k (db\<lparr>db_signed := es\<rparr>) = closings k db"
  "recordings k (db\<lparr>db_lease := ls\<rparr>) = recordings k db" "closings k (db\<lparr>db_lease := ls\<rparr>) = closings k db"
  "active k (db\<lparr>db_nextState := n\<rparr>) = active k db" "active k (db\<lparr>db_nextSigned := n\<rparr>) = active k db"
  "active k (db\<lparr>db_nextAudit := n\<rparr>) = active k db" "active k (db\<lparr>db_signed := es\<rparr>) = active k db"
  "active k (db\<lparr>db_lease := ls\<rparr>) = active k db"
  by (simp_all add: recordings_def closings_def active_def)


section \<open>The transitions keep the invariant and the ledger\<close>

lemma row_ref_eqD:
  assumes "row_ref r = row_ref r'"
  shows "sr_ChainID r = sr_ChainID r'" "sr_Scope r = sr_Scope r'" "row_op r = row_op r'" "sr_TxHash r = sr_TxHash r'"
    "sr_SignedTxID r = sr_SignedTxID r'"
  using assms by (simp_all add: row_ref_def row_op_def)

lemma db_inv_map:
  assumes inv: "db_inv db"
    and g: "\<And>x. x \<in> set (db_state db) \<Longrightarrow>
      sr_ID (g x) = sr_ID x \<and> row_ref (g x) = row_ref x \<and> (sr_State (g x) = RowPending \<longrightarrow> sr_State x = RowPending)"
  shows "db_inv (db\<lparr>db_state := map g (db_state db)\<rparr>)"
proof -
  note d = db_invD [OF inv]
  have op: "row_op (g x) = row_op x" if "x \<in> set (db_state db)" for x
    using g [OF that] row_ref_eqD(3) [of "g x" x] by simp
  have ids: "map (sr_ID \<circ> g) (db_state db) = map sr_ID (db_state db)" using g by simp
  have ops: "map (row_op \<circ> g) (db_state db) = map row_op (db_state db)" using op by simp
  have uniq: "g r = g r'" if "r \<in> set (db_state db)" "r' \<in> set (db_state db)" "sr_State (g r) = RowPending"
    "sr_State (g r') = RowPending" "sr_ChainID (g r) = sr_ChainID (g r')" "sr_Scope (g r) = sr_Scope (g r')" for r r'
  proof -
    have "sr_State r = RowPending" "sr_State r' = RowPending" "sr_ChainID r = sr_ChainID r'" "sr_Scope r = sr_Scope r'"
      using that g [OF that(1)] g [OF that(2)] row_ref_eqD(1,2) [of "g r" r] row_ref_eqD(1,2) [of "g r'" r'] by auto
    then show ?thesis using d(7) that(1,2) by blast
  qed
  have "\<forall>r \<in> set (db_state db). 0 < sr_ID (g r) \<and> sr_ID (g r) < db_nextState db \<and> row_ref (g r) \<in> evidence_ref ` set (db_signed db)"
    using g d(5,6) by simp
  then show ?thesis
    using d(1-4) d(8-11) uniq by (auto simp: db_inv_def ids ops)
qed

lemma db_inv_filter: "db_inv db \<Longrightarrow> db_inv (db\<lparr>db_state := filter P (db_state db)\<rparr>)"
  by (auto simp: db_inv_def distinct_map_filter)

lemma update_only:
  assumes "db_inv db" "r \<in> set (db_state db)" "x \<in> set (db_state db)"
  shows "(if sr_ID x = sr_ID r then f x else x) = (if x = r then f r else x)"
  using db_inv_same_id [OF assms(1,3,2)] by auto

lemma active_filter:
  assumes "db_inv db" "r \<in> set (db_state db)"
  shows "active k db = active k (db\<lparr>db_state := filter (\<lambda>x. sr_ID x \<noteq> sr_ID r) (db_state db)\<rparr>) + of_bool (row_op r = k)"
proof -
  have dist: "distinct (db_state db)" using db_invD(4) [OF assms(1)] by (simp add: distinct_map)
  have "filter (\<lambda>x. row_op x = k) (filter (\<lambda>x. sr_ID x \<noteq> sr_ID r) (db_state db))
      = remove1 r (filter (\<lambda>x. row_op x = k) (db_state db))"
    unfolding filter_filter using db_inv_same_id [OF assms(1) _ assms(2)] assms(2) dist
    by (subst distinct_remove1_removeAll) (auto simp: removeAll_filter_not_eq intro!: filter_cong)
  moreover have "row_op r = k \<Longrightarrow> 0 < length (filter (\<lambda>x. row_op x = k) (db_state db))"
    using assms(2) length_pos_if_in_set [of r "filter (\<lambda>x. row_op x = k) (db_state db)"] by simp
  ultimately show ?thesis by (auto simp: active_def length_remove1 remove1_idem assms(2))
qed

lemma db_trans_inv: "db_trans db db' \<Longrightarrow> db_inv db \<Longrightarrow> db_inv db'"
proof (induction rule: db_trans.induct)
  case (t_update r db f ev X c ep)
  have "db_inv (db\<lparr>db_state := map (\<lambda>x. if sr_ID x = sr_ID r then f x else x) (db_state db)\<rparr>)"
    by (rule db_inv_map [OF t_update.prems])
       (use t_update.hyps update_only [OF t_update.prems t_update.hyps(1)] in \<open>auto split: if_splits\<close>)
  then show ?case by simp
next
  case (t_close r db ev c X ep)
  then show ?case using db_inv_filter by simp
next
  case (t_open r db ev c X ep)
  then show ?case by (auto simp: db_inv_def less_Suc_eq)
next
  case (t_evidence db e)
  have "evidence_ref ` set (db_signed db) \<subseteq> evidence_ref ` set (db_signed db @ [e\<lparr>e_ID := db_nextSigned db\<rparr>])" by auto
  with t_evidence show ?case by (auto simp: db_inv_def less_Suc_eq)
qed (auto simp: db_inv_def)

lemma db_trans_ledger: "db_trans db db' \<Longrightarrow> db_inv db \<Longrightarrow> ledger db \<Longrightarrow> ledger db'"
proof (induction rule: db_trans.induct)
  case (t_update r db f ev X c ep)
  have "active k (db\<lparr>db_state := map (\<lambda>x. if sr_ID x = sr_ID r then f x else x) (db_state db)\<rparr>) = active k db" for k
  proof -
    have "row_op (if sr_ID x = sr_ID r then f x else x) = row_op x" if "x \<in> set (db_state db)" for x
      using update_only [OF t_update.prems(1) t_update.hyps(1) that, of f] t_update.hyps(3) row_ref_eqD(3) [of "f r" r] by simp
    then show ?thesis by (simp add: active_def filter_map comp_def cong: filter_cong)
  qed
  then show ?case using t_update by (simp add: ledger_def event_neutral_def)
next
  case (t_close r db ev c X ep)
  then show ?case
    using active_filter [OF t_close.prems(1) t_close.hyps(1)] records_not_closes [of ev]
    by (auto simp: ledger_def)
next
  case (t_open r db ev c X ep)
  have "active k (db\<lparr>db_state := db_state db @ [r], db_nextState := db_nextState db + 1\<rparr>)
      = active k db + of_bool (row_op r = k)" for k by (simp add: active_def)
  then show ?case using t_open records_not_closes [of ev] by (auto simp: ledger_def)
qed (auto simp: ledger_def event_neutral_def)

text \<open>At most one active row per operation, so at most one recording without its closing.\<close>

lemma active_le_1:
  assumes "db_inv db"
  shows "active k db \<le> 1"
proof -
  let ?F = "filter (\<lambda>r. row_op r = k) (db_state db)"
  have "length (map row_op ?F) = card (set (map row_op ?F))"
    using distinct_map_filter [OF db_invD(8) [OF assms]] by (simp only: distinct_card)
  also have "\<dots> \<le> card {k}" by (rule card_mono) auto
  finally show ?thesis by (simp add: active_def)
qed


section \<open>What only grows, and what other processes cannot change\<close>

definition db_grows :: "evm_db \<Rightarrow> evm_db \<Rightarrow> bool" where
  "db_grows db db' \<longleftrightarrow> prefix (db_signed db) (db_signed db') \<and> prefix (db_audit db) (db_audit db')
     \<and> db_nextSigned db \<le> db_nextSigned db' \<and> db_nextState db \<le> db_nextState db' \<and> lease_grows (db_lease db) (db_lease db')"

lemma lease_grows_refl [simp]: "lease_grows ls ls"
  by (auto simp: lease_grows_def)

lemma lease_growsE:
  assumes "lease_grows a b" "l \<in> set a"
  obtains l' where "l' \<in> set b" "ls_ChainID l' = ls_ChainID l"
    "ls_Epoch l < ls_Epoch l' \<or> (ls_Epoch l = ls_Epoch l' \<and> ls_Owner l = ls_Owner l')"
  using assms unfolding lease_grows_def by blast

lemma lease_grows_trans:
  assumes "lease_grows a b" "lease_grows b c"
  shows "lease_grows a c"
  unfolding lease_grows_def
proof
  fix l assume "l \<in> set a"
  then obtain l1 where l1: "l1 \<in> set b" "ls_ChainID l1 = ls_ChainID l"
    "ls_Epoch l < ls_Epoch l1 \<or> (ls_Epoch l = ls_Epoch l1 \<and> ls_Owner l = ls_Owner l1)" by (rule lease_growsE [OF assms(1)])
  obtain l2 where "l2 \<in> set c" "ls_ChainID l2 = ls_ChainID l1"
    "ls_Epoch l1 < ls_Epoch l2 \<or> (ls_Epoch l1 = ls_Epoch l2 \<and> ls_Owner l1 = ls_Owner l2)"
    by (rule lease_growsE [OF assms(2) l1(1)])
  with l1 show "\<exists>l' \<in> set c. ls_ChainID l' = ls_ChainID l
     \<and> (ls_Epoch l < ls_Epoch l' \<or> (ls_Epoch l = ls_Epoch l' \<and> ls_Owner l = ls_Owner l'))" by auto
qed

lemma db_grows_refl [simp]: "db_grows db db"
  by (simp add: db_grows_def)

lemma db_grows_trans: "db_grows a b \<Longrightarrow> db_grows b c \<Longrightarrow> db_grows a c"
  by (auto simp: db_grows_def intro: prefix_order.trans lease_grows_trans)

lemma prefix_insertAudit [simp]: "prefix (db_audit db) (db_audit (insertAudit X c ep ev db))"
  by (simp add: insertAudit_def)

lemma insertAudit_state [simp]:
  "db_audit (insertAudit X c ep ev (db\<lparr>db_state := rs\<rparr>)) = db_audit (insertAudit X c ep ev db)"
  "db_audit (insertAudit X c ep ev (db\<lparr>db_state := rs, db_nextState := n\<rparr>)) = db_audit (insertAudit X c ep ev db)"
  by (simp_all add: insertAudit_def)

lemma db_trans_grows: "db_trans db db' \<Longrightarrow> db_grows db db'"
  by (induction rule: db_trans.induct) (simp_all add: db_grows_def)

text \<open>A row id, once given out, always means the same transaction.\<close>

definition known :: "evm_db \<Rightarrow> nat \<Rightarrow> evidenceRef \<Rightarrow> bool" where
  "known db i ref \<longleftrightarrow> 0 < i \<and> i < db_nextState db \<and> ref \<in> evidence_ref ` set (db_signed db)
     \<and> (\<forall>r \<in> set (db_state db). sr_ID r = i \<longrightarrow> row_ref r = ref)"

lemma known_row: "db_inv db \<Longrightarrow> r \<in> set (db_state db) \<Longrightarrow> known db (sr_ID r) (row_ref r)"
  using db_invD(5,6) [of db] db_inv_same_id [of db _ r] unfolding known_def by blast

lemma db_trans_known:
  assumes "db_trans db db'" "db_inv db" "known db i ref"
  shows "known db' i ref"
proof -
  have "prefix (db_signed db) (db_signed db')" "db_nextState db \<le> db_nextState db'"
    using db_trans_grows [OF assms(1)] by (simp_all add: db_grows_def)
  then have "ref \<in> evidence_ref ` set (db_signed db')" "i < db_nextState db'"
    using assms(3) set_mono_prefix [of "db_signed db" "db_signed db'"] by (auto simp: known_def)
  moreover from assms have "\<forall>r \<in> set (db_state db'). sr_ID r = i \<longrightarrow> row_ref r = ref"
  proof (induction rule: db_trans.induct)
    case (t_update r db f ev X c ep)
    show ?case
    proof (intro ballI impI)
      fix y assume y: "y \<in> set (db_state (insertAudit X c ep ev
        (db\<lparr>db_state := map (\<lambda>x. if sr_ID x = sr_ID r then f x else x) (db_state db)\<rparr>)))" "sr_ID y = i"
      then obtain x where x: "x \<in> set (db_state db)" "y = (if sr_ID x = sr_ID r then f x else x)" by auto
      then have "y = (if x = r then f r else x)" using update_only [OF t_update.prems(1) t_update.hyps(1) x(1), of f] by simp
      then have "row_ref y = row_ref x" "sr_ID y = sr_ID x" using t_update.hyps(2,3) by (simp_all split: if_splits)
      then show "row_ref y = ref" using y(2) x(1) t_update.prems(2) by (simp add: known_def)
    qed
  qed (auto simp: known_def)
  ultimately show ?thesis using assms(3) by (simp add: known_def)
qed

text \<open>A fence below the current epoch of its chain never passes the fencing check again.\<close>

definition stale :: "evm_db \<Rightarrow> evmFence \<Rightarrow> bool" where
  "stale db fence \<longleftrightarrow> (\<exists>l \<in> set (db_lease db). ls_ChainID l = f_ChainID fence \<and> f_Epoch fence < ls_Epoch l)"

lemma stale_grows:
  assumes "db_grows db db'" "stale db fence"
  shows "stale db' fence"
proof -
  obtain l where l: "l \<in> set (db_lease db)" "ls_ChainID l = f_ChainID fence" "f_Epoch fence < ls_Epoch l"
    using assms(2) by (auto simp: stale_def)
  have "lease_grows (db_lease db) (db_lease db')" using assms(1) by (simp add: db_grows_def)
  then obtain l' where "l' \<in> set (db_lease db')" "ls_ChainID l' = ls_ChainID l" "ls_Epoch l \<le> ls_Epoch l'"
    using l(1) by (rule lease_growsE) auto
  with l show ?thesis by (auto simp: stale_def)
qed

lemma fenceCheck_iff:
  assumes "db_inv db"
  shows "fenceCheck X fence db \<longleftrightarrow> (\<exists>l \<in> set (db_lease db). ls_ChainID l = f_ChainID fence \<and> ls_Owner l = f_Owner fence
     \<and> ls_Epoch l = f_Epoch fence \<and> dc_now X < ls_ExpiresAt l)"
proof -
  let ?F = "filter (\<lambda>l. ls_ChainID l = f_ChainID fence) (db_lease db)"
  have "length (map ls_ChainID ?F) = card (set (map ls_ChainID ?F))"
    using distinct_map_filter [OF db_invD(9) [OF assms]] by (simp only: distinct_card)
  also have "\<dots> \<le> card {f_ChainID fence}" by (rule card_mono) auto
  finally consider "?F = []" | l where "?F = [l]" by (cases ?F; cases "tl ?F") auto
  then show ?thesis
  proof cases
    case 1
    then show ?thesis by (auto simp: fenceCheck_def filter_empty_conv)
  next
    case 2
    from arg_cong [where f = set, OF this]
    have "{l \<in> set (db_lease db). ls_ChainID l = f_ChainID fence} = {l}" by simp
    with 2 show ?thesis by (auto simp: fenceCheck_def)
  qed
qed

lemma stale_fence:
  assumes "db_inv db" "stale db fence"
  shows "\<not> fenceCheck X fence db"
proof -
  obtain l where l: "l \<in> set (db_lease db)" "ls_ChainID l = f_ChainID fence" "f_Epoch fence < ls_Epoch l"
    using assms(2) by (auto simp: stale_def)
  have inj: "inj_on ls_ChainID (set (db_lease db))" using db_invD(9) [OF assms(1)] by (simp add: distinct_map)
  show ?thesis
  proof
    assume "fenceCheck X fence db"
    then obtain l' where l': "l' \<in> set (db_lease db)" "ls_ChainID l' = f_ChainID fence" "ls_Epoch l' = f_Epoch fence"
      using fenceCheck_iff [OF assms(1)] by blast
    then have "l' = l" using inj_onD [OF inj _ l'(1) l(1)] l(2) by simp
    then show False using l(3) l'(3) by simp
  qed
qed

end
