(* ===== verification/Evm_Store_Refinement.thy ===== *)
theory Evm_Store_Refinement
  imports Evm_Store_Spec
begin

text \<open>
  The methods of the SQL store implement the transitions of \<open>Evm_Store_Spec\<close>: under every fault, a call
  is a sequence of \<open>db_trans\<close> steps of the tables. The calls are those the signer and the
  \<open>signer-evm\<close> command make; what they are asked to respect (\<open>store_step\<close>) is that the evidence and
  the pending row recorded together describe one transaction, that a row is named by what was read
  from it, and which audit event goes with which change.
\<close>

abbreviation db_steps :: "evm_db \<Rightarrow> evm_db \<Rightarrow> bool" where
  "db_steps \<equiv> db_trans\<^sup>*\<^sup>*"

lemma db_steps_inv: "db_steps db db' \<Longrightarrow> db_inv db \<Longrightarrow> db_inv db'"
  by (induction rule: rtranclp_induct) (auto intro: db_trans_inv)

lemma db_steps_grows: "db_steps db db' \<Longrightarrow> db_grows db db'"
  by (induction rule: rtranclp_induct) (auto intro: db_grows_trans db_trans_grows)

lemma db_steps_ledger: "db_steps db db' \<Longrightarrow> db_inv db \<Longrightarrow> ledger db \<Longrightarrow> ledger db'"
  by (induction rule: rtranclp_induct) (auto intro: db_trans_ledger db_steps_inv)

lemma db_steps_known: "db_steps db db' \<Longrightarrow> db_inv db \<Longrightarrow> known db i ref \<Longrightarrow> known db' i ref"
  by (induction rule: rtranclp_induct) (auto intro: db_trans_known db_steps_inv)

section \<open>Statements on one row\<close>

lemma updateState_single:
  assumes inv: "db_inv db" and r: "r \<in> set (db_state db)" and P: "\<And>x. x \<in> set (db_state db) \<Longrightarrow> P x \<longleftrightarrow> x = r"
    and f: "sr_ID (f r) = sr_ID r" "row_ref (f r) = row_ref r" "sr_State (f r) = RowPending \<longrightarrow> sr_State r = RowPending"
  shows "updateState P f db = Inr (of_bool (f r \<noteq> r),
    db\<lparr>db_state := map (\<lambda>x. if sr_ID x = sr_ID r then f x else x) (db_state db)\<rparr>)"
proof -
  have eq: "map (\<lambda>x. if P x then f x else x) (db_state db) = map (\<lambda>x. if sr_ID x = sr_ID r then f x else x) (db_state db)"
    using P db_inv_same_id [OF inv _ r] by (auto intro!: map_cong)
  have "db_inv (db\<lparr>db_state := map (\<lambda>x. if P x then f x else x) (db_state db)\<rparr>)"
    by (rule db_inv_map [OF inv]) (use P f in auto)
  then have ok: "keys_ok (map (\<lambda>x. if P x then f x else x) (db_state db))" using db_inv_keys_ok by fastforce
  have "distinct (db_state db)" using db_invD(4) [OF inv] by (simp add: distinct_map)
  then have "filter (\<lambda>x. x = r) (db_state db) = [r]" using r by (rule filter_single)
  moreover have "filter (\<lambda>x. P x \<and> f x \<noteq> x) (db_state db) = filter (\<lambda>x. f x \<noteq> x) (filter (\<lambda>x. x = r) (db_state db))"
    using P by (auto intro!: filter_cong)
  ultimately have "length (filter (\<lambda>x. P x \<and> f x \<noteq> x) (db_state db)) = of_bool (f r \<noteq> r)" by simp
  then show ?thesis using ok unfolding updateState_def Let_def eq by simp
qed

lemma deleteState_single:
  assumes inv: "db_inv db" and r: "r \<in> set (db_state db)" and P: "\<And>x. x \<in> set (db_state db) \<Longrightarrow> P x \<longleftrightarrow> x = r"
  shows "deleteState P db = (1, db\<lparr>db_state := filter (\<lambda>x. sr_ID x \<noteq> sr_ID r) (db_state db)\<rparr>)"
proof -
  have "distinct (db_state db)" using db_invD(4) [OF inv] by (simp add: distinct_map)
  then have "filter (\<lambda>x. x = r) (db_state db) = [r]" using r by (rule filter_single)
  moreover have "filter P (db_state db) = filter (\<lambda>x. x = r) (db_state db)" using P by (auto intro!: filter_cong)
  moreover have "filter (\<lambda>x. \<not> P x) (db_state db) = filter (\<lambda>x. sr_ID x \<noteq> sr_ID r) (db_state db)"
    using P db_inv_same_id [OF inv _ r] by (auto intro!: filter_cong)
  ultimately show ?thesis by (simp add: deleteState_def)
qed

lemma pending_ref_row: "pending_ref (pendingFromRow r) = row_ref r"
  by (simp add: pending_ref_def pendingFromRow_def row_ref_def)

lemma outcome_ref_row: "outcome_ref (outcomeFromRow r) = row_ref r"
  by (simp add: outcome_ref_def outcomeFromRow_def row_ref_def)

lemma lockPending_NoneE:
  assumes "lockPending p db = None"
  obtains r where "r \<in> set (db_state db)" "sr_State r = RowPending" "sr_ID r = p_ID p" "sr_TxHash r = p_TxHash p"
    "sr_ChainID r = p_ChainID p" "sr_Scope r = p_Scope p"
proof -
  obtain r rs where rs: "pendingRows (p_ChainID p) (p_Scope p) db = r # rs"
    using assms by (auto simp: lockPending_def split: list.splits)
  then have "r \<in> set (pendingRows (p_ChainID p) (p_Scope p) db)" by simp
  then show ?thesis using that assms rs by (auto simp: lockPending_def pendingRows_def split: if_splits)
qed

section \<open>Audit events\<close>

lemma pending_audit_sel [simp]:
  "a_Event (pending_audit p n) = n" "a_Scope (pending_audit p n) = p_Scope p"
  "a_Operation (pending_audit p n) = p_Operation p" "a_TxHash (pending_audit p n) = p_TxHash p"
  by (simp_all add: pending_audit_def emptyAudit_def)

lemma outcome_audit_sel [simp]:
  "a_Event (outcome_audit out n) = n" "a_Scope (outcome_audit out n) = o_Scope out"
  "a_Operation (outcome_audit out n) = o_Operation out" "a_OutcomeID (outcome_audit out n) = Some (o_ID out)"
  "a_OutcomeState (outcome_audit out n) = Some (o_State out)"
  by (simp_all add: outcome_audit_def emptyAudit_def)

lemma terminalEvent_sel [simp]:
  "a_Event (terminalEvent p t out n) = n" "a_Scope (terminalEvent p t out n) = p_Scope p"
  "a_Operation (terminalEvent p t out n) = p_Operation p" "a_TxHash (terminalEvent p t out n) = p_TxHash p"
  by (simp_all add: terminalEvent_def Let_def split: option.splits)

lemma emptyAudit_sel [simp]: "a_Event (emptyAudit n) = n"
  by (simp add: emptyAudit_def)

lemmas event_defs = event_closes_def event_records_def event_neutral_def

section \<open>Transactions\<close>

definition refines :: "'a txn_body \<Rightarrow> evm_db \<Rightarrow> bool" where
  "refines fn db \<longleftrightarrow> (case fn db of
     (Inl e, db') \<Rightarrow> db_nextSigned db \<le> db_nextSigned db' \<and> db_nextState db \<le> db_nextState db'
   | (Inr a, db') \<Rightarrow> db_steps db db')"

lemma rollback_steps:
  "db_nextSigned db \<le> db_nextSigned db' \<Longrightarrow> db_nextState db \<le> db_nextState db' \<Longrightarrow> db_steps db (rollback db db')"
  unfolding rollback_def by (intro r_into_rtranclp t_counters)

lemma txn_refines:
  assumes "refines fn db"
  shows "db_steps db (snd (txn X fn db))"
proof -
  obtain r db' where fn: "fn db = (r, db')" by force
  have "db_steps db (rollback db db')"
    using assms fn db_steps_grows [of db db'] rollback_steps [of db db']
    by (cases r) (auto simp: refines_def db_grows_def)
  then show ?thesis
    using assms fn by (cases r; cases "dc_fault X") (auto simp: txn_def refines_def)
qed

lemma insertAudit_state_commute:
  "insertAudit X c ep ev (db\<lparr>db_state := rs\<rparr>) = (insertAudit X c ep ev db)\<lparr>db_state := rs\<rparr>"
  by (simp add: insertAudit_def)

text \<open>Two audit rows with one change: the first is neutral.\<close>

lemma close_after_audit:
  assumes "event_neutral e1" "r \<in> set (db_state db)" "event_closes e2" "(c, a_Scope e2, a_Operation e2) = row_op r"
  shows "db_steps db (insertAudit X c ep e2 (insertAudit X c ep e1
    (db\<lparr>db_state := filter (\<lambda>x. sr_ID x \<noteq> sr_ID r) (db_state db)\<rparr>)))"
proof -
  have "db_trans (insertAudit X c ep e1 db) (insertAudit X c ep e2 ((insertAudit X c ep e1 db)\<lparr>db_state :=
      filter (\<lambda>x. sr_ID x \<noteq> sr_ID r) (db_state (insertAudit X c ep e1 db))\<rparr>))"
    by (rule t_close) (use assms in auto)
  moreover have "db_steps db (insertAudit X c ep e1 db)" by (rule r_into_rtranclp, rule t_audit, rule assms(1))
  ultimately show ?thesis by (simp add: insertAudit_state_commute rtranclp.rtrancl_into_rtrancl)
qed

section \<open>Each method\<close>

lemma refines_fail: "fn db = (Inl e, db) \<Longrightarrow> refines fn db"
  by (simp add: refines_def)

lemma createState_InrD:
  assumes "createState row db = Inr (i, db')"
  shows "i = db_nextState db" "db' = db\<lparr>db_state := db_state db @ [row\<lparr>sr_ID := i\<rparr>], db_nextState := i + 1\<rparr>"
    "\<forall>x \<in> set (db_state db). \<not> key_conflict (row\<lparr>sr_ID := i\<rparr>) x" "sr_SignedTxID row \<in> e_ID ` set (db_signed db)"
  using assms by (auto simp: createState_def Let_def split: if_splits)

text \<open>Recording a pending row for evidence that agrees with it.\<close>

lemma recordPending_refines:
  assumes inv: "db_inv db" and ev: "pending_ref p \<in> evidence_ref ` set (db_signed db)"
    and none: "outcomeRows (p_ChainID p) (p_Scope p) (p_Operation p) db = []"
  shows "refines (recordPending X fence p) db"
proof (cases "recordPending X fence p db")
  case (Pair res db')
  show ?thesis
  proof (cases res)
    case Inl
    then show ?thesis using Pair
      by (auto simp: refines_def recordPending_def Let_def split: sum.splits prod.splits)
  next
    case (Inr q)
    define row where "row = \<lparr>sr_ID = 0, sr_SignedTxID = p_SignedTxID p, sr_ChainID = p_ChainID p,
          sr_Scope = p_Scope p, sr_Operation = p_Operation p, sr_FromAddress = p_From p,
          sr_Nonce = p_Nonce p, sr_TxHash = p_TxHash p, sr_ResultTxHash = 0, sr_State = RowPending,
          sr_EvidenceTxHash = [], sr_EvidenceKind = [], sr_Reason = [], sr_ReceiptBlock = 0, sr_Source = SourceNone,
          sr_Ambiguous = False, sr_LeaseEpoch = f_Epoch fence, sr_UpdatedAt = dc_clock X, sr_CreatedAt = dc_clock X\<rparr>"
    obtain i db1 where c: "createState row db = Inr (i, db1)"
      and db': "db' = insertAudit X (p_ChainID p) (f_Epoch fence)
        (pending_audit (p\<lparr>p_ID := i, p_LeaseEpoch := f_Epoch fence\<rparr>) AuditRecorded) db1"
      using Pair Inr by (auto simp: recordPending_def row_def Let_def split: sum.splits)
    note cs = createState_InrD [OF c]
    have noconf: "row_op x \<noteq> row_op row \<and> (sr_State x = RowPending \<longrightarrow> (sr_ChainID x, sr_Scope x) \<noteq> (sr_ChainID row, sr_Scope row))"
      if x: "x \<in> set (db_state db)" for x
    proof -
      have "sr_ID x < i" using db_invD(5) [OF inv] x cs(1) by simp
      then have "\<not> (sr_State x = RowPending \<and> sr_ChainID x = p_ChainID p \<and> sr_Scope x = p_Scope p)"
        using cs(3) x by (auto simp: key_conflict_def pending_scope_def row_def)
      moreover have "\<not> (sr_State x \<noteq> RowPending \<and> row_op x = row_op row)"
        using none x by (auto simp: outcomeRows_def filter_empty_conv row_op_def row_def)
      ultimately show ?thesis by (auto simp: row_op_def row_def)
    qed
    have "db_trans db (insertAudit X (p_ChainID p) (f_Epoch fence)
        (pending_audit (p\<lparr>p_ID := i, p_LeaseEpoch := f_Epoch fence\<rparr>) AuditRecorded)
        (db\<lparr>db_state := db_state db @ [row\<lparr>sr_ID := i\<rparr>], db_nextState := db_nextState db + 1\<rparr>))"
      by (rule t_open)
         (use noconf ev cs(1) in \<open>auto simp: row_def row_op_def event_defs row_ref_def pending_ref_def\<close>)
    then show ?thesis using Pair Inr db' cs(1,2) by (simp add: refines_def r_into_rtranclp)
  qed
qed


lemma refines_step:
  assumes "db_trans db db1" "refines fn db1" "fn' db = fn db1"
  shows "refines fn' db"
proof -
  have "db_grows db db1" by (rule db_trans_grows [OF assms(1)])
  then show ?thesis
    using assms by (auto simp: refines_def db_grows_def split: prod.splits sum.splits
        intro: converse_rtranclp_into_rtranclp le_trans)
qed

definition describes :: "signedTxEvidence \<Rightarrow> pendingRecord \<Rightarrow> bool" where
  "describes ev p \<longleftrightarrow> e_ChainID ev = p_ChainID p \<and> e_Scope ev = p_Scope p \<and> e_Operation ev = p_Operation p
     \<and> e_From ev = p_From p \<and> e_Nonce ev = p_Nonce p \<and> e_TxHash ev = p_TxHash p"

lemma Record_refines:
  assumes inv: "db_inv db" and d: "describes ev p"
  shows "refines (Record_txn X fence ev p) db"
proof (cases "\<not> fenceCheck X fence db \<or> outcomeRows (p_ChainID p) (p_Scope p) (p_Operation p) db \<noteq> []")
  case True
  then show ?thesis by (auto simp: refines_def Record_txn_def)
next
  case False
  let ?F = "filter (\<lambda>e. e_ChainID e = e_ChainID ev \<and> e_TxHash e = e_TxHash ev) (db_signed db)"
  show ?thesis
  proof (cases ?F)
    case (Cons e es)
    then have e: "e \<in> set (db_signed db)" using Cons_eq_filterD [OF Cons [symmetric]] by auto
    show ?thesis
    proof (cases "sameEvidence e ev")
      case True
      then have "pending_ref (p\<lparr>p_SignedTxID := e_ID e\<rparr>) = evidence_ref e"
        using d by (simp add: pending_ref_def evidence_ref_def sameEvidence_def describes_def)
      then have "refines (recordPending X fence (p\<lparr>p_SignedTxID := e_ID e\<rparr>)) db"
        using e False by (intro recordPending_refines [OF inv]) auto
      then show ?thesis using False Cons True by (simp add: refines_def Record_txn_def)
    next
      case False
      then show ?thesis using Cons \<open>\<not> (\<not> fenceCheck X fence db \<or> _)\<close> by (simp add: refines_def Record_txn_def)
    qed
  next
    case Nil
    let ?e = "ev\<lparr>e_LeaseEpoch := f_Epoch fence\<rparr>"
    let ?i = "db_nextSigned db"
    let ?db1 = "db\<lparr>db_signed := db_signed db @ [?e\<lparr>e_ID := ?i\<rparr>], db_nextSigned := ?i + 1\<rparr>"
    have step: "db_trans db ?db1" by (rule t_evidence) (use Nil in \<open>auto simp: filter_empty_conv\<close>)
    have "pending_ref (p\<lparr>p_SignedTxID := ?i\<rparr>) = evidence_ref (?e\<lparr>e_ID := ?i\<rparr>)"
      using d by (simp add: pending_ref_def evidence_ref_def describes_def)
    then have "refines (recordPending X fence (p\<lparr>p_SignedTxID := ?i\<rparr>)) ?db1"
      using False by (intro recordPending_refines db_trans_inv [OF step inv]) (auto simp: outcomeRows_def)
    moreover have "createSigned ?e db = Inr (?i, ?db1)"
      using Nil by (auto simp: createSigned_def Let_def filter_empty_conv)
    then have "Record_txn X fence ev p db = recordPending X fence (p\<lparr>p_SignedTxID := ?i\<rparr>) ?db1"
      using False Nil by (simp add: Record_txn_def)
    ultimately show ?thesis by (rule refines_step [OF step])
  qed
qed

text \<open>A pending row that passes \<open>lockPending\<close> for a record read from the table is the row it names.\<close>

lemma locked_row:
  assumes "db_inv db" "known db (p_ID p) (pending_ref p)" "lockPending p db = None"
  obtains r where "r \<in> set (db_state db)" "sr_State r = RowPending" "sr_ID r = p_ID p" "row_ref r = pending_ref p"
    "\<And>x. x \<in> set (db_state db) \<Longrightarrow> sr_ID x = p_ID p \<and> sr_TxHash x = p_TxHash p \<longleftrightarrow> x = r"
    "row_op r = (p_ChainID p, p_Scope p, p_Operation p)"
proof -
  obtain r where r: "r \<in> set (db_state db)" "sr_State r = RowPending" "sr_ID r = p_ID p" "sr_TxHash r = p_TxHash p"
    by (rule lockPending_NoneE [OF assms(3)]) blast
  have ref: "row_ref r = pending_ref p" using assms(2) r(1,3) by (simp add: known_def)
  then have "row_op r = (p_ChainID p, p_Scope p, p_Operation p)" by (simp add: row_ref_op ref_op_def pending_ref_def)
  moreover have "sr_ID x = p_ID p \<and> sr_TxHash x = p_TxHash p \<longleftrightarrow> x = r" if "x \<in> set (db_state db)" for x
    using db_inv_same_id [OF assms(1) that r(1)] r(3,4) by auto
  ultimately show ?thesis using that r ref by blast
qed

lemma update_trans:
  assumes "db_inv db" "r \<in> set (db_state db)" "\<And>x. x \<in> set (db_state db) \<Longrightarrow> P x \<longleftrightarrow> x = r"
    and "sr_ID (f r) = sr_ID r" "row_ref (f r) = row_ref r" "sr_State (f r) = RowPending \<longrightarrow> sr_State r = RowPending"
    and "event_neutral ev"
  obtains n db1 where "updateState P f db = Inr (n, db1)" "n \<le> 1" "f r \<noteq> r \<Longrightarrow> n = 1"
    "db_trans db (insertAudit X c ep ev db1)"
  using that [OF updateState_single [where P = P and f = f, OF assms(1-6)] _ _ t_update [where f = f, OF assms(2,4-7)]]
  by simp

lemma delete_trans:
  assumes "db_inv db" "r \<in> set (db_state db)" "\<And>x. x \<in> set (db_state db) \<Longrightarrow> P x \<longleftrightarrow> x = r"
    and "event_closes ev" "(c, a_Scope ev, a_Operation ev) = row_op r"
  obtains db1 where "deleteState P db = (1, db1)" "db_trans db (insertAudit X c ep ev db1)"
    "\<forall>e1. event_neutral e1 \<longrightarrow> db_steps db (insertAudit X c ep ev (insertAudit X c ep e1 db1))"
  using that [OF deleteState_single [OF assms(1-3)] t_close [OF assms(2,4,5)]] close_after_audit [OF _ assms(2,4,5)] by blast

lemma MarkAmbiguous_refines:
  assumes inv: "db_inv db" and k: "known db (p_ID p) (pending_ref p)"
  shows "refines (MarkAmbiguous_txn X fence p) db"
proof (cases "fenceCheck X fence db \<and> lockPending p db = None")
  case True
  then have "lockPending p db = None" by simp
  then obtain r where r: "r \<in> set (db_state db)"
    "\<And>x. x \<in> set (db_state db) \<Longrightarrow> sr_ID x = p_ID p \<and> sr_TxHash x = p_TxHash p \<longleftrightarrow> x = r"
    by (rule locked_row [OF inv k]) blast
  let ?f = "\<lambda>r. r\<lparr>sr_Ambiguous := True, sr_UpdatedAt := dc_clock X\<rparr>"
  obtain n db1 where "updateState (\<lambda>x. sr_ID x = p_ID p \<and> sr_TxHash x = p_TxHash p) ?f db = Inr (n, db1)"
    "db_trans db (insertAudit X (p_ChainID p) (f_Epoch fence) (pending_audit p AuditMarkedAmbiguous) db1)"
    by (rule update_trans [OF inv r, of ?f "pending_audit p AuditMarkedAmbiguous"]) (auto simp: row_ref_def event_defs)
  then show ?thesis using True by (simp add: refines_def MarkAmbiguous_txn_def r_into_rtranclp)
next
  case False
  then show ?thesis by (auto simp: refines_def MarkAmbiguous_txn_def split: option.splits)
qed


lemma counters_grow:
  assumes "db_trans db (insertAudit X c ep ev db1)"
  shows "db_nextSigned db \<le> db_nextSigned db1" "db_nextState db \<le> db_nextState db1"
  using db_trans_grows [OF assms] by (simp_all add: db_grows_def)

lemma ResolvePending_refines:
  assumes inv: "db_inv db" and k: "known db (p_ID p) (pending_ref p)"
  shows "refines (ResolvePending_txn X fence p t) db"
proof (cases "fenceCheck X fence db \<and> lockPending p db = None")
  case True
  then have "lockPending p db = None" by simp
  then obtain r where r: "r \<in> set (db_state db)" "sr_State r = RowPending"
    "\<And>x. x \<in> set (db_state db) \<Longrightarrow> sr_ID x = p_ID p \<and> sr_TxHash x = p_TxHash p \<longleftrightarrow> x = r"
    "row_op r = (p_ChainID p, p_Scope p, p_Operation p)"
    by (rule locked_row [OF inv k]) blast
  let ?P = "\<lambda>x. sr_ID x = p_ID p \<and> sr_TxHash x = p_TxHash p"
  let ?ev = "terminalEvent p t"
  show ?thesis
  proof (cases "pt_Kind t = TerminalSuccessKeep")
    case keep: True
    let ?f = "\<lambda>r. r\<lparr>sr_State := OutcomeSucceeded, sr_ResultTxHash := p_TxHash p,
       sr_ReceiptBlock := pt_ReceiptBlock t, sr_Source := pt_Source t, sr_UpdatedAt := dc_clock X\<rparr>"
    have "sr_State (?f r) \<noteq> sr_State r" using r(2) by simp
    then have ne: "?f r \<noteq> r" by metis
    obtain n db1 where n: "updateState ?P ?f db = Inr (n, db1)" "?f r \<noteq> r \<Longrightarrow> n = 1"
      and tr: "db_trans db (insertAudit X (p_ChainID p) (f_Epoch fence) (?ev (Some (keptOutcome p t)) AuditResolvedSuccess) db1)"
      by (rule update_trans [OF inv r(1,3), of ?f "?ev (Some (keptOutcome p t)) AuditResolvedSuccess"])
         (simp_all add: row_ref_def event_defs)
    from n(1) n(2) [OF ne] have u: "updateState ?P ?f db = Inr (1, db1)" by simp
    have "db_trans (insertAudit X (p_ChainID p) (f_Epoch fence) (?ev (Some (keptOutcome p t)) AuditResolvedSuccess) db1)
       (insertAudit X (p_ChainID p) (f_Epoch fence) (?ev (Some (keptOutcome p t)) AuditOutcomeCreated)
          (insertAudit X (p_ChainID p) (f_Epoch fence) (?ev (Some (keptOutcome p t)) AuditResolvedSuccess) db1))"
      by (rule t_audit) (simp add: event_defs)
    then show ?thesis using True keep u tr
      by (simp add: refines_def ResolvePending_txn_def Let_def) (meson converse_rtranclp_into_rtranclp r_into_rtranclp)
  next
    case False
    have op: "(p_ChainID p, a_Scope (?ev None n), a_Operation (?ev None n)) = row_op r" for n using r(4) by simp
    have cl: "event_closes (?ev None (doneEvent (pt_Kind t)))"
      using False by (cases "pt_Kind t") (simp_all add: event_defs)
    obtain db1 where d: "deleteState ?P db = (1, db1)"
      "db_trans db (insertAudit X (p_ChainID p) (f_Epoch fence) (?ev None (doneEvent (pt_Kind t))) db1)"
      "\<forall>e1. event_neutral e1 \<longrightarrow> db_steps db (insertAudit X (p_ChainID p) (f_Epoch fence) (?ev None (doneEvent (pt_Kind t)))
         (insertAudit X (p_ChainID p) (f_Epoch fence) e1 db1))"
      by (rule delete_trans [where X = X and ep = "f_Epoch fence", OF inv r(1,3) cl op]) blast
    show ?thesis
      using True False d(1,2) spec [OF d(3), of "?ev None AuditResolvedSuccess"]
      by (cases "pt_Kind t") (simp_all add: refines_def ResolvePending_txn_def Let_def r_into_rtranclp event_defs)
  qed
next
  case False
  then show ?thesis by (auto simp: refines_def ResolvePending_txn_def split: option.splits)
qed

lemma ConsumeOutcome_refines:
  assumes inv: "db_inv db" and k: "known db (o_ID out) (outcome_ref out)"
  shows "refines (ConsumeOutcome_txn X fence out) db"
proof (cases "fenceCheck X fence db \<and> (\<exists>r rs. filter (\<lambda>r. sr_ID r = o_ID out) (db_state db) = r # rs
    \<and> sr_State r = OutcomeSucceeded \<and> sr_ChainID r = o_ChainID out \<and> sr_Scope r = o_Scope out
    \<and> sr_Operation r = o_Operation out)")
  case True
  then obtain r rs where f: "filter (\<lambda>r. sr_ID r = o_ID out) (db_state db) = r # rs" "sr_State r = OutcomeSucceeded"
    "row_op r = (o_ChainID out, o_Scope out, o_Operation out)" by (auto simp: row_op_def)
  have r: "r \<in> set (db_state db)" "sr_ID r = o_ID out" using Cons_eq_filterD [OF f(1) [symmetric]] by auto
  have P: "sr_ID x = o_ID out \<and> sr_State x = OutcomeSucceeded \<longleftrightarrow> x = r" if "x \<in> set (db_state db)" for x
    using db_inv_same_id [OF inv that r(1)] r(2) f(2) by auto
  obtain db1 where "deleteState (\<lambda>x. sr_ID x = o_ID out \<and> sr_State x = OutcomeSucceeded) db = (1, db1)"
    "db_trans db (insertAudit X (o_ChainID out) (f_Epoch fence) (outcome_audit out AuditOutcomeConsumed) db1)"
    by (rule delete_trans [OF inv r(1) P, of "outcome_audit out AuditOutcomeConsumed" "o_ChainID out"])
       (simp_all add: event_defs f(3))
  then show ?thesis using True f(1) by (auto simp: refines_def ConsumeOutcome_txn_def r_into_rtranclp)
next
  case False
  then show ?thesis
    by (cases "filter (\<lambda>r. sr_ID r = o_ID out) (db_state db)") (auto simp: refines_def ConsumeOutcome_txn_def)
qed

lemma AppendAudit_refines:
  "event_neutral ev \<Longrightarrow> refines (\<lambda>db. if fenceFails X fence db then (Inl ErrEvmLeaseNotHeld, db)
     else (Inr (), insertAudit X c (fenceEpoch fence) ev db)) db"
  by (auto simp: refines_def intro: r_into_rtranclp t_audit)


text \<open>Which event goes with ending a row: a closing event of the row's operation with a deletion, a
  neutral event with a change into an outcome.\<close>

definition event_fits :: "evidenceRef \<Rightarrow> outcomeRecord option \<Rightarrow> evmAuditEvent \<Rightarrow> bool" where
  "event_fits ref res ev \<longleftrightarrow> (case res of
     None \<Rightarrow> event_closes ev \<and> a_Scope ev = r_Scope ref \<and> a_Operation ev = r_Operation ref
   | Some out \<Rightarrow> event_neutral ev \<and> o_State out \<noteq> RowPending)"

lemma outcomeColumns_sel [simp]:
  "sr_ID (outcomeColumns X out r) = sr_ID r" "sr_State (outcomeColumns X out r) = o_State out"
  "row_ref (outcomeColumns X out r) = row_ref r"
  by (simp_all add: outcomeColumns_def row_ref_def)

lemma row_ref_ambiguous [simp]: "row_ref (r\<lparr>sr_Ambiguous := b\<rparr>) = row_ref r"
  by (simp add: row_ref_def)

lemma resolvePendingTo_refines:
  assumes inv: "db_inv db" and k: "known db (p_ID p) (pending_ref p)" and ev: "event_fits (pending_ref p) res ev"
  shows "refines (resolvePendingTo_txn X fence p res ev) db"
proof (cases "\<not> fenceFails X fence db \<and> lockPending p db = None \<and> (res = None \<or> lockEvidence (p_SignedTxID p) db)")
  case True
  then have "lockPending p db = None" by simp
  then obtain r where r: "r \<in> set (db_state db)" "sr_State r = RowPending"
    "\<And>x. x \<in> set (db_state db) \<Longrightarrow> sr_ID x = p_ID p \<and> sr_TxHash x = p_TxHash p \<longleftrightarrow> x = r"
    "row_op r = (p_ChainID p, p_Scope p, p_Operation p)"
    by (rule locked_row [OF inv k]) blast
  let ?P = "\<lambda>x. sr_ID x = p_ID p \<and> sr_TxHash x = p_TxHash p \<and> sr_State x = RowPending"
  have P: "?P x \<longleftrightarrow> x = r" if "x \<in> set (db_state db)" for x using r(2) r(3) [OF that] by auto
  show ?thesis
  proof (cases res)
    case None
    then have ec: "event_closes ev" "(p_ChainID p, a_Scope ev, a_Operation ev) = row_op r"
      using ev r(4) by (simp_all add: event_fits_def pending_ref_def)
    obtain db1 where "deleteState ?P db = (1, db1)" "db_trans db (insertAudit X (p_ChainID p) (fenceEpoch fence) ev db1)"
      by (rule delete_trans [where P = ?P and X = X and ep = "fenceEpoch fence", OF inv r(1) P ec]) blast
    then show ?thesis using True None by (simp add: refines_def resolvePendingTo_txn_def r_into_rtranclp)
  next
    case (Some out)
    let ?f = "\<lambda>r. (outcomeColumns X out r)\<lparr>sr_Ambiguous := False\<rparr>"
    have n: "event_neutral ev" "o_State out \<noteq> RowPending" using ev Some by (simp_all add: event_fits_def)
    obtain n db1 where "updateState ?P ?f db = Inr (n, db1)"
      "db_trans db (insertAudit X (p_ChainID p) (fenceEpoch fence) ev db1)"
      by (rule update_trans [OF inv r(1) P, of ?f ev]) (simp_all add: n)
    then show ?thesis using True Some counters_grow [of db X "p_ChainID p" "fenceEpoch fence" ev db1]
      by (simp add: refines_def resolvePendingTo_txn_def r_into_rtranclp)
  qed
next
  case False
  then show ?thesis by (auto simp: refines_def resolvePendingTo_txn_def Let_def split: option.splits)
qed

lemma settleOutcome_refines:
  assumes inv: "db_inv db" and k: "known db (o_ID out) (outcome_ref out)" and ev: "event_fits (outcome_ref out) res ev"
  shows "refines (settleOutcome_txn X fence out from res ev) db"
proof (cases "filter (\<lambda>r. sr_State r \<noteq> RowPending \<and> sr_ChainID r = o_ChainID out \<and> sr_ID r = o_ID out) (db_state db)")
  case Nil
  then show ?thesis by (auto simp: refines_def settleOutcome_txn_def)
next
  case (Cons r rs)
  have r: "r \<in> set (db_state db)" "sr_ID r = o_ID out" using Cons_eq_filterD [OF Cons [symmetric]] by auto
  have op: "row_op r = (o_ChainID out, o_Scope out, o_Operation out)"
    using k r by (simp add: known_def row_ref_op ref_op_def outcome_ref_def)
  let ?P = "\<lambda>x. sr_ID x = o_ID out \<and> sr_State x = sr_State r"
  have P: "?P x \<longleftrightarrow> x = r" if "x \<in> set (db_state db)" for x using db_inv_same_id [OF inv that r(1)] r(2) by auto
  show ?thesis
  proof (cases res)
    case None
    then have ec: "event_closes ev" "(o_ChainID out, a_Scope ev, a_Operation ev) = row_op r"
      using ev op by (simp_all add: event_fits_def outcome_ref_def)
    obtain db1 where "deleteState ?P db = (1, db1)" "db_trans db (insertAudit X (o_ChainID out) (fenceEpoch fence) ev db1)"
      by (rule delete_trans [where P = ?P and X = X and ep = "fenceEpoch fence", OF inv r(1) P ec]) blast
    then show ?thesis using Cons None by (simp add: refines_def settleOutcome_txn_def r_into_rtranclp split: option.splits)
  next
    case (Some out')
    have n: "event_neutral ev" "o_State out' \<noteq> RowPending" using ev Some by (simp_all add: event_fits_def)
    obtain n db1 where "updateState ?P (outcomeColumns X out') db = Inr (n, db1)"
      "db_trans db (insertAudit X (o_ChainID out) (fenceEpoch fence) ev db1)"
      by (rule update_trans [OF inv r(1) P, of "outcomeColumns X out'" ev]) (simp_all add: n)
    then show ?thesis using Cons Some counters_grow [of db X "o_ChainID out" "fenceEpoch fence" ev db1]
      by (simp add: refines_def settleOutcome_txn_def Let_def r_into_rtranclp split: option.splits)
  qed
qed

section \<open>The lease\<close>

lemma lease_single:
  assumes "distinct (map ls_ChainID ls)" "filter (\<lambda>l. ls_ChainID l = c) ls = [l]" "x \<in> set ls" "ls_ChainID x = c"
  shows "x = l"
proof -
  have "x \<in> set (filter (\<lambda>l. ls_ChainID l = c) ls)" using assms(3,4) by simp
  then show ?thesis unfolding assms(2) by simp
qed

lemma lease_map:
  assumes "\<And>l. l \<in> set ls \<Longrightarrow> ls_ChainID (f l) = ls_ChainID l \<and> (ls_Epoch l < ls_Epoch (f l)
      \<or> (ls_Epoch l = ls_Epoch (f l) \<and> ls_Owner l = ls_Owner (f l)))"
  shows "lease_grows ls (map f ls)" "distinct (map ls_ChainID ls) \<Longrightarrow> distinct (map ls_ChainID (map f ls))"
proof -
  show "lease_grows ls (map f ls)" using assms by (auto simp: lease_grows_def)
  have "map (ls_ChainID \<circ> f) ls = map ls_ChainID ls" using assms by simp
  then show "distinct (map ls_ChainID ls) \<Longrightarrow> distinct (map ls_ChainID (map f ls))" by (simp only: map_map)
qed

lemma lease_append: "lease_grows ls (ls @ ls')"
  by (auto simp: lease_grows_def)

lemma AcquireLease_refines:
  assumes inv: "db_inv db"
  shows "refines (AcquireLease_txn X c owner ttl) db"
proof -
  define ls where "ls = (if \<exists>l \<in> set (db_lease db). ls_ChainID l = c then db_lease db
    else db_lease db @ [\<lparr>ls_ChainID = c, ls_Owner = [], ls_Epoch = 0, ls_ExpiresAt = releasedAt\<rparr>])"
  have d: "distinct (map ls_ChainID ls)" using db_invD(9) [OF inv] by (auto simp: ls_def)
  have g: "lease_grows (db_lease db) ls" using lease_append by (simp add: ls_def)
  have t1: "db_trans db (db\<lparr>db_lease := ls\<rparr>)" by (rule t_lease [OF d g])
  show ?thesis
  proof (cases "\<exists>l. filter (\<lambda>l. ls_ChainID l = c) ls = [l] \<and> (ls_ExpiresAt l < dc_now X \<or> ls_Owner l = owner)")
    case False
    then show ?thesis using t1
      by (auto simp: refines_def AcquireLease_txn_def Let_def ls_def [symmetric] split: list.splits)
  next
    case True
    then obtain l where l: "filter (\<lambda>l. ls_ChainID l = c) ls = [l]" "ls_ExpiresAt l < dc_now X \<or> ls_Owner l = owner" by auto
    let ?f = "\<lambda>x. if ls_ChainID x = c then x\<lparr>ls_Owner := owner, ls_Epoch := ls_Epoch l + 1, ls_ExpiresAt := dc_now X + ttl\<rparr> else x"
    have st: "ls_ChainID (?f x) = ls_ChainID x \<and> (ls_Epoch x < ls_Epoch (?f x)
      \<or> (ls_Epoch x = ls_Epoch (?f x) \<and> ls_Owner x = ls_Owner (?f x)))" if "x \<in> set ls" for x
      using lease_single [OF d l(1) that] by simp
    have m1: "lease_grows ls (map ?f ls)" by (rule lease_map(1)) (rule st)
    have m2: "distinct (map ls_ChainID (map ?f ls))" by (rule lease_map(2) [OF _ d]) (rule st)
    have t2: "db_trans db (db\<lparr>db_lease := map ?f ls\<rparr>)" by (rule t_lease [OF m2 lease_grows_trans [OF g m1]])
    have "db_trans (db\<lparr>db_lease := map ?f ls\<rparr>) (insertAudit X c (ls_Epoch l + 1) (emptyAudit AuditLeaseAcquired)
      (db\<lparr>db_lease := map ?f ls\<rparr>))" by (rule t_audit) (simp add: event_defs)
    then have "db_steps db (insertAudit X c (ls_Epoch l + 1) (emptyAudit AuditLeaseAcquired) (db\<lparr>db_lease := map ?f ls\<rparr>))"
      using t2 by (meson converse_rtranclp_into_rtranclp r_into_rtranclp)
    then show ?thesis using l
      by (auto simp: refines_def AcquireLease_txn_def Let_def ls_def [symmetric] cong: if_cong)
  qed
qed

lemma statement_steps: "db_trans db (snd (f db)) \<Longrightarrow> db_steps db (snd (statement X f db))"
  by (auto simp: statement_def split: txnFault.splits prod.splits)

lemma RenewLease_steps: "db_inv db \<Longrightarrow> db_steps db (snd (RenewLease X fence ttl db))"
  unfolding RenewLease_def Let_def
  by (rule statement_steps, simp, rule t_lease) (rule lease_map; simp add: db_invD)+

lemma ReleaseLease_steps: "db_inv db \<Longrightarrow> db_steps db (snd (ReleaseLease X fence db))"
  unfolding ReleaseLease_def
  by (rule statement_steps, simp, rule t_lease) (rule lease_map; simp add: db_invD)+

end
