(* ===== verification/Evm_Store_Safety.thy ===== *)
theory Evm_Store_Safety
  imports Evm_Store_Refinement
begin

text \<open>
  Safety of the EVM state store: the calls the signer and the \<open>signer-evm\<close> command make as a step
  relation (\<open>store_step\<close>, any interleaving of any number of processes, any fault in any call), and the
  properties of every database such steps can reach.
\<close>

inductive store_step :: "evm_db \<Rightarrow> evm_db \<Rightarrow> bool" where
  s_acquire: "store_step db (snd (AcquireLease X c owner ttl db))"
| s_renew: "store_step db (snd (RenewLease X fence ttl db))"
| s_release: "store_step db (snd (ReleaseLease X fence db))"
| s_record: "describes ev p \<Longrightarrow> store_step db (snd (Record X fence ev p db))"
| s_ambiguous: "known db (p_ID p) (pending_ref p) \<Longrightarrow> store_step db (snd (MarkAmbiguous X fence p db))"
| s_resolve: "known db (p_ID p) (pending_ref p) \<Longrightarrow> store_step db (snd (ResolvePending X fence p t db))"
| s_consume: "known db (o_ID out) (outcome_ref out) \<Longrightarrow> store_step db (snd (ConsumeOutcome X fence out db))"
| s_audit: "event_neutral ev \<Longrightarrow> store_step db (snd (AppendAudit X fenceo c ev db))"
| s_auto_resolve: "known db (p_ID p) (pending_ref p) \<Longrightarrow> event_fits (pending_ref p) res ev \<Longrightarrow>
    store_step db (snd (AutoResolvePending X fence p res ev db))"
| s_manual_resolve: "known db (p_ID p) (pending_ref p) \<Longrightarrow> event_fits (pending_ref p) res ev \<Longrightarrow>
    store_step db (snd (ManualResolvePending X p res ev db))"
| s_auto_settle: "known db (o_ID out) (outcome_ref out) \<Longrightarrow> event_fits (outcome_ref out) res ev \<Longrightarrow>
    store_step db (snd (AutoSettleOutcome X fence out from res ev db))"
| s_manual_settle: "known db (o_ID out) (outcome_ref out) \<Longrightarrow> event_fits (outcome_ref out) res ev \<Longrightarrow>
    store_step db (snd (ManualSettleOutcome X out from res ev db))"

inductive_cases store_stepE: "store_step db db'"

lemmas txn_method_defs = AcquireLease_def Record_def MarkAmbiguous_def ResolvePending_def ConsumeOutcome_def
  AppendAudit_def AutoResolvePending_def ManualResolvePending_def resolvePendingTo_def AutoSettleOutcome_def
  ManualSettleOutcome_def settleOutcome_def

lemmas txn_refinements = AcquireLease_refines Record_refines MarkAmbiguous_refines ResolvePending_refines
  ConsumeOutcome_refines AppendAudit_refines resolvePendingTo_refines settleOutcome_refines

lemma store_step_refines: "store_step db db' \<Longrightarrow> db_inv db \<Longrightarrow> db_steps db db'"
  by (induction rule: store_step.induct)
     (auto simp: txn_method_defs intro!: txn_refines txn_refinements RenewLease_steps ReleaseLease_steps)

abbreviation store_steps :: "evm_db \<Rightarrow> evm_db \<Rightarrow> bool" where
  "store_steps \<equiv> store_step\<^sup>*\<^sup>*"

lemma store_steps_refine: "store_steps db db' \<Longrightarrow> db_inv db \<Longrightarrow> db_steps db db'"
proof (induction rule: rtranclp_induct)
  case (step y z)
  then show ?case using store_step_refines db_steps_inv by (meson rtranclp_trans)
qed simp

lemma store_reach_inv: "store_steps empty_db db \<Longrightarrow> db_inv db"
  using store_steps_refine db_inv_empty db_steps_inv by blast

lemma store_reach_ledger:
  assumes "store_steps empty_db db"
  shows "ledger db"
proof -
  have "ledger empty_db" by (simp add: ledger_def recordings_def closings_def active_def empty_db_def)
  then show ?thesis using store_steps_refine [OF assms db_inv_empty] db_inv_empty by (rule db_steps_ledger [rotated 2])
qed

text \<open>The tables a failed transaction leaves alone.\<close>

definition same_tables :: "evm_db \<Rightarrow> evm_db \<Rightarrow> bool" where
  "same_tables db db' \<longleftrightarrow> db_signed db' = db_signed db \<and> db_state db' = db_state db \<and> db_lease db' = db_lease db
     \<and> db_audit db' = db_audit db"

lemma same_tables_refl [simp]: "same_tables db db"
  by (simp add: same_tables_def)

lemma same_tables_rollback [simp]: "same_tables db (rollback db db')"
  by (simp add: same_tables_def rollback_def)

definition refused :: "evm_db \<Rightarrow> (evm_error + 'a) \<times> evm_db \<Rightarrow> bool" where
  "refused db res \<longleftrightarrow> (\<exists>e. fst res = Inl e) \<and> same_tables db (snd res)"

lemma refused_txn: "fst (fn db) = Inl e \<Longrightarrow> refused db (txn X fn db)"
  by (auto simp: refused_def txn_def split: txnFault.splits prod.splits sum.splits)

lemma unfenced_refused:
  assumes "\<not> fenceCheck X f db"
  shows "refused db (Record X f ev p db)" "refused db (MarkAmbiguous X f p db)" "refused db (ResolvePending X f p t db)"
    "refused db (ConsumeOutcome X f out db)" "refused db (AppendAudit X (Some f) c ev' db)"
    "refused db (AutoResolvePending X f p res ev' db)" "refused db (AutoSettleOutcome X f out from res ev' db)"
  using assms unfolding txn_method_defs
  by (auto intro!: refused_txn simp: Record_txn_def MarkAmbiguous_txn_def ResolvePending_txn_def ConsumeOutcome_txn_def
      fenceFails_def resolvePendingTo_txn_def settleOutcome_txn_def)

lemma active_pos_iff: "0 < active (c, s, op) db \<longleftrightarrow>
   (\<exists>r \<in> set (db_state db). sr_ChainID r = c \<and> sr_Scope r = s \<and> sr_Operation r = op)"
  by (auto simp: active_def row_op_def filter_empty_conv)

lemma GetPending_None_iff: "GetPending c s db = None \<longleftrightarrow> pendingRows c s db = []"
  by (simp add: GetPending_def split: list.split)

lemma Record_txn_refused:
  assumes inv: "db_inv db"
    and "0 < active (p_ChainID p, p_Scope p, p_Operation p) db \<or> GetPending (p_ChainID p) (p_Scope p) db \<noteq> None"
  shows "fst (Record_txn X f ev p db) = Inl ErrEvmLeaseNotHeld \<or> fst (Record_txn X f ev p db) = Inl ErrEvmStateConflict"
proof (cases "outcomeRows (p_ChainID p) (p_Scope p) (p_Operation p) db = []")
  case True
  then have "pendingRows (p_ChainID p) (p_Scope p) db \<noteq> []"
    using assms(2) unfolding GetPending_None_iff
    by (auto simp: active_pos_iff outcomeRows_def pendingRows_def filter_empty_conv)
  then obtain r where r: "r \<in> set (db_state db)" "sr_State r = RowPending" "sr_ChainID r = p_ChainID p" "sr_Scope r = p_Scope p"
    by (auto simp: pendingRows_def filter_empty_conv)
  have dup: "fst (recordPending X f q db') = Inl ErrEvmStateConflict"
    if "p_ChainID q = p_ChainID p" "p_Scope q = p_Scope p" "db_state db' = db_state db" "db_nextState db' = db_nextState db" for q db'
  proof -
    have "sr_ID r \<noteq> db_nextState db" using db_invD(5) [OF inv] r(1) by auto
    then have "key_conflict (row\<lparr>sr_ID := db_nextState db\<rparr>) r"
      if "sr_ChainID row = p_ChainID p" "sr_Scope row = p_Scope p" "sr_State row = RowPending" for row
      using r that by (simp add: key_conflict_def pending_scope_def)
    then have "createState row db' = Inl DuplicateEntry"
      if "sr_ChainID row = p_ChainID p" "sr_Scope row = p_Scope p" "sr_State row = RowPending" for row
      using r(1) that \<open>db_state db' = _\<close> \<open>db_nextState db' = _\<close> unfolding createState_def Let_def by auto
    then show ?thesis using that by (simp add: recordPending_def sql_fail_def isDuplicateKey_def)
  qed
  show ?thesis
    using dup True unfolding Record_txn_def createSigned_def
    by (auto simp: Let_def sql_fail_def isDuplicateKey_def split: list.split)
next
  case False
  then show ?thesis by (simp add: Record_txn_def)
qed


section \<open>A concrete history\<close>

definition ex_call :: dbCall where
  "ex_call = \<lparr>dc_now = 5000000, dc_clock = 5, dc_fault = NoFault\<rparr>"

definition ex_chain :: string where
  "ex_chain = ''moca_5151-1''"

definition ex_ev :: signedTxEvidence where
  "ex_ev = \<lparr>e_ID = 0, e_ChainID = ex_chain, e_EvmChainID = 5151, e_Scope = ''seal'', e_Operation = 77, e_From = 9,
     e_Nonce = 4, e_TxHash = 1234, e_Raw = [1, 2, 3], e_RecordedBlock = 100, e_LeaseEpoch = 0\<rparr>"

definition ex_pending :: pendingRecord where
  "ex_pending = \<lparr>p_ID = 0, p_ChainID = ex_chain, p_SignedTxID = 0, p_Scope = ''seal'', p_From = 9, p_Nonce = 4,
     p_TxHash = 1234, p_Operation = 77, p_Ambiguous = False, p_LeaseEpoch = 0\<rparr>"

definition ex_fence :: evmFence where
  "ex_fence = \<lparr>f_ChainID = ex_chain, f_Owner = ''A'', f_Epoch = 1\<rparr>"

definition ex_leased :: evm_db where
  "ex_leased = snd (AcquireLease ex_call ex_chain ''A'' 30000000 empty_db)"

definition ex_recorded :: evm_db where
  "ex_recorded = snd (Record ex_call ex_fence ex_ev ex_pending ex_leased)"

definition ex_kept :: pendingTerminal where
  "ex_kept = \<lparr>pt_Kind = TerminalSuccessKeep, pt_ReceiptStatus = Some 1, pt_ReceiptBlock = 101, pt_Source = SourceResolve\<rparr>"

definition ex_row :: pendingRecord where
  "ex_row = ex_pending\<lparr>p_ID := 1, p_SignedTxID := 1, p_LeaseEpoch := 1\<rparr>"

definition ex_done :: evm_db where
  "ex_done = snd (ResolvePending ex_call ex_fence ex_row ex_kept ex_recorded)"

lemma ex_leased_reach: "store_steps empty_db ex_leased"
  unfolding ex_leased_def by (intro r_into_rtranclp s_acquire)

lemma ex_recorded_reach: "store_steps empty_db ex_recorded"
  unfolding ex_recorded_def
  by (rule rtranclp.rtrancl_into_rtrancl [OF ex_leased_reach s_record]) (simp add: describes_def ex_ev_def ex_pending_def)

lemma ex_recorded_state: "db_nextState ex_recorded = 2 \<and> map sr_ID (db_state ex_recorded) = [1]
    \<and> map row_ref (db_state ex_recorded) = [pending_ref ex_row]"
  by code_simp

lemma ex_known: "known ex_recorded 1 (pending_ref ex_row)"
proof -
  obtain r where r: "db_state ex_recorded = [r]" "sr_ID r = 1" "row_ref r = pending_ref ex_row"
    using ex_recorded_state by auto
  then show ?thesis using known_row [OF store_reach_inv [OF ex_recorded_reach], of r] by simp
qed

lemma ex_done_reach: "store_steps empty_db ex_done"
  unfolding ex_done_def
  by (rule rtranclp.rtrancl_into_rtrancl [OF ex_recorded_reach s_resolve]) (use ex_known in \<open>simp add: ex_row_def\<close>)

section \<open>Properties\<close>

text \<open>C1: The ledger of operations. In every database that any interleaving of signers and operators
  can reach, with any statement failing, any COMMIT of unknown result and any lease changing hands, an
  operation was recorded for signing exactly as often as its recordings were closed (consumed, failed,
  refused, superseded or released) plus one if it is still active; and at most one recording is active.
  So an operation is only ever signed again after its previous transaction was closed in the audit.\<close>

theorem evm_ledger:
  assumes "store_steps empty_db db"
  shows "recordings (chain, scope, operation) db = closings (chain, scope, operation) db + active (chain, scope, operation) db
    \<and> active (chain, scope, operation) db \<le> 1"
  using store_reach_ledger [OF assms] active_le_1 [OF store_reach_inv [OF assms]] by (simp add: ledger_def)

theorem evm_ledger_witness:
  "recordings (ex_chain, ''seal'', 77) ex_done = closings (ex_chain, ''seal'', 77) ex_done + active (ex_chain, ''seal'', 77) ex_done
    \<and> active (ex_chain, ''seal'', 77) ex_done = 1"
proof -
  have "active (ex_chain, ''seal'', 77) ex_done = 1" by code_simp
  then show ?thesis using evm_ledger [OF ex_done_reach] by simp
qed

lemma GetSignedTx_mem:
  assumes "db_inv db" "e \<in> set (db_signed db)"
  shows "GetSignedTx (e_ID e) db = Some e"
proof -
  have d: "distinct (map e_ID (db_signed db))" by (rule db_invD(1) [OF assms(1)])
  have "filter (\<lambda>x. e_ID x = e_ID e) (db_signed db) = filter (\<lambda>x. x = e) (db_signed db)"
  proof (rule filter_cong)
    fix x assume "x \<in> set (db_signed db)"
    then show "(e_ID x = e_ID e) = (x = e)" using inj_onD [of e_ID "set (db_signed db)" x e] d assms(2) by (auto simp: distinct_map)
  qed simp
  also have "\<dots> = [e]" using d assms(2) by (simp add: distinct_map filter_single)
  finally show ?thesis by (simp add: GetSignedTx_def)
qed

text \<open>C15: Consistency of the tables. In every reachable database a scope has at most one pending row, an
  operation at most one active row (pending or outcome), every row's evidence exists and agrees with it
  in chain, scope, operation, sender, nonce and hash, and a chain has at most one evidence row per hash.\<close>

theorem evm_store_consistent:
  assumes "store_steps empty_db db"
  shows "length (pendingRows chain scope db) \<le> 1
    \<and> length (filter (\<lambda>r. sr_ChainID r = chain \<and> sr_Scope r = scope \<and> sr_Operation r = op) (db_state db)) \<le> 1
    \<and> list_all (\<lambda>r. \<exists>e. GetSignedTx (sr_SignedTxID r) db = Some e \<and> evidence_ref e = row_ref r) (db_state db)
    \<and> distinct (map (\<lambda>e. (e_ChainID e, e_TxHash e)) (db_signed db))"
proof -
  note inv = store_reach_inv [OF assms]
  note d = db_invD [OF inv]
  have "distinct (pendingRows chain scope db)"
    using d(4) unfolding pendingRows_def by (simp add: distinct_map)
  then have "length (pendingRows chain scope db) \<le> 1"
    by (rule length_le_1) (use d(7) in \<open>simp add: pendingRows_def\<close>)
  moreover have "length (filter (\<lambda>r. sr_ChainID r = chain \<and> sr_Scope r = scope \<and> sr_Operation r = op) (db_state db)) \<le> 1"
    using active_le_1 [OF inv, of "(chain, scope, op)"] by (simp add: active_def row_op_def)
  moreover have "\<exists>e. GetSignedTx (sr_SignedTxID r) db = Some e \<and> evidence_ref e = row_ref r" if r: "r \<in> set (db_state db)" for r
  proof -
    obtain e where e: "e \<in> set (db_signed db)" "evidence_ref e = row_ref r" using d(6) r by (auto simp: image_iff)
    then have "e_ID e = sr_SignedTxID r" by (simp add: evidence_ref_def row_ref_def)
    then show ?thesis using GetSignedTx_mem [OF inv e(1)] e(2) by simp
  qed
  ultimately show ?thesis using d(3) by (simp add: list_all_iff)
qed

theorem evm_store_consistent_witness:
  "length (pendingRows ex_chain ''seal'' ex_recorded) \<le> 1 \<and> pendingRows ex_chain ''seal'' ex_recorded \<noteq> []
    \<and> list_all (\<lambda>r. \<exists>e. GetSignedTx (sr_SignedTxID r) ex_recorded = Some e \<and> evidence_ref e = row_ref r) (db_state ex_recorded)"
proof -
  have "pendingRows ex_chain ''seal'' ex_recorded \<noteq> []" by code_simp
  then show ?thesis using evm_store_consistent [OF ex_recorded_reach] by blast
qed

text \<open>C2: No second signature while the first may still run. In every reachable database, if the operation
  has an active row (a pending submission, or an outcome of any state) or its scope has a pending row,
  \<open>Record\<close> refuses: it returns an error and leaves every table as it was, whatever the fence and the fault.\<close>

theorem record_refused_while_active:
  assumes "store_steps empty_db db"
    and "0 < active (p_ChainID p, p_Scope p, p_Operation p) db \<or> GetPending (p_ChainID p) (p_Scope p) db \<noteq> None"
  shows "refused db (Record X f ev p db)"
proof -
  obtain e where "fst (Record_txn X f ev p db) = Inl e"
    using Record_txn_refused [OF store_reach_inv [OF assms(1)] assms(2)] by blast
  then show ?thesis unfolding Record_def by (rule refused_txn)
qed

theorem record_refused_while_active_witness:
  "refused ex_done (Record ex_call ex_fence ex_ev ex_pending ex_done)"
proof -
  have "0 < active (p_ChainID ex_pending, p_Scope ex_pending, p_Operation ex_pending) ex_done" by code_simp
  then show ?thesis by (intro record_refused_while_active [OF ex_done_reach] disjI1)
qed


lemma txn_InrD: "txn X fn db = (Inr a, db') \<Longrightarrow> dc_fault X = NoFault \<and> fn db = (Inr a, db')"
  by (auto simp: txn_def split: txnFault.splits prod.splits sum.splits)

lemma AcquireLease_acquired:
  assumes "AcquireLease X c owner ttl db = (Inr (epoch, True), db')"
  obtains l where "l \<in> set (db_lease db')" "ls_ChainID l = c" "ls_Epoch l = epoch" "ls_Owner l = owner"
    "ls_ExpiresAt l = dc_now X + ttl"
proof -
  have t: "AcquireLease_txn X c owner ttl db = (Inr (epoch, True), db')"
    using txn_InrD [OF assms [unfolded AcquireLease_def]] by simp
  define ls where "ls = (if \<exists>l \<in> set (db_lease db). ls_ChainID l = c then db_lease db
    else db_lease db @ [\<lparr>ls_ChainID = c, ls_Owner = [], ls_Epoch = 0, ls_ExpiresAt = releasedAt\<rparr>])"
  obtain l where l: "filter (\<lambda>l. ls_ChainID l = c) ls = [l]" "epoch = ls_Epoch l + 1"
    "db_lease db' = map (\<lambda>x. if ls_ChainID x = c then x\<lparr>ls_Owner := owner, ls_Epoch := epoch, ls_ExpiresAt := dc_now X + ttl\<rparr>
       else x) ls"
    using t by (auto simp: AcquireLease_txn_def Let_def ls_def [symmetric] split: list.splits if_splits)
  have "l \<in> set ls" "ls_ChainID l = c" using Cons_eq_filterD [OF l(1) [symmetric]] by auto
  then show ?thesis using that [of "l\<lparr>ls_Owner := owner, ls_Epoch := epoch, ls_ExpiresAt := dc_now X + ttl\<rparr>"] l(3) by force
qed

lemma store_steps_grow: "store_steps db db' \<Longrightarrow> db_inv db \<Longrightarrow> db_grows db db'"
  using store_steps_refine db_steps_grows by blast

text \<open>C3: Fencing. Once a signer has acquired the lease at some epoch, every write of a holder with a lower
  epoch is refused from then on, in every later database: recording, marking, resolving, consuming,
  auditing and the automatic transitions return an error and change no table.\<close>

theorem stale_writer_fenced:
  assumes "store_steps empty_db db0" "AcquireLease Y c owner ttl db0 = (Inr (epoch, True), db1)" "store_steps db1 db"
    and "f_ChainID f = c" "f_Epoch f < epoch"
  shows "refused db (Record X f ev p db) \<and> refused db (MarkAmbiguous X f p db) \<and> refused db (ResolvePending X f p t db)
    \<and> refused db (ConsumeOutcome X f out db) \<and> refused db (AppendAudit X (Some f) chain ev' db)
    \<and> refused db (AutoResolvePending X f p res ev' db) \<and> refused db (AutoSettleOutcome X f out from res ev' db)"
proof -
  have r1: "store_steps empty_db db1"
    using rtranclp.rtrancl_into_rtrancl [OF assms(1) s_acquire [of db0 Y c owner ttl]] assms(2) by simp
  have "stale db1 f" by (rule AcquireLease_acquired [OF assms(2)]) (use assms(4,5) in \<open>auto simp: stale_def\<close>)
  then have "stale db f" by (rule stale_grows [OF store_steps_grow [OF assms(3) store_reach_inv [OF r1]]])
  moreover have "db_inv db" using store_reach_inv [OF rtranclp_trans [OF r1 assms(3)]] .
  ultimately have "\<not> fenceCheck X f db" by (rule stale_fence [rotated])
  then show ?thesis by (simp add: unfenced_refused)
qed

definition ex_late :: dbCall where
  "ex_late = \<lparr>dc_now = 50000000, dc_clock = 50, dc_fault = NoFault\<rparr>"

definition ex_taken :: evm_db where
  "ex_taken = snd (AcquireLease ex_late ex_chain ''B'' 30000000 ex_recorded)"

theorem stale_writer_fenced_witness:
  "fst (AcquireLease ex_late ex_chain ''B'' 30000000 ex_recorded) = Inr (2, True)
    \<and> refused ex_taken (ResolvePending ex_late ex_fence ex_row ex_kept ex_taken)"
proof -
  have "AcquireLease ex_late ex_chain ''B'' 30000000 ex_recorded = (Inr (2, True), ex_taken)"
    unfolding ex_taken_def by (rule prod_eqI) (simp_all, code_simp)
  then show ?thesis
    using stale_writer_fenced [OF ex_recorded_reach _ rtranclp.rtrancl_refl, of ex_late ex_chain "''B''" 30000000 2 ex_taken ex_fence
        ex_late undefined ex_row ex_kept] by (simp add: ex_fence_def)
qed

text \<open>C14: One writer at a time. In every reachable database two fences of one chain that both pass the
  fencing check are the same fence, and while one passes, another process that tries to acquire the
  lease does not get it and changes nothing.\<close>

theorem lease_exclusive:
  assumes "store_steps empty_db db" "fenceCheck X f db" "f_ChainID g = f_ChainID f"
  shows "(fenceCheck Y g db \<longrightarrow> g = f)
    \<and> (owner \<noteq> f_Owner f \<and> dc_fault X = NoFault \<longrightarrow> AcquireLease X (f_ChainID f) owner ttl db = (Inr (0, False), db))"
proof -
  note inv = store_reach_inv [OF assms(1)]
  have d: "distinct (map ls_ChainID (db_lease db))" by (rule db_invD(9) [OF inv])
  obtain l where l: "l \<in> set (db_lease db)" "ls_ChainID l = f_ChainID f" "ls_Owner l = f_Owner f" "ls_Epoch l = f_Epoch f"
    "dc_now X < ls_ExpiresAt l" using assms(2) unfolding fenceCheck_iff [OF inv, of X f] by blast
  have inj: "inj_on ls_ChainID (set (db_lease db))" using d by (simp add: distinct_map)
  have one: "x = l" if "x \<in> set (db_lease db)" "ls_ChainID x = f_ChainID f" for x
    using that(2) l(2) by (intro inj_onD [OF inj _ that(1) l(1)]) (simp only:)
  have "g = f" if fg: "fenceCheck Y g db"
  proof -
    obtain l' where l': "l' \<in> set (db_lease db)" "ls_ChainID l' = f_ChainID g" "ls_Owner l' = f_Owner g" "ls_Epoch l' = f_Epoch g"
      using fg unfolding fenceCheck_iff [OF inv, of Y g] by blast
    then have "l' = l" using assms(3) by (intro one) simp_all
    then show ?thesis using l l' assms(3) by (intro evmFence.equality) simp_all
  qed
  moreover have "filter (\<lambda>l. ls_ChainID l = f_ChainID f) (db_lease db) = [l]"
  proof -
    have "filter (\<lambda>x. ls_ChainID x = f_ChainID f) (db_lease db) = filter (\<lambda>x. x = l) (db_lease db)"
      by (rule filter_cong) (use one l(2) in auto)
    also have "\<dots> = [l]" using d l(1) by (simp add: distinct_map filter_single)
    finally show ?thesis .
  qed
  then have "AcquireLease X (f_ChainID f) owner ttl db = (Inr (0, False), db)" if "owner \<noteq> f_Owner f" "dc_fault X = NoFault"
    using that l by (auto simp: AcquireLease_def txn_def AcquireLease_txn_def Let_def)
  ultimately show ?thesis by blast
qed

theorem lease_exclusive_witness:
  "fenceCheck ex_call ex_fence ex_recorded
    \<and> AcquireLease ex_call ex_chain ''B'' 30000000 ex_recorded = (Inr (0, False), ex_recorded)"
proof -
  have f: "fenceCheck ex_call ex_fence ex_recorded" by code_simp
  then show ?thesis
    using lease_exclusive [OF ex_recorded_reach f refl, of ex_call "''B''" 30000000] by (simp add: ex_fence_def ex_call_def)
qed



end
