(* ===== verification/Evm_World.thy ===== *)
theory Evm_World
  imports Evm_Store "HOL-Library.State_Monad" "HOL-Library.Sublist"
begin

text \<open>
  The world the signer's EVM code runs in, and the code that only touches it lightly: the
  classification of a node's answer to a send (\<open>modular/signer/signer_client.go\<close>), the memory kept per
  scope (\<open>evm_state_manager.go\<close>) and the lease of the process (\<open>evm_lease.go\<close>).

  Everything outside the process is an oracle \<open>evmEnv\<close>, indexed by the number of the call: what the
  database does with the call (\<open>dbCall\<close>: its clock and its fault), what other processes did to the
  database before the call (\<open>env_others\<close>), and what the nodes answer. The process is a computation in
  the state monad over \<open>evmWorld\<close>: the database, the memory of the process and the list of the
  transactions it has handed to a node. Log records, metrics and contexts are not modelled, except that
  a finished context is an answer of the oracle where the code asks for it.
\<close>

section \<open>Answers of a node\<close>

record sendError =
  se_context :: bool
  se_http :: bool
  se_rpc :: "(int \<times> string) option"
  se_text :: string

text \<open>\<open>se_context\<close>: the error is \<open>context.Canceled\<close> or \<open>context.DeadlineExceeded\<close>; \<open>se_http\<close>: it is an
  \<open>rpc.HTTPError\<close>; \<open>se_rpc\<close>: code and text of the \<open>rpc.Error\<close> in it; \<open>se_text\<close>: its own text.\<close>

datatype evmSendOutcome = EvmSendAccepted | EvmSendAmbiguous | EvmSendNonceRejected | EvmSendRejected

definition errMsgNonceTooLow :: string where "errMsgNonceTooLow = ''nonce too low''"
definition errMsgNonceTooHigh :: string where "errMsgNonceTooHigh = ''nonce too high''"
definition errMsgInvalidNonce :: string where "errMsgInvalidNonce = ''invalid nonce''"
definition errMsgNonceLowerThanAccount :: string where
  "errMsgNonceLowerThanAccount = ''tx nonce is lower than account nonce''"
definition errMsgNonceHigherThanAccount :: string where
  "errMsgNonceHigherThanAccount = ''tx nonce is higher than account nonce''"

definition evmRPCCodeInvalidParams :: int where "evmRPCCodeInvalidParams = -32602"
definition evmRPCCodeInternal :: int where "evmRPCCodeInternal = -32603"
definition evmRPCCodeTimeout :: int where "evmRPCCodeTimeout = -32002"

definition evmNotAdmittedReasons :: "string list" where
  "evmNotAdmittedReasons = [''failed to validate transaction'', ''failed to build cosmos tx'',
     ''failed to encode transaction'', ''insufficient funds'', ''insufficient fee'', ''intrinsic gas too low'']"

fun strings_Contains :: "string \<Rightarrow> string \<Rightarrow> bool" where
  "strings_Contains [] t = (t = [])"
| "strings_Contains (c # s) t = (prefix t (c # s) \<or> strings_Contains s t)"

lemma strings_Contains_iff: "strings_Contains s t \<longleftrightarrow> sublist t s"
  by (induction s) (auto simp: sublist_Cons_right)

definition containsAnyReason :: "string \<Rightarrow> string list \<Rightarrow> bool" where
  "containsAnyReason msg reasons = list_ex (\<lambda>reason. strings_Contains msg reason) reasons"

definition isEvmNonceLowError :: "string \<Rightarrow> bool" where
  "isEvmNonceLowError msg = containsAnyReason msg [errMsgNonceTooLow, errMsgInvalidNonce, errMsgNonceLowerThanAccount]"

definition isEvmNonceHighError :: "string \<Rightarrow> bool" where
  "isEvmNonceHighError msg = containsAnyReason msg [errMsgNonceTooHigh, errMsgNonceHigherThanAccount]"

text \<open>\<open>ended\<close>: the context of the caller has ended.\<close>

definition classifyEvmSendError :: "bool \<Rightarrow> sendError option \<Rightarrow> evmSendOutcome" where
  "classifyEvmSendError ended err =
     (case err of None \<Rightarrow> EvmSendAccepted
      | Some e \<Rightarrow>
        if ended \<or> se_context e then EvmSendAmbiguous
        else if se_http e then EvmSendAmbiguous
        else (case se_rpc e of None \<Rightarrow> EvmSendAmbiguous
      | Some (code, msg) \<Rightarrow>
        if code = evmRPCCodeTimeout \<or> code = evmRPCCodeInternal then EvmSendAmbiguous
        else if code = evmRPCCodeInvalidParams then EvmSendRejected
        else if isEvmNonceLowError msg \<or> isEvmNonceHighError msg then EvmSendNonceRejected
        else if containsAnyReason msg evmNotAdmittedReasons then EvmSendRejected
        else EvmSendAmbiguous))"

definition evmNodeAnswered :: "bool \<Rightarrow> sendError option \<Rightarrow> bool" where
  "evmNodeAnswered ended err =
     (case err of None \<Rightarrow> True
      | Some e \<Rightarrow>
        if ended then False
        else if se_http e then False
        else (case se_rpc e of None \<Rightarrow> False
          | Some (code, _) \<Rightarrow> code \<noteq> evmRPCCodeTimeout \<and> code \<noteq> evmRPCCodeInternal))"

record receipt =
  rc_Status :: u64
  rc_BlockNumber :: "u64 option"

definition ReceiptStatusSuccessful :: u64 where "ReceiptStatusSuccessful = 1"

datatype receiptAnswer = ReceiptNotFound | ReceiptError | ReceiptNil | ReceiptIs receipt

record CosmosTxView =
  v_Hash :: string
  v_Height :: u64
  v_Code :: "32 word"

datatype searchAnswer = IndexDisabled | SearchError | SearchFound "CosmosTxView option"

section \<open>Environment, configuration, state\<close>

record 'tx evmEnv =
  env_dbCall :: "nat \<Rightarrow> dbCall"
  env_readFails :: "nat \<Rightarrow> bool"
  env_others :: "nat \<Rightarrow> evm_db \<Rightarrow> evm_db"
  env_time :: "nat \<Rightarrow> int"
  env_ctxDone :: "nat \<Rightarrow> bool"
  env_send :: "nat \<Rightarrow> 'tx \<Rightarrow> sendError option"
  env_receipt :: "nat \<Rightarrow> hash \<Rightarrow> receiptAnswer"
  env_waitReceipt :: "nat \<Rightarrow> hash \<Rightarrow> receipt option"
  env_accountNonce :: "nat \<Rightarrow> SignType \<Rightarrow> u64 option"
  env_blockNumber :: "nat \<Rightarrow> u64 option"
  env_evmChainID :: "nat \<Rightarrow> int option"
  env_nonceAt :: "nat \<Rightarrow> address \<Rightarrow> u64 \<Rightarrow> u64 option"
  env_pendingNonceAt :: "nat \<Rightarrow> address \<Rightarrow> u64 option"
  env_network :: "nat \<Rightarrow> string option"
  env_searchEthereumTx :: "nat \<Rightarrow> hash \<Rightarrow> u64 \<Rightarrow> searchAnswer"

text \<open>What the process is configured with: the chain, its lease owner and TTL (nanoseconds), the keys and
  clients per scope, whether the state store is attached, and the chain readers of the automatic
  disposition.\<close>

record 'tx signClient =
  c_eth :: "'tx ethLib"
  c_evm :: bool
  c_chainID :: string
  c_evmChainID :: u64
  c_owner :: string
  c_ttl :: int
  c_keyAddress :: "SignType \<Rightarrow> address option"
  c_mocaClients :: "SignType \<Rightarrow> bool"
  c_autoEvm :: bool
  c_autoCosmos :: bool
  c_failedTxRollsBack :: bool

record evmAutoObservation =
  ob_txHash :: hash
  ob_reason :: string
  ob_height :: u64

record evmTerminalRetry =
  tr_pending :: pendingRecord
  tr_terminal :: pendingTerminal
  tr_epoch :: nat

record evmScopeMemory =
  m_epoch :: nat
  m_terminalRetry :: "evmTerminalRetry option"
  m_consumeUnknown :: "outcomeRecord option"
  m_awaiting :: "hash \<Rightarrow> hash option"
  m_lastSeenPending :: nat
  m_autoSeen :: "evmAutoObservation option"

definition newScopeMemory :: evmScopeMemory where
  "newScopeMemory = \<lparr>m_epoch = 0, m_terminalRetry = None, m_consumeUnknown = None, m_awaiting = (\<lambda>_. None),
     m_lastSeenPending = 0, m_autoSeen = None\<rparr>"

record evmLease =
  le_held :: bool
  le_epoch :: nat
  le_lastRenew :: int

record 'tx evmWorld =
  w_db :: evm_db
  w_scopes :: "SignType \<Rightarrow> evmScopeMemory"
  w_audited :: "string \<times> nat \<Rightarrow> bool"
  w_outcomeChecked :: "nat \<Rightarrow> int option"
  w_nonce :: "SignType \<Rightarrow> u64"
  w_lease :: evmLease
  w_tick :: nat
  w_sent :: "'tx list"

text \<open>The memory of a fresh process; \<open>w_scopes\<close> gives a scope its empty memory on first use.\<close>

definition newEvmState :: "evm_db \<Rightarrow> 'tx evmWorld" where
  "newEvmState db = \<lparr>w_db = db, w_scopes = (\<lambda>_. newScopeMemory), w_audited = (\<lambda>_. False), w_outcomeChecked = (\<lambda>_. None),
     w_nonce = (\<lambda>_. 0), w_lease = \<lparr>le_held = False, le_epoch = 0, le_lastRenew = 0\<rparr>, w_tick = 0, w_sent = []\<rparr>"

section \<open>Calls\<close>

type_synonym ('tx, 'a) evm = "('tx evmWorld, 'a) state"

abbreviation ret :: "'a \<Rightarrow> ('tx, 'a) evm" where
  "ret \<equiv> State_Monad.return"

text \<open>Every call out of the process takes a number; before it, other processes have acted on the database.\<close>

definition call :: "'tx evmEnv \<Rightarrow> ('tx, nat) evm" where
  "call E = State (\<lambda>w. (w_tick w, w\<lparr>w_tick := w_tick w + 1, w_db := env_others E (w_tick w) (w_db w)\<rparr>))"

definition ask :: "'tx evmEnv \<Rightarrow> (nat \<Rightarrow> 'a) \<Rightarrow> ('tx, 'a) evm" where
  "ask E f = do { n \<leftarrow> call E; ret (f n) }"

definition db_read :: "'tx evmEnv \<Rightarrow> (evm_db \<Rightarrow> 'a) \<Rightarrow> ('tx, evm_error + 'a) evm" where
  "db_read E f = do { n \<leftarrow> call E; w \<leftarrow> State_Monad.get;
     ret (if env_readFails E n then Inl ErrDatabase else Inr (f (w_db w))) }"

definition db_write :: "'tx evmEnv \<Rightarrow> (dbCall \<Rightarrow> 'a txn_body) \<Rightarrow> ('tx, evm_error + 'a) evm" where
  "db_write E f = do { n \<leftarrow> call E; State (\<lambda>w. case f (env_dbCall E n) (w_db w) of (r, db) \<Rightarrow> (r, w\<lparr>w_db := db\<rparr>)) }"

definition sendEvmTx :: "'tx evmEnv \<Rightarrow> 'tx \<Rightarrow> ('tx, sendError option) evm" where
  "sendEvmTx E tx = do { n \<leftarrow> call E;
     State (\<lambda>w. (env_send E n tx, w\<lparr>w_sent := w_sent w @ [tx]\<rparr>)) }"

definition upd :: "('tx evmWorld \<Rightarrow> 'tx evmWorld) \<Rightarrow> ('tx, unit) evm" where
  "upd f = State (\<lambda>w. ((), f w))"

definition updMemory :: "SignType \<Rightarrow> (evmScopeMemory \<Rightarrow> evmScopeMemory) \<Rightarrow> ('tx, unit) evm" where
  "updMemory scope f = upd (\<lambda>w. w\<lparr>w_scopes := (w_scopes w)(scope := f (w_scopes w scope))\<rparr>)"

definition evm_memory :: "SignType \<Rightarrow> ('tx, evmScopeMemory) evm" where
  "evm_memory scope = State (\<lambda>w. (w_scopes w scope, w))"

primrec each :: "('a \<Rightarrow> ('tx, unit) evm) \<Rightarrow> 'a list \<Rightarrow> ('tx, unit) evm" where
  "each f [] = ret ()"
| "each f (x # xs) = do { f x; each f xs }"

section \<open>Memory of a scope\<close>

definition setLastSeen :: "SignType \<Rightarrow> nat \<Rightarrow> ('tx, unit) evm" where
  "setLastSeen scope i = updMemory scope (\<lambda>m. m\<lparr>m_lastSeenPending := i\<rparr>)"

definition clearLastSeen :: "SignType \<Rightarrow> nat \<Rightarrow> ('tx, unit) evm" where
  "clearLastSeen scope i = updMemory scope (\<lambda>m. if m_lastSeenPending m = i then m\<lparr>m_lastSeenPending := 0\<rparr> else m)"

definition stashTerminal :: "evmFence \<Rightarrow> SignType \<Rightarrow> pendingRecord \<Rightarrow> pendingTerminal \<Rightarrow> ('tx, unit) evm" where
  "stashTerminal fence scope pending terminal = updMemory scope (\<lambda>m. m\<lparr>m_terminalRetry :=
     Some \<lparr>tr_pending = pending, tr_terminal = terminal, tr_epoch = f_Epoch fence\<rparr>\<rparr>)"

definition observe :: "SignType \<Rightarrow> hash \<Rightarrow> string \<Rightarrow> u64 \<Rightarrow> ('tx, bool) evm" where
  "observe scope txHash reason height = do {
     mem \<leftarrow> evm_memory scope;
     case m_autoSeen mem of
       Some seen \<Rightarrow>
         if ob_txHash seen = txHash \<and> ob_reason seen = reason then ret (height > ob_height seen)
         else do { updMemory scope (\<lambda>m. m\<lparr>m_autoSeen := Some \<lparr>ob_txHash = txHash, ob_reason = reason, ob_height = height\<rparr>\<rparr>);
                   ret False }
     | None \<Rightarrow> do { updMemory scope (\<lambda>m. m\<lparr>m_autoSeen := Some \<lparr>ob_txHash = txHash, ob_reason = reason, ob_height = height\<rparr>\<rparr>);
                   ret False } }"

definition forgetObservation :: "SignType \<Rightarrow> ('tx, unit) evm" where
  "forgetObservation scope = updMemory scope (\<lambda>m. m\<lparr>m_autoSeen := None\<rparr>)"

definition evmOutcomeCheckInterval :: int where
  "evmOutcomeCheckInterval = 10 * 1000000000"

definition outcomeCheckDue :: "nat \<Rightarrow> int \<Rightarrow> ('tx, bool) evm" where
  "outcomeCheckDue i now = State (\<lambda>w.
     case w_outcomeChecked w i of
       Some at \<Rightarrow> if now - at < evmOutcomeCheckInterval then (False, w)
         else (True, w\<lparr>w_outcomeChecked := (w_outcomeChecked w)(i \<mapsto> now)\<rparr>)
     | None \<Rightarrow> (True, w\<lparr>w_outcomeChecked := (w_outcomeChecked w)(i \<mapsto> now)\<rparr>))"

definition hasNonceCache :: "SignType \<Rightarrow> bool" where
  "hasNonceCache scope \<longleftrightarrow> scope = SignOperator \<or> scope = SignSeal \<or> scope = SignGc"

definition setNonceCache :: "SignType \<Rightarrow> u64 \<Rightarrow> ('tx, unit) evm" where
  "setNonceCache scope n = upd (\<lambda>w. w\<lparr>w_nonce := (w_nonce w)(scope := n)\<rparr>)"

definition refreshNonceFromChain :: "'tx evmEnv \<Rightarrow> SignType \<Rightarrow> ('tx, evm_error option) evm" where
  "refreshNonceFromChain E scope =
     (if \<not> hasNonceCache scope then ret None
      else do { r \<leftarrow> ask E (\<lambda>n. env_accountNonce E n scope);
        case r of None \<Rightarrow> ret (Some ErrRpc)
        | Some nonce \<Rightarrow> do { setNonceCache scope nonce; ret None } })"

section \<open>The lease\<close>

definition evmDefaultLeaseTTL :: int where
  "evmDefaultLeaseTTL = 30 * 1000000000"

definition leaseTTL :: "int \<Rightarrow> int" where
  "leaseTTL ttl = (if ttl \<le> 0 then evmDefaultLeaseTTL else ttl)"

definition lease_fence :: "'tx signClient \<Rightarrow> 'tx evmEnv \<Rightarrow> ('tx, evmFence option) evm" where
  "lease_fence C E = do {
     now \<leftarrow> ask E (env_time E);
     w \<leftarrow> State_Monad.get;
     ret (if \<not> le_held (w_lease w) \<or> now - le_lastRenew (w_lease w) > go_div (leaseTTL (c_ttl C)) 2 then None
          else Some \<lparr>f_ChainID = c_chainID C, f_Owner = c_owner C, f_Epoch = le_epoch (w_lease w)\<rparr>) }"

definition lease_lose :: "'tx signClient \<Rightarrow> 'tx evmEnv \<Rightarrow> evmFence \<Rightarrow> ('tx, unit) evm" where
  "lease_lose C E fence = do {
     w \<leftarrow> State_Monad.get;
     if \<not> le_held (w_lease w) \<or> le_epoch (w_lease w) \<noteq> f_Epoch fence then ret ()
     else do {
       upd (\<lambda>w. w\<lparr>w_lease := (w_lease w)\<lparr>le_held := False\<rparr>\<rparr>);
       _ \<leftarrow> db_write E (\<lambda>X. AppendAudit X None (c_chainID C) (emptyAudit AuditLeaseLost));
       ret () } }"

text \<open>\<open>tick\<close> answers the fence for which \<open>onAcquire\<close> is called (it starts the recovery of a new epoch).\<close>

definition lease_tick :: "'tx signClient \<Rightarrow> 'tx evmEnv \<Rightarrow> ('tx, evmFence option) evm" where
  "lease_tick C E = do {
     w \<leftarrow> State_Monad.get;
     let ttl = leaseTTL (c_ttl C);
     let l = w_lease w;
     if \<not> le_held l then do {
       r \<leftarrow> db_write E (\<lambda>X. AcquireLease X (c_chainID C) (c_owner C) (go_div ttl 1000));
       case r of Inl _ \<Rightarrow> ret None
       | Inr (newEpoch, acquired) \<Rightarrow>
           if \<not> acquired then ret None
           else do {
             now \<leftarrow> ask E (env_time E);
             upd (\<lambda>w. w\<lparr>w_lease := \<lparr>le_held = True, le_epoch = newEpoch, le_lastRenew = now\<rparr>\<rparr>);
             ret (Some \<lparr>f_ChainID = c_chainID C, f_Owner = c_owner C, f_Epoch = newEpoch\<rparr>) } }
     else do {
       let fence = \<lparr>f_ChainID = c_chainID C, f_Owner = c_owner C, f_Epoch = le_epoch l\<rparr>;
       r \<leftarrow> db_write E (\<lambda>X. RenewLease X fence (go_div ttl 1000));
       case r of
         Inr True \<Rightarrow> do { now \<leftarrow> ask E (env_time E);
           upd (\<lambda>w. w\<lparr>w_lease := (w_lease w)\<lparr>le_lastRenew := now\<rparr>\<rparr>); ret None }
       | Inr False \<Rightarrow> do { lease_lose C E fence; ret None }
       | Inl _ \<Rightarrow> do { now \<leftarrow> ask E (env_time E);
           (if now - le_lastRenew l > ttl then lease_lose C E fence else ret ()); ret None } } }"

definition lease_stop :: "'tx signClient \<Rightarrow> 'tx evmEnv \<Rightarrow> ('tx, unit) evm" where
  "lease_stop C E = do {
     w \<leftarrow> State_Monad.get;
     upd (\<lambda>w. w\<lparr>w_lease := (w_lease w)\<lparr>le_held := False\<rparr>\<rparr>);
     if \<not> le_held (w_lease w) then ret ()
     else do {
       _ \<leftarrow> db_write E (\<lambda>X. ReleaseLease X \<lparr>f_ChainID = c_chainID C, f_Owner = c_owner C, f_Epoch = le_epoch (w_lease w)\<rparr>);
       ret () } }"

end
