(* ===== verification/Evm_Logic.thy ===== *)
theory Evm_Logic
  imports Evm_Store_Safety Evm_World
begin

text \<open>
  A program logic for the computations of the EVM state manager. Assertions are sets of \<open>fact\<close>s about
  the database that no store step of any process can falsify (a row id names this transaction, a hash has
  evidence, a row is no longer pending, an audit row exists), so they survive whatever other processes do
  between two calls. \<open>safe C F m Q\<close> says: from a good state in which the facts \<open>F\<close> hold, \<open>m\<close> changes the
  database by store steps only, ends in a good state, and the facts \<open>Q a\<close> hold for its result \<open>a\<close>. In a good
  state (\<open>winv\<close>) the database satisfies its invariant, what the memory of the process refers to is known,
  and every transaction handed to a node has its evidence committed.
\<close>

named_theorems evm_safe

section \<open>Facts\<close>

datatype fact = Row nat evidenceRef | Signed hash | NotPending nat | Audited evmAuditName hash | Refused hash | Holds bool

fun fact_ok :: "string \<Rightarrow> evm_db \<Rightarrow> fact \<Rightarrow> bool" where
  "fact_ok c db (Row i ref) \<longleftrightarrow> known db i ref \<and> r_ChainID ref = c"
| "fact_ok c db (Signed h) \<longleftrightarrow> (\<exists>e \<in> set (db_signed db). e_ChainID e = c \<and> e_TxHash e = h)"
| "fact_ok c db (NotPending i) \<longleftrightarrow> i < db_nextState db \<and> (\<forall>r \<in> set (db_state db). sr_ID r = i \<longrightarrow> sr_State r \<noteq> RowPending)"
| "fact_ok c db (Audited n h) \<longleftrightarrow> HasAudit c n h 0 db"
| "fact_ok c db (Refused h) \<longleftrightarrow> HasAudit c AuditNotAdmittedNonceLow h 0 db \<or> HasAudit c AuditNotAdmittedNonceHigh h 0 db
     \<or> HasAudit c AuditNotAdmittedRejected h 0 db"
| "fact_ok c db (Holds b) \<longleftrightarrow> b"

lemma db_trans_notPending:
  assumes "db_trans db db'" "db_inv db" "fact_ok c db (NotPending i)"
  shows "fact_ok c db' (NotPending i)"
  using assms
proof (induction rule: db_trans.induct)
  case (t_update r db f ev X c ep)
  have "sr_State y \<noteq> RowPending" if y: "y \<in> (\<lambda>x. if sr_ID x = sr_ID r then f x else x) ` set (db_state db)" "sr_ID y = i" for y
  proof -
    obtain x where x: "x \<in> set (db_state db)" "y = (if sr_ID x = sr_ID r then f x else x)" using y(1) by blast
    then have "y = (if x = r then f r else x)" using update_only [OF t_update.prems(1) t_update.hyps(1) x(1), of f] by simp
    then have "sr_ID y = sr_ID x" "sr_State y = RowPending \<longrightarrow> sr_State x = RowPending"
      using t_update.hyps(2,4) by (simp_all split: if_splits)
    then show ?thesis using t_update.prems(2) x(1) y(2) by auto
  qed
  then show ?case using t_update.prems(2) by auto
qed auto

lemma HasAudit_iff: "HasAudit c n h 0 db \<longleftrightarrow>
   (\<exists>a \<in> set (db_audit db). au_ChainID a = c \<and> a_Event (au_Event a) = n \<and> (h = 0 \<or> a_TxHash (au_Event a) = h))"
  by (auto simp: HasAudit_def filter_empty_conv)

lemma HasAudit_grows: "db_grows db db' \<Longrightarrow> HasAudit c n h 0 db \<Longrightarrow> HasAudit c n h 0 db'"
  using set_mono_prefix [of "db_audit db" "db_audit db'"] by (auto simp: db_grows_def HasAudit_iff)

lemma db_trans_fact:
  assumes "db_trans db db'" "db_inv db" "fact_ok c db f"
  shows "fact_ok c db' f"
proof (cases f)
  case (Row i ref)
  then show ?thesis using assms db_trans_known by simp
next
  case (NotPending i)
  then show ?thesis using assms db_trans_notPending by blast
next
  case (Signed h)
  then show ?thesis using assms(3) db_trans_grows [OF assms(1)] set_mono_prefix [of "db_signed db" "db_signed db'"]
    by (auto simp: db_grows_def)
next
  case (Audited n h)
  then show ?thesis using assms(3) HasAudit_grows [OF db_trans_grows [OF assms(1)]] by simp
next
  case (Refused h)
  then show ?thesis using assms(3) HasAudit_grows [OF db_trans_grows [OF assms(1)]] by auto
next
  case (Holds b)
  then show ?thesis using assms(3) by simp
qed

lemma store_steps_fact:
  assumes "store_steps db db'" "db_inv db" "fact_ok c db f"
  shows "fact_ok c db' f"
proof -
  have "db_steps db db'" by (rule store_steps_refine [OF assms(1,2)])
  then show ?thesis using assms(2,3)
  proof (induction rule: rtranclp_induct)
    case (step y z)
    have "db_inv y" by (rule db_steps_inv [OF step.hyps(1) step.prems(1)])
    then show ?case using db_trans_fact [OF step.hyps(2) _ step.IH [OF step.prems]] by blast
  qed
qed

lemma store_steps_inv: "store_steps db db' \<Longrightarrow> db_inv db \<Longrightarrow> db_inv db'"
  using store_steps_refine db_steps_inv by blast

abbreviation facts :: "string \<Rightarrow> evm_db \<Rightarrow> fact set \<Rightarrow> bool" where
  "facts c db F \<equiv> (\<forall>f \<in> F. fact_ok c db f)"

section \<open>Good states and safe computations\<close>

definition pending_facts :: "pendingRecord \<Rightarrow> fact set" where
  "pending_facts p = {Row (p_ID p) (pending_ref p)}"

definition outcome_facts :: "outcomeRecord \<Rightarrow> fact set" where
  "outcome_facts out = {Row (o_ID out) (outcome_ref out)}"

definition memory_facts :: "evmScopeMemory \<Rightarrow> fact set" where
  "memory_facts m = (case m_terminalRetry m of None \<Rightarrow> {} | Some rt \<Rightarrow> pending_facts (tr_pending rt))
     \<union> (case m_consumeUnknown m of None \<Rightarrow> {} | Some out \<Rightarrow> outcome_facts out)"

definition winv :: "'tx signClient \<Rightarrow> 'tx evmWorld \<Rightarrow> bool" where
  "winv C w \<longleftrightarrow> db_inv (w_db w) \<and> (\<forall>s. facts (c_chainID C) (w_db w) (memory_facts (w_scopes w s)))
     \<and> facts (c_chainID C) (w_db w) ((\<lambda>tx. Signed (tx_Hash (c_eth C) tx)) ` set (w_sent w))"

definition env_ok :: "'tx evmEnv \<Rightarrow> bool" where
  "env_ok E \<longleftrightarrow> (\<forall>n db. db_inv db \<longrightarrow> store_steps db (env_others E n db))"

definition safe :: "'tx signClient \<Rightarrow> fact set \<Rightarrow> ('tx, 'a) evm \<Rightarrow> ('a \<Rightarrow> fact set) \<Rightarrow> bool" where
  "safe C F m Q \<longleftrightarrow> (\<forall>w. winv C w \<and> facts (c_chainID C) (w_db w) F \<longrightarrow>
     (case run_state m w of (a, w') \<Rightarrow> winv C w' \<and> store_steps (w_db w) (w_db w') \<and> facts (c_chainID C) (w_db w') (Q a)))"

lemma safeD:
  assumes "safe C F m Q" "winv C w" "facts (c_chainID C) (w_db w) F" "run_state m w = (a, w')"
  shows "winv C w'" "store_steps (w_db w) (w_db w')" "facts (c_chainID C) (w_db w') (Q a)"
  using assms unfolding safe_def by fastforce+

lemma facts_mono: "winv C w \<Longrightarrow> store_steps (w_db w) db \<Longrightarrow> facts c (w_db w) F \<Longrightarrow> facts c db F"
  using store_steps_fact by (auto simp: winv_def)

lemma winv_db:
  assumes "winv C w" "store_steps (w_db w) db"
  shows "winv C (w\<lparr>w_db := db\<rparr>)"
proof -
  have "facts (c_chainID C) db (memory_facts (w_scopes w s))" for s
    using assms(1) by (intro facts_mono [OF assms]) (simp add: winv_def)
  moreover have "facts (c_chainID C) db ((\<lambda>tx. Signed (tx_Hash (c_eth C) tx)) ` set (w_sent w))"
    using assms(1) unfolding winv_def by (intro facts_mono [OF assms]) blast
  ultimately show ?thesis using assms store_steps_inv [OF assms(2)] unfolding winv_def by simp
qed

lemma safe_ret [evm_safe]: "Q a \<subseteq> F \<Longrightarrow> safe C F (ret a) Q"
  by (auto simp: safe_def State_Monad.return_def)

lemma safe_bind:
  assumes "safe C F m Q" "\<And>a. safe C (F \<union> Q a) (k a) R"
  shows "safe C F (State_Monad.bind m k) R"
  unfolding safe_def
proof (intro allI impI, elim conjE)
  fix w assume w: "winv C w" "facts (c_chainID C) (w_db w) F"
  obtain a w1 where m: "run_state m w = (a, w1)" by force
  note s1 = safeD [OF assms(1) w m]
  have "facts (c_chainID C) (w_db w1) (F \<union> Q a)" using s1(3) facts_mono [OF w(1) s1(2) w(2)] by blast
  moreover obtain b w2 where k: "run_state (k a) w1 = (b, w2)" by force
  ultimately show "case run_state (State_Monad.bind m k) w of (a, w') \<Rightarrow> winv C w' \<and> store_steps (w_db w) (w_db w')
      \<and> facts (c_chainID C) (w_db w') (R a)"
    using safeD [OF assms(2) s1(1) _ k] s1(2) m k by (auto simp: State_Monad.bind_def intro: rtranclp_trans)
qed

lemma safe_weaken:
  assumes "safe C F m Q" "F \<subseteq> F'" "\<And>a. Q' a \<subseteq> F' \<union> Q a"
  shows "safe C F' m Q'"
  unfolding safe_def
proof (intro allI impI, elim conjE)
  fix w assume w: "winv C w" "facts (c_chainID C) (w_db w) F'"
  obtain a w1 where m: "run_state m w = (a, w1)" by force
  have "facts (c_chainID C) (w_db w) F" using w(2) assms(2) by blast
  note s1 = safeD [OF assms(1) w(1) this m]
  have "facts (c_chainID C) (w_db w1) (Q' a)" using s1(3) facts_mono [OF w(1) s1(2) w(2)] assms(3) [of a] by blast
  then show "case run_state m w of (a, w') \<Rightarrow> winv C w' \<and> store_steps (w_db w) (w_db w') \<and> facts (c_chainID C) (w_db w') (Q' a)"
    using s1 m by simp
qed

lemma safe_if [evm_safe]: "(b \<Longrightarrow> safe C F m Q) \<Longrightarrow> (\<not> b \<Longrightarrow> safe C F m' Q) \<Longrightarrow> safe C F (if b then m else m') Q"
  by simp

lemma safe_sum [evm_safe]:
  "(\<And>e. x = Inl e \<Longrightarrow> safe C F (f e) Q) \<Longrightarrow> (\<And>v. x = Inr v \<Longrightarrow> safe C F (g v) Q) \<Longrightarrow>
     safe C F (case x of Inl e \<Rightarrow> f e | Inr v \<Rightarrow> g v) Q"
  by (simp split: sum.split)

lemma safe_option [evm_safe]:
  "(x = None \<Longrightarrow> safe C F m Q) \<Longrightarrow> (\<And>v. x = Some v \<Longrightarrow> safe C F (g v) Q) \<Longrightarrow>
     safe C F (case x of None \<Rightarrow> m | Some v \<Rightarrow> g v) Q"
  by (simp split: option.split)

lemma safe_prod [evm_safe]: "(\<And>a b. x = (a, b) \<Longrightarrow> safe C F (f a b) Q) \<Longrightarrow> safe C F (case x of (a, b) \<Rightarrow> f a b) Q"
  by (simp split: prod.split)

lemma safe_bool [evm_safe]:
  "(x \<Longrightarrow> safe C F m Q) \<Longrightarrow> (\<not> x \<Longrightarrow> safe C F m' Q) \<Longrightarrow> safe C F (case x of True \<Rightarrow> m | False \<Rightarrow> m') Q"
  by (cases x) simp_all

lemma safe_Let [evm_safe]: "safe C F (f x) Q \<Longrightarrow> safe C F (let y = x in f y) Q"
  by simp

lemma safe_bind0:
  assumes "safe C F m (\<lambda>_. {})" "\<And>a. safe C F (k a) R"
  shows "safe C F (State_Monad.bind m k) R"
  using safe_bind [OF assms(1), of k R] assms(2) by simp

section \<open>Calls and memory\<close>

lemma safe_get [evm_safe]: "safe C F State_Monad.get (\<lambda>_. {})"
  by (simp add: safe_def State_Monad.get_def)

lemma safe_memory: "safe C F (evm_memory s) memory_facts"
  by (simp add: safe_def evm_memory_def winv_def)

lemmas safe_memory_bind [evm_safe] = safe_bind [OF safe_memory]

lemma safe_upd [evm_safe]:
  assumes "\<And>w. w_db (f w) = w_db w" "\<And>w. w_scopes (f w) = w_scopes w" "\<And>w. w_sent (f w) = w_sent w"
  shows "safe C F (upd f) (\<lambda>_. {})"
  using assms by (simp add: safe_def upd_def winv_def)

lemma safe_updMemory [evm_safe]:
  assumes "\<And>m. memory_facts (g m) \<subseteq> memory_facts m \<union> F"
  shows "safe C F (updMemory s g) (\<lambda>_. {})"
  unfolding safe_def
proof (intro allI impI, elim conjE)
  fix w assume w: "winv C w" "facts (c_chainID C) (w_db w) F"
  have "facts (c_chainID C) (w_db w) (memory_facts (g (w_scopes w s)))"
    using assms [of "w_scopes w s"] w by (auto simp: winv_def)
  then show "case run_state (updMemory s g) w of (a, w') \<Rightarrow> winv C w' \<and> store_steps (w_db w) (w_db w') \<and> facts (c_chainID C) (w_db w') {}"
    using w(1) by (simp add: updMemory_def upd_def winv_def)
qed

lemma safe_call:
  assumes "env_ok E"
  shows "safe C F (call E) (\<lambda>_. {})"
  unfolding safe_def
proof (intro allI impI, elim conjE)
  fix w assume w: "winv C w" "facts (c_chainID C) (w_db w) F"
  then have s: "store_steps (w_db w) (env_others E (w_tick w) (w_db w))" using assms by (simp add: env_ok_def winv_def)
  have "winv C (w\<lparr>w_tick := w_tick w + 1, w_db := env_others E (w_tick w) (w_db w)\<rparr>)"
    using winv_db [OF w(1) s] by (simp add: winv_def)
  then show "case run_state (call E) w of (a, w') \<Rightarrow> winv C w' \<and> store_steps (w_db w) (w_db w') \<and> facts (c_chainID C) (w_db w') {}"
    using s by (simp add: call_def)
qed

lemma safe_ask [evm_safe]: "env_ok E \<Longrightarrow> safe C F (ask E f) (\<lambda>_. {})"
  unfolding ask_def by (intro safe_bind0 safe_call safe_ret) simp_all

lemma safe_db_read:
  assumes "env_ok E" "Q (Inl ErrDatabase) = {}"
    and "\<And>db. db_inv db \<Longrightarrow> facts (c_chainID C) db F \<Longrightarrow> facts (c_chainID C) db (Q (Inr (f db)))"
  shows "safe C F (db_read E f) Q"
  unfolding db_read_def
proof (rule safe_bind0 [OF safe_call [OF assms(1)]])
  fix n
  show "safe C F (State_Monad.get \<bind> (\<lambda>w. ret (if env_readFails E n then Inl ErrDatabase else Inr (f (w_db w))))) Q"
    using assms(2,3) by (auto simp: safe_def State_Monad.bind_def State_Monad.get_def State_Monad.return_def winv_def)
qed

lemma safe_read [evm_safe]: "env_ok E \<Longrightarrow> safe C F (db_read E f) (\<lambda>_. {})"
  by (rule safe_db_read) simp_all

lemma safe_db_write:
  assumes "env_ok E"
    and "\<And>X db. db_inv db \<Longrightarrow> facts (c_chainID C) db F \<Longrightarrow> store_step db (snd (f X db))"
    and "\<And>X db r db'. db_inv db \<Longrightarrow> facts (c_chainID C) db F \<Longrightarrow> f X db = (r, db') \<Longrightarrow> db_inv db' \<Longrightarrow> facts (c_chainID C) db' (Q r)"
  shows "safe C F (db_write E f) Q"
  unfolding db_write_def
proof (rule safe_bind0 [OF safe_call [OF assms(1)]])
  fix n
  show "safe C F (State (\<lambda>w. case f (env_dbCall E n) (w_db w) of (r, db) \<Rightarrow> (r, w\<lparr>w_db := db\<rparr>))) Q"
    unfolding safe_def
  proof (intro allI impI, elim conjE)
    fix w assume w: "winv C w" "facts (c_chainID C) (w_db w) F"
    obtain r db where f: "f (env_dbCall E n) (w_db w) = (r, db)" by force
    have inv: "db_inv (w_db w)" using w(1) by (simp add: winv_def)
    have s: "store_steps (w_db w) db" using assms(2) [OF inv w(2), of "env_dbCall E n"] f by simp
    then show "case run_state (State (\<lambda>w. case f (env_dbCall E n) (w_db w) of (r, db) \<Rightarrow> (r, w\<lparr>w_db := db\<rparr>))) w of
        (a, w') \<Rightarrow> winv C w' \<and> store_steps (w_db w) (w_db w') \<and> facts (c_chainID C) (w_db w') (Q a)"
      using f winv_db [OF w(1) s] assms(3) [OF inv w(2) f] by (simp add: winv_def)
  qed
qed

lemma safe_send [evm_safe]:
  assumes "env_ok E" "Signed (tx_Hash (c_eth C) tx) \<in> F"
  shows "safe C F (sendEvmTx E tx) (\<lambda>_. {})"
  unfolding sendEvmTx_def
proof (rule safe_bind0 [OF safe_call [OF assms(1)]])
  fix n
  show "safe C F (State (\<lambda>w. (env_send E n tx, w\<lparr>w_sent := w_sent w @ [tx]\<rparr>))) (\<lambda>_. {})"
    unfolding safe_def
  proof (intro allI impI, elim conjE)
    fix w assume w: "winv C w" "facts (c_chainID C) (w_db w) F"
    have "fact_ok (c_chainID C) (w_db w) (Signed (tx_Hash (c_eth C) tx))" using w(2) assms(2) by blast
    then have "winv C (w\<lparr>w_sent := w_sent w @ [tx]\<rparr>)" using w(1) by (simp add: winv_def ball_Un)
    then show "case run_state (State (\<lambda>w. (env_send E n tx, w\<lparr>w_sent := w_sent w @ [tx]\<rparr>))) w of (a, w') \<Rightarrow> winv C w'
        \<and> store_steps (w_db w) (w_db w') \<and> facts (c_chainID C) (w_db w') {}"
      by simp
  qed
qed

lemma safe_each [evm_safe]:
  "(\<And>x. x \<in> set xs \<Longrightarrow> safe C F (f x) (\<lambda>_. {})) \<Longrightarrow> safe C F (each f xs) (\<lambda>_. {})"
proof (induction xs)
  case Nil
  then show ?case by (simp add: safe_ret)
next
  case (Cons x xs)
  have "safe C F (f x) (\<lambda>_. {})" by (rule Cons.prems) simp
  moreover have "safe C F (each f xs) (\<lambda>_. {})" by (rule Cons.IH) (rule Cons.prems, simp)
  ultimately show ?case unfolding each.simps by (rule safe_bind0)
qed

lemma safe_Row:
  assumes "Row i ref \<in> F" "r_ChainID ref = c_chainID C \<Longrightarrow> safe C F m Q"
  shows "safe C F m Q"
proof (cases "r_ChainID ref = c_chainID C")
  case False
  then have "\<not> facts (c_chainID C) db F" for db using assms(1) by force
  then show ?thesis unfolding safe_def by blast
qed (rule assms(2))

lemma safe_Holds:
  assumes "Holds b \<in> F" "b \<Longrightarrow> safe C F m Q"
  shows "safe C F m Q"
proof (cases b)
  case False
  then have "\<not> facts (c_chainID C) db F" for db using assms(1) by force
  then show ?thesis unfolding safe_def by blast
qed (rule assms(2))

lemma Row_Signed: "fact_ok c db (Row i ref) \<Longrightarrow> fact_ok c db (Signed (r_TxHash ref))"
  by (auto simp: known_def evidence_ref_def)

lemma safe_facts:
  assumes "\<And>db. facts (c_chainID C) db F \<Longrightarrow> facts (c_chainID C) db G" "safe C G m Q"
  shows "safe C F m Q"
  unfolding safe_def
proof (intro allI impI, elim conjE)
  fix w assume "winv C w" "facts (c_chainID C) (w_db w) F"
  then show "case run_state m w of (a, w') \<Rightarrow> winv C w' \<and> store_steps (w_db w) (w_db w') \<and> facts (c_chainID C) (w_db w') (Q a)"
    using assms(2) [unfolded safe_def, rule_format, of w] assms(1) [of "w_db w"] by simp
qed

lemma safe_Row_Signed:
  assumes "Row i ref \<in> F" "safe C (insert (Signed (r_TxHash ref)) F) m Q"
  shows "safe C F m Q"
proof (rule safe_facts [OF _ assms(2)])
  fix db assume f: "facts (c_chainID C) db F"
  have "fact_ok (c_chainID C) db (Signed (r_TxHash ref))" using Row_Signed f assms(1) by blast
  then show "facts (c_chainID C) db (insert (Signed (r_TxHash ref)) F)" using f by blast
qed

section \<open>The store's methods\<close>

text \<open>What a read that answers records tells about them.\<close>

definition opt_facts :: "('a \<Rightarrow> fact set) \<Rightarrow> evm_error + 'a option \<Rightarrow> fact set" where
  "opt_facts f r = (case r of Inr (Some x) \<Rightarrow> f x | _ \<Rightarrow> {})"

definition list_facts :: "('a \<Rightarrow> fact set) \<Rightarrow> evm_error + 'a list \<Rightarrow> fact set" where
  "list_facts f r = (case r of Inr xs \<Rightarrow> \<Union> (f ` set xs) | _ \<Rightarrow> {})"

lemma read_facts_simps [simp]:
  "opt_facts f (Inl e) = {}" "opt_facts f (Inr None) = {}" "opt_facts f (Inr (Some x)) = f x"
  "list_facts g (Inl e) = {}" "list_facts g (Inr xs) = \<Union> (g ` set xs)"
  by (simp_all add: opt_facts_def list_facts_def)

lemma row_fact: "db_inv db \<Longrightarrow> r \<in> set (db_state db) \<Longrightarrow> sr_ChainID r = c \<Longrightarrow> fact_ok c db (Row (sr_ID r) (row_ref r))"
  using known_row [of db r] by (simp add: row_ref_def)

lemma pendingFromRow_facts: "pending_facts (pendingFromRow r) = {Row (sr_ID r) (row_ref r)}"
  using pending_ref_row [of r] by (simp add: pending_facts_def pendingFromRow_def)

lemma outcomeFromRow_facts: "outcome_facts (outcomeFromRow r) = {Row (sr_ID r) (row_ref r)}"
  using outcome_ref_row [of r] by (simp add: outcome_facts_def outcomeFromRow_def)

lemma GetPending_SomeE:
  assumes "GetPending c s db = Some p"
  obtains r where "r \<in> set (db_state db)" "sr_State r = RowPending" "sr_ChainID r = c" "sr_Scope r = s" "p = pendingFromRow r"
proof -
  obtain r rs where r: "pendingRows c s db = r # rs" "p = pendingFromRow r"
    using assms by (auto simp: GetPending_def split: list.splits)
  have "r \<in> set (pendingRows c s db)" using r(1) by simp
  then show ?thesis using that [of r] r(2) by (simp add: pendingRows_def)
qed

lemma GetOutcome_SomeE:
  assumes "GetOutcome c s k db = Some out"
  obtains r where "r \<in> set (db_state db)" "sr_ChainID r = c" "out = outcomeFromRow r"
proof -
  obtain r rs where r: "outcomeRows c s k db = r # rs" "out = outcomeFromRow r"
    using assms by (auto simp: GetOutcome_def split: list.splits)
  have "r \<in> set (outcomeRows c s k db)" using r(1) by simp
  then show ?thesis using that [of r] r(2) by (simp add: outcomeRows_def)
qed

lemma safe_GetPending: "env_ok E \<Longrightarrow> safe C F (db_read E (GetPending (c_chainID C) s)) (opt_facts pending_facts)"
proof (rule safe_db_read)
  fix db assume inv: "db_inv db"
  show "facts (c_chainID C) db (opt_facts pending_facts (Inr (GetPending (c_chainID C) s db)))"
  proof (cases "GetPending (c_chainID C) s db")
    case (Some p)
    then obtain r where "r \<in> set (db_state db)" "sr_ChainID r = c_chainID C" "p = pendingFromRow r" by (rule GetPending_SomeE)
    then show ?thesis using Some row_fact [OF inv] by (simp only: read_facts_simps pendingFromRow_facts ball_simps)
  qed simp
qed simp_all

lemma safe_GetOutcome: "env_ok E \<Longrightarrow> safe C F (db_read E (GetOutcome (c_chainID C) s k)) (opt_facts outcome_facts)"
proof (rule safe_db_read)
  fix db assume inv: "db_inv db"
  show "facts (c_chainID C) db (opt_facts outcome_facts (Inr (GetOutcome (c_chainID C) s k db)))"
  proof (cases "GetOutcome (c_chainID C) s k db")
    case (Some p)
    then obtain r where "r \<in> set (db_state db)" "sr_ChainID r = c_chainID C" "p = outcomeFromRow r" by (rule GetOutcome_SomeE)
    then show ?thesis using Some row_fact [OF inv] by (simp only: read_facts_simps outcomeFromRow_facts ball_simps)
  qed simp
qed simp_all

lemma safe_ListPending: "env_ok E \<Longrightarrow> safe C F (db_read E (ListPending (c_chainID C))) (list_facts pending_facts)"
  by (rule safe_db_read) (use row_fact in \<open>auto simp: ListPending_def pendingFromRow_facts simp del: fact_ok.simps\<close>)

lemma safe_ListOutcomes: "env_ok E \<Longrightarrow> safe C F (db_read E (ListOutcomes (c_chainID C))) (list_facts outcome_facts)"
  by (rule safe_db_read) (use row_fact in \<open>auto simp: ListOutcomes_def outcomeFromRow_facts simp del: fact_ok.simps\<close>)

lemmas safe_reads_bind [evm_safe] = safe_bind [OF safe_GetPending] safe_bind [OF safe_GetOutcome] safe_bind [OF safe_ListPending]
  safe_bind [OF safe_ListOutcomes]

text \<open>A row that the scope's pending read does not show is pending no longer.\<close>

lemma not_pending_fact:
  assumes "db_inv db" "fact_ok c db (Row (p_ID p) (pending_ref p))"
    and "GetPending c (p_Scope p) db = None \<or> p_ID (the (GetPending c (p_Scope p) db)) \<noteq> p_ID p"
  shows "fact_ok c db (NotPending (p_ID p))"
proof -
  have "sr_State r \<noteq> RowPending" if r: "r \<in> set (db_state db)" "sr_ID r = p_ID p" for r
  proof
    assume st: "sr_State r = RowPending"
    have "row_ref r = pending_ref p" using assms(2) r by (simp add: known_def)
    then have "sr_ChainID r = c" "sr_Scope r = p_Scope p" using assms(2) by (simp_all add: row_ref_def pending_ref_def)
    then have rs: "r \<in> set (pendingRows c (p_Scope p) db)" using r(1) st by (simp add: pendingRows_def)
    then obtain x xs where x: "pendingRows c (p_Scope p) db = x # xs" by (cases "pendingRows c (p_Scope p) db") auto
    have "x \<in> set (pendingRows c (p_Scope p) db)" using x by simp
    then have "x = r" using db_invD(7) [OF assms(1)] rs by (simp add: pendingRows_def)
    then show False using assms(3) x r(2) by (simp add: GetPending_def pendingFromRow_def)
  qed
  then show ?thesis using assms(2) by (simp add: known_def)
qed

text \<open>What a landed \<open>ResolvePending\<close> and \<open>Record\<close> leave behind.\<close>

lemma HasAudit_insertAudit: "HasAudit c n h 0 db \<Longrightarrow> HasAudit c n h 0 (insertAudit X c' ep ev db)"
  by (auto simp: HasAudit_iff insertAudit_def)

lemma HasAudit_inserted: "a_Event ev = n \<Longrightarrow> a_TxHash ev = h \<Longrightarrow> HasAudit c n h 0 (insertAudit X c ep ev db)"
  by (auto simp: HasAudit_iff insertAudit_def)

lemma HasAudit_fold:
  "names \<noteq> [] \<Longrightarrow> n = names ! (length names - 1) \<Longrightarrow> HasAudit c n (p_TxHash p) 0 (fold (\<lambda>name. insertAudit X c ep (terminalEvent p t out name)) names db)"
proof (induction names arbitrary: db)
  case (Cons m ms)
  have "a_TxHash (terminalEvent p t out m) = p_TxHash p"
    by (simp add: terminalEvent_def pending_audit_def Let_def split: option.split)
  then show ?case using Cons by (cases ms) (simp_all add: HasAudit_inserted)
qed simp

lemma auditEvents_not_empty [simp]: "auditEvents k \<noteq> []"
  by (cases k) simp_all

lemma fold_insertAudit_state [simp]:
  "db_state (fold (\<lambda>name. insertAudit X c ep (f name)) names db) = db_state db"
  "db_nextState (fold (\<lambda>name. insertAudit X c ep (f name)) names db) = db_nextState db"
  by (induction names arbitrary: db) (simp_all add: insertAudit_def)

lemma ResolvePending_done:
  assumes "db_inv db" "fact_ok c db (Row (p_ID p) (pending_ref p))" "ResolvePending X fence p t db = (Inr out, db')"
  shows "fact_ok c db' (NotPending (p_ID p))" "fact_ok c db' (Audited (doneEvent (pt_Kind t)) (p_TxHash p))"
proof -
  let ?P = "\<lambda>r. sr_ID r = p_ID p \<and> sr_TxHash r = p_TxHash p"
  let ?f = "\<lambda>r. r\<lparr>sr_State := OutcomeSucceeded, sr_ResultTxHash := p_TxHash p, sr_ReceiptBlock := pt_ReceiptBlock t,
    sr_Source := pt_Source t, sr_UpdatedAt := dc_clock X\<rparr>"
  have t: "ResolvePending_txn X fence p t db = (Inr out, db')"
    using txn_InrD [OF assms(3) [unfolded ResolvePending_def]] by simp
  have c: "p_ChainID p = c" using assms(2) by (simp add: pending_ref_def)
  obtain n db1 where d: "(if pt_Kind t = TerminalSuccessKeep then updateState ?P ?f db else Inr (deleteState ?P db)) = Inr (n, db1)"
    "db' = fold (\<lambda>name. insertAudit X c (f_Epoch fence) (terminalEvent p t out name)) (auditEvents (pt_Kind t)) db1"
    using t c by (auto simp: ResolvePending_txn_def Let_def split: if_splits option.splits sum.splits prod.splits)
  then have d1: "db_state db1 = (if pt_Kind t = TerminalSuccessKeep then map (\<lambda>r. if ?P r then ?f r else r) (db_state db)
      else filter (\<lambda>r. \<not> ?P r) (db_state db))" "db_nextState db1 = db_nextState db"
    by (auto simp: updateState_def deleteState_def Let_def split: if_splits)
  have h: "sr_TxHash r = p_TxHash p" if "r \<in> set (db_state db)" "sr_ID r = p_ID p" for r
  proof -
    have "row_ref r = pending_ref p" using assms(2) that by (simp add: known_def)
    then show ?thesis by (simp add: row_ref_def pending_ref_def)
  qed
  show "fact_ok c db' (NotPending (p_ID p))"
    using assms(2) h unfolding d(2) by (auto simp: known_def d1 split: if_splits)
  show "fact_ok c db' (Audited (doneEvent (pt_Kind t)) (p_TxHash p))"
    unfolding d(2) by (simp add: HasAudit_fold doneEvent_def Let_def)
qed

lemma recordPending_Inr:
  assumes "recordPending X fence p db = (Inr q, db')"
  shows "p_TxHash q = p_TxHash p" "p_ChainID q = p_ChainID p" "db_signed db' = db_signed db"
    "\<exists>r \<in> set (db_state db'). sr_ID r = p_ID q \<and> row_ref r = pending_ref q"
  using assms
  by (auto simp: recordPending_def createState_def Let_def row_ref_def pending_ref_def split: sum.splits if_splits)

lemma Record_recorded:
  assumes "describes ev p" "p_ChainID p = c" "Record X fence ev p db = (Inr q, db')" "db_inv db'"
  shows "fact_ok c db' (Row (p_ID q) (pending_ref q))" "fact_ok c db' (Signed (p_TxHash p))" "p_TxHash q = p_TxHash p"
proof -
  obtain p' db1 where r: "recordPending X fence p' db1 = (Inr q, db')" "p_TxHash p' = p_TxHash p" "p_ChainID p' = p_ChainID p"
    using txn_InrD [OF assms(3) [unfolded Record_def]]
    by (auto simp: Record_txn_def split: if_splits list.splits sum.splits prod.splits)
  obtain row where row: "row \<in> set (db_state db')" "sr_ID row = p_ID q" "row_ref row = pending_ref q"
    using recordPending_Inr(4) [OF r(1)] by blast
  have "sr_ChainID row = c" "sr_TxHash row = p_TxHash p"
    using row(3) recordPending_Inr(1,2) [OF r(1)] r(2,3) assms(2) by (simp_all add: row_ref_def pending_ref_def)
  then show "fact_ok c db' (Row (p_ID q) (pending_ref q))" using row_fact [OF assms(4) row(1)] row by simp
  obtain e where "e \<in> set (db_signed db')" "row_ref row = evidence_ref e" using db_invD(6) [OF assms(4)] row(1) by blast
  then show "fact_ok c db' (Signed (p_TxHash p))"
    using \<open>sr_ChainID row = c\<close> \<open>sr_TxHash row = p_TxHash p\<close> by (auto simp: row_ref_def evidence_ref_def)
  show "p_TxHash q = p_TxHash p" using recordPending_Inr(1) [OF r(1)] r(2) by simp
qed

text \<open>The rules of the write methods: what the caller has to know, and what it knows afterwards.\<close>

lemma safe_step:
  assumes "env_ok E" "\<And>X db. db_inv db \<Longrightarrow> facts (c_chainID C) db F \<Longrightarrow> store_step db (snd (f X db))"
  shows "safe C F (db_write E f) (\<lambda>_. {})"
  using assms(1) by (rule safe_db_write) (use assms(2) in simp_all)

lemma safe_AppendAudit [evm_safe]: "env_ok E \<Longrightarrow> event_neutral ev \<Longrightarrow> safe C F (db_write E (\<lambda>X. AppendAudit X fence c ev)) (\<lambda>_. {})"
  by (intro safe_step s_audit)

lemma safe_AcquireLease [evm_safe]: "env_ok E \<Longrightarrow> safe C F (db_write E (\<lambda>X. AcquireLease X c owner ttl)) (\<lambda>_. {})"
  by (intro safe_step s_acquire)

lemma safe_RenewLease [evm_safe]: "env_ok E \<Longrightarrow> safe C F (db_write E (\<lambda>X. RenewLease X fence ttl)) (\<lambda>_. {})"
  by (intro safe_step s_renew)

lemma safe_ReleaseLease [evm_safe]: "env_ok E \<Longrightarrow> safe C F (db_write E (\<lambda>X. ReleaseLease X fence)) (\<lambda>_. {})"
  by (intro safe_step s_release)

lemma Row_known: "facts c db F \<Longrightarrow> Row i ref \<in> F \<Longrightarrow> known db i ref"
  by force

lemma safe_MarkAmbiguous [evm_safe]:
  "env_ok E \<Longrightarrow> Row (p_ID p) (pending_ref p) \<in> F \<Longrightarrow> safe C F (db_write E (\<lambda>X. MarkAmbiguous X fence p)) (\<lambda>_. {})"
  by (intro safe_step s_ambiguous Row_known)

lemma safe_ConsumeOutcome [evm_safe]:
  "env_ok E \<Longrightarrow> Row (o_ID out) (outcome_ref out) \<in> F \<Longrightarrow> safe C F (db_write E (\<lambda>X. ConsumeOutcome X fence out)) (\<lambda>_. {})"
  by (intro safe_step s_consume Row_known)

lemma safe_AutoResolvePending [evm_safe]:
  "env_ok E \<Longrightarrow> Row (p_ID p) (pending_ref p) \<in> F \<Longrightarrow> event_fits (pending_ref p) res ev \<Longrightarrow>
     safe C F (db_write E (\<lambda>X. AutoResolvePending X fence p res ev)) (\<lambda>_. {})"
  by (intro safe_step s_auto_resolve Row_known)

lemma safe_AutoSettleOutcome [evm_safe]:
  "env_ok E \<Longrightarrow> Row (o_ID out) (outcome_ref out) \<in> F \<Longrightarrow> event_fits (outcome_ref out) res ev \<Longrightarrow>
     safe C F (db_write E (\<lambda>X. AutoSettleOutcome X fence out from res ev)) (\<lambda>_. {})"
  by (intro safe_step s_auto_settle Row_known)

definition ended_facts :: "pendingRecord \<Rightarrow> pendingTerminalKind \<Rightarrow> fact set" where
  "ended_facts p k = {NotPending (p_ID p), Audited (doneEvent k) (p_TxHash p)} \<union> (if notAdmitted k then {Refused (p_TxHash p)} else {})"

lemma ended_factsI:
  "fact_ok c db (NotPending (p_ID p)) \<Longrightarrow> fact_ok c db (Audited (doneEvent k) (p_TxHash p)) \<Longrightarrow> facts c db (ended_facts p k)"
  by (cases k) (auto simp: ended_facts_def notAdmitted_def)

text \<open>The errors that tell a caller that a node refused the transaction are never those of the store.\<close>

definition store_error :: "evm_error \<Rightarrow> bool" where
  "store_error e \<longleftrightarrow> e \<noteq> EvmNonceRejectedError \<and> e \<noteq> ErrRejectedByNode"

lemma txn_error:
  assumes "txn X fn db = (Inl e, db')" "\<And>e' db'. fn db = (Inl e', db') \<Longrightarrow> store_error e'"
  shows "store_error e"
  using assms by (auto simp: txn_def store_error_def split: txnFault.splits prod.splits sum.splits)

lemma lockPending_error: "lockPending p db = Some e \<Longrightarrow> store_error e"
  by (auto simp: lockPending_def store_error_def split: list.splits if_splits)

lemma ResolvePending_error: "ResolvePending X fence p t db = (Inl e, db') \<Longrightarrow> store_error e"
  unfolding ResolvePending_def
  by (erule txn_error)
     (auto simp: ResolvePending_txn_def Let_def sql_fail_def lockPending_error split: if_splits option.splits sum.splits prod.splits,
       auto simp: store_error_def)

lemma Record_error: "Record X fence ev p db = (Inl e, db') \<Longrightarrow> store_error e"
  unfolding Record_def
  by (erule txn_error)
     (auto simp: Record_txn_def recordPending_def Let_def sql_fail_def store_error_def split: if_splits list.splits sum.splits prod.splits)

lemma safe_ResolvePending:
  assumes "env_ok E" "Row (p_ID p) (pending_ref p) \<in> F"
  shows "safe C F (db_write E (\<lambda>X. ResolvePending X fence p t)) (case_sum (\<lambda>e. {Holds (store_error e)}) (\<lambda>_. ended_facts p (pt_Kind t)))"
proof (rule safe_db_write [OF assms(1)])
  fix X db assume "facts (c_chainID C) db F"
  then show "store_step db (snd (ResolvePending X fence p t db))" using assms(2) by (intro s_resolve Row_known)
next
  fix X db r db' assume a: "db_inv db" "facts (c_chainID C) db F" "ResolvePending X fence p t db = (r, db')"
  then have k: "fact_ok (c_chainID C) db (Row (p_ID p) (pending_ref p))" using assms(2) by blast
  show "facts (c_chainID C) db' (case_sum (\<lambda>e. {Holds (store_error e)}) (\<lambda>_. ended_facts p (pt_Kind t)) r)"
  proof (cases r)
    case (Inl e)
    then show ?thesis using ResolvePending_error a(3) by simp
  next
    case (Inr out)
    then show ?thesis using ended_factsI [OF ResolvePending_done [OF a(1) k a(3) [unfolded Inr]]] by simp
  qed
qed

lemma safe_Record:
  assumes "env_ok E" "describes ev p" "p_ChainID p = c_chainID C"
  shows "safe C F (db_write E (\<lambda>X. Record X fence ev p)) 
    (case_sum (\<lambda>e. {Holds (store_error e)}) (\<lambda>q. pending_facts q \<union> {Signed (p_TxHash p), Holds (p_TxHash q = p_TxHash p)}))"
proof (rule safe_db_write [OF assms(1)])
  fix X db show "store_step db (snd (Record X fence ev p db))" using assms(2) by (rule s_record)
next
  fix X db r db' assume a: "Record X fence ev p db = (r, db')" "db_inv db'"
  show "facts (c_chainID C) db' (case_sum (\<lambda>e. {Holds (store_error e)})
      (\<lambda>q. pending_facts q \<union> {Signed (p_TxHash p), Holds (p_TxHash q = p_TxHash p)}) r)"
  proof (cases r)
    case (Inl e)
    then show ?thesis using Record_error a(1) by simp
  next
    case (Inr q)
    then show ?thesis
      using Record_recorded [OF assms(2,3) a(1) [unfolded Inr] a(2)] unfolding pending_facts_def by simp
  qed
qed

text \<open>Updates of a scope's memory that keep, or drop, what it refers to.\<close>

lemma memory_facts_simps [simp]:
  "memory_facts (m\<lparr>m_epoch := e\<rparr>) = memory_facts m" "memory_facts (m\<lparr>m_awaiting := a\<rparr>) = memory_facts m"
  "memory_facts (m\<lparr>m_lastSeenPending := i\<rparr>) = memory_facts m" "memory_facts (m\<lparr>m_autoSeen := s\<rparr>) = memory_facts m"
  "memory_facts (m\<lparr>m_terminalRetry := None\<rparr>) \<subseteq> memory_facts m" "memory_facts (m\<lparr>m_consumeUnknown := None\<rparr>) \<subseteq> memory_facts m"
  by (auto simp: memory_facts_def)

lemma safe_setLastSeen [evm_safe]: "safe C F (setLastSeen s i) (\<lambda>_. {})"
  unfolding setLastSeen_def by (rule safe_updMemory) simp

lemma safe_clearLastSeen [evm_safe]: "safe C F (clearLastSeen s i) (\<lambda>_. {})"
  unfolding clearLastSeen_def by (rule safe_updMemory) simp

lemma safe_forgetObservation [evm_safe]: "safe C F (forgetObservation s) (\<lambda>_. {})"
  unfolding forgetObservation_def by (rule safe_updMemory) simp

lemma safe_setNonceCache [evm_safe]: "safe C F (setNonceCache s n) (\<lambda>_. {})"
  unfolding setNonceCache_def by (rule safe_upd) simp_all

lemma safe_stashTerminal [evm_safe]: "Row (p_ID p) (pending_ref p) \<in> F \<Longrightarrow> safe C F (stashTerminal fence s p t) (\<lambda>_. {})"
  unfolding stashTerminal_def by (rule safe_updMemory) (auto simp: memory_facts_def pending_facts_def)

lemma safe_outcomeCheckDue [evm_safe]: "safe C F (outcomeCheckDue i now) (\<lambda>_. {})"
  by (auto simp: safe_def outcomeCheckDue_def winv_def split: option.splits)

lemma safe_observe [evm_safe]: "safe C F (observe s h reason height) (\<lambda>_. {})"
  unfolding observe_def by (intro evm_safe safe_bind0 | simp)+

lemma safe_refreshNonce [evm_safe]: "env_ok E \<Longrightarrow> safe C F (refreshNonceFromChain E s) (\<lambda>_. {})"
  unfolding refreshNonceFromChain_def by (intro evm_safe safe_bind0 | simp)+

section \<open>The lease\<close>

lemma safe_lease_fence [evm_safe]: "env_ok E \<Longrightarrow> safe C F (lease_fence C E) (\<lambda>_. {})"
  unfolding lease_fence_def by (intro evm_safe safe_bind0 | simp)+

lemma lease_lost_neutral [simp]: "event_neutral (emptyAudit AuditLeaseLost)"
  by (simp add: event_defs)

lemma safe_lease_lose [evm_safe]: "env_ok E \<Longrightarrow> safe C F (lease_lose C E fence) (\<lambda>_. {})"
  unfolding lease_lose_def by (intro evm_safe safe_bind0 | simp)+

lemma safe_lease_tick [evm_safe]: "env_ok E \<Longrightarrow> safe C F (lease_tick C E) (\<lambda>_. {})"
  unfolding lease_tick_def by (intro evm_safe safe_bind0 | simp)+

lemma safe_lease_stop [evm_safe]: "env_ok E \<Longrightarrow> safe C F (lease_stop C E) (\<lambda>_. {})"
  unfolding lease_stop_def by (intro evm_safe safe_bind0 | simp)+

end
