(* ===== verification/Evm_Manager.thy ===== *)
theory Evm_Manager
  imports Evm_World
begin

text \<open>
  The signer's EVM state manager: the decision whether a request may be signed and the bookkeeping
  around a submission (\<open>modular/signer/evm_state_manager.go\<close>), the automatic disposition of rows the
  chain decides (\<open>evm_state_auto.go\<close>), recovery after a new lease (\<open>evm_state_recovery.go\<close>), and
  \<open>submitEvmTx\<close> with the retry loop of a request (\<open>signer_client.go\<close>).

  A Go result \<open>(hash string, handled bool, err error)\<close> is a triple with the empty string as \<open>None\<close>.
  A method runs under its scope lock, so one computation per scope; what other scopes and other
  processes do to the database in between is the oracle's \<open>env_others\<close>.
\<close>

type_synonym resolution = "hash option \<times> bool \<times> evm_error option"

section \<open>Evidence\<close>

definition st_verify :: "'tx signClient \<Rightarrow> signedTxEvidence option \<Rightarrow> evidenceRef \<Rightarrow> evm_error + 'tx" where
  "st_verify C evidence ref =
     (case verifySignedTxEvidence (c_eth C) evidence ref of
        Inl e \<Rightarrow> Inl e
      | Inr tx \<Rightarrow> if e_EvmChainID (the evidence) \<noteq> c_evmChainID C then Inl ErrEvmEvidenceInvalid else Inr tx)"

definition loadEvidence :: "'tx signClient \<Rightarrow> 'tx evmEnv \<Rightarrow> evmFence option \<Rightarrow> string \<Rightarrow> nat \<Rightarrow> evidenceRef \<Rightarrow> evmAuditEvent
    \<Rightarrow> ('tx, evm_error + 'tx) evm" where
  "loadEvidence C E fence kind rowID ref event = do {
     evidence \<leftarrow> db_read E (GetSignedTx (r_SignedTxID ref));
     case evidence of
       Inl e \<Rightarrow> ret (Inl e)
     | Inr ev \<Rightarrow>
       (case st_verify C ev ref of
          Inr tx \<Rightarrow> ret (Inr tx)
        | Inl err \<Rightarrow> do {
            w \<leftarrow> State_Monad.get;
            if w_audited w (kind, rowID) then ret (Inl err)
            else do {
              r \<leftarrow> db_write E (\<lambda>X. AppendAudit X fence (c_chainID C) (event\<lparr>a_Event := AuditEvidenceInvalid\<rparr>));
              (case r of Inr _ \<Rightarrow> upd (\<lambda>w. w\<lparr>w_audited := (w_audited w)((kind, rowID) := True)\<rparr>) | Inl _ \<Rightarrow> ret ());
              ret (Inl err) } }) }"

section \<open>Epochs\<close>

definition syncEvmScopeEpoch :: "'tx signClient \<Rightarrow> 'tx evmEnv \<Rightarrow> evmFence \<Rightarrow> SignType \<Rightarrow> pendingRecord option
    \<Rightarrow> ('tx, evm_error option) evm" where
  "syncEvmScopeEpoch C E fence scope known_pending = do {
     mem \<leftarrow> evm_memory scope;
     if m_epoch mem = f_Epoch fence then ret None
     else do {
       r \<leftarrow> (case known_pending of Some p \<Rightarrow> ret (Inr (Some p)) | None \<Rightarrow> db_read E (GetPending (c_chainID C) scope));
       case r of
         Inl e \<Rightarrow> ret (Some e)
       | Inr pending \<Rightarrow> do {
           setLastSeen scope (case pending of Some p \<Rightarrow> p_ID p | None \<Rightarrow> 0);
           err \<leftarrow> (if hasNonceCache scope \<and> c_mocaClients C scope then do {
               r \<leftarrow> ask E (\<lambda>n. env_accountNonce E n scope);
               case r of
                 None \<Rightarrow> ret (Some ErrEvmNonceUnsynced)
               | Some nonce \<Rightarrow> do {
                   setNonceCache scope (case pending of
                     Some p \<Rightarrow> if c_keyAddress C scope = Some (p_From p) \<and> p_Nonce p + 1 > nonce then p_Nonce p + 1 else nonce
                   | None \<Rightarrow> nonce);
                   ret None } }
             else ret None);
           case err of
             Some e \<Rightarrow> ret (Some e)
           | None \<Rightarrow> do { updMemory scope (\<lambda>m. m\<lparr>m_epoch := f_Epoch fence\<rparr>); ret None } } } }"

section \<open>Ending a pending row\<close>

definition readBackResolved :: "'tx signClient \<Rightarrow> 'tx evmEnv \<Rightarrow> pendingRecord \<Rightarrow> pendingTerminal \<Rightarrow> ('tx, evm_error + bool) evm" where
  "readBackResolved C E pending terminal = do {
     r \<leftarrow> db_read E (GetPending (c_chainID C) (p_Scope pending));
     case r of
       Inl e \<Rightarrow> ret (Inl e)
     | Inr current \<Rightarrow>
         if current \<noteq> None \<and> p_ID (the current) = p_ID pending then ret (Inr False)
         else db_read E (HasAudit (c_chainID C) (doneEvent (pt_Kind terminal)) (p_TxHash pending) 0) }"

definition applyTerminal :: "'tx signClient \<Rightarrow> 'tx evmEnv \<Rightarrow> evmFence \<Rightarrow> pendingRecord \<Rightarrow> pendingTerminal
    \<Rightarrow> ('tx, evm_error option) evm" where
  "applyTerminal C E fence pending terminal = do {
     r \<leftarrow> db_write E (\<lambda>X. ResolvePending X fence pending terminal);
     err \<leftarrow> (case r of
         Inr _ \<Rightarrow> ret None
       | Inl e \<Rightarrow> if isEvmCommitUnknown e then do {
             d \<leftarrow> readBackResolved C E pending terminal;
             ret (case d of Inr True \<Rightarrow> None | _ \<Rightarrow> Some e) }
           else ret (Some e));
     (if err = None then clearLastSeen (p_Scope pending) (p_ID pending) else ret ());
     ret err }"

definition landedKinds :: "pendingTerminalKind \<Rightarrow> pendingTerminalKind list" where
  "landedKinds kind = (if kind = TerminalSuccessConsume \<or> kind = TerminalSuccessKeep
     then [TerminalSuccessConsume, TerminalSuccessKeep] else [kind])"

primrec firstLanded :: "'tx signClient \<Rightarrow> 'tx evmEnv \<Rightarrow> pendingRecord \<Rightarrow> pendingTerminalKind list
    \<Rightarrow> ('tx, evm_error + pendingTerminalKind option) evm" where
  "firstLanded C E pending [] = ret (Inr None)"
| "firstLanded C E pending (k # ks) = do {
     r \<leftarrow> db_read E (HasAudit (c_chainID C) (doneEvent k) (p_TxHash pending) 0);
     case r of Inl e \<Rightarrow> ret (Inl e) | Inr hit \<Rightarrow> if hit then ret (Inr (Some k)) else firstLanded C E pending ks }"

definition landedTerminal :: "'tx signClient \<Rightarrow> 'tx evmEnv \<Rightarrow> pendingRecord \<Rightarrow> pendingTerminalKind
    \<Rightarrow> ('tx, evm_error + pendingTerminalKind option) evm" where
  "landedTerminal C E pending kind = firstLanded C E pending (landedKinds kind)"

section \<open>What only memory knows\<close>

text \<open>The three parts of \<open>retryEvmMemory\<close>; \<open>Some\<close> ends the request.\<close>

definition retryTerminal :: "'tx signClient \<Rightarrow> 'tx evmEnv \<Rightarrow> evmFence \<Rightarrow> SignType \<Rightarrow> hash \<Rightarrow> evmTerminalRetry
    \<Rightarrow> ('tx, resolution option) evm" where
  "retryTerminal C E fence scope operation retry = do {
     let pending = tr_pending retry;
     let terminal = (if pt_Kind (tr_terminal retry) = TerminalSuccessConsume \<and> p_Operation pending \<noteq> operation
       then (tr_terminal retry)\<lparr>pt_Kind := TerminalSuccessKeep\<rparr> else tr_terminal retry);
     err \<leftarrow> applyTerminal C E fence pending terminal;
     res \<leftarrow> (case err of
         None \<Rightarrow> ret (Inr (Some (pt_Kind terminal)))
       | Some e \<Rightarrow>
           if e = ErrEvmRowGone then do {
             r \<leftarrow> landedTerminal C E pending (pt_Kind (tr_terminal retry));
             case r of
               Inl e' \<Rightarrow> ret (Inl e')
             | Inr None \<Rightarrow> ret (Inr None)
             | Inr (Some landed) \<Rightarrow>
                 if landed = TerminalSuccessConsume then do {
                   updMemory scope (\<lambda>m. m\<lparr>m_awaiting := (m_awaiting m)(p_Operation pending := Some (p_TxHash pending))\<rparr>);
                   ret (Inr None) }
                 else ret (Inr (Some landed)) }
           else ret (Inl e));
     case res of
       Inl e \<Rightarrow> ret (Some (None, True, Some e))
     | Inr applied \<Rightarrow> do {
         updMemory scope (\<lambda>m. m\<lparr>m_terminalRetry := None\<rparr>);
         case applied of
           Some TerminalSuccessConsume \<Rightarrow> ret (Some (Some (p_TxHash pending), True, None))
         | Some TerminalNotAdmittedNonceLow \<Rightarrow> do { e \<leftarrow> refreshNonceFromChain E scope;
             ret (case e of None \<Rightarrow> None | Some e \<Rightarrow> Some (None, True, Some e)) }
         | Some TerminalNotAdmittedNonceHigh \<Rightarrow> do { e \<leftarrow> refreshNonceFromChain E scope;
             ret (case e of None \<Rightarrow> None | Some e \<Rightarrow> Some (None, True, Some e)) }
         | _ \<Rightarrow> ret None } }"

definition retryConsume :: "'tx signClient \<Rightarrow> 'tx evmEnv \<Rightarrow> SignType \<Rightarrow> outcomeRecord \<Rightarrow> ('tx, resolution option) evm" where
  "retryConsume C E scope consume = do {
     r \<leftarrow> db_read E (GetOutcome (c_chainID C) (o_Scope consume) (o_Operation consume));
     case r of
       Inl e \<Rightarrow> ret (Some (None, True, Some e))
     | Inr current \<Rightarrow> do {
         err \<leftarrow> (if current = None \<or> o_ID (the current) \<noteq> o_ID consume then do {
             r \<leftarrow> db_read E (HasAudit (c_chainID C) AuditOutcomeConsumed 0 (o_ID consume));
             case r of
               Inl e \<Rightarrow> ret (Some e)
             | Inr consumed \<Rightarrow> do {
                 (if consumed then updMemory scope (\<lambda>m. m\<lparr>m_awaiting :=
                    (m_awaiting m)(o_Operation consume := Some (o_ResultTxHash consume))\<rparr>) else ret ());
                 ret None } }
           else ret None);
         case err of
           Some e \<Rightarrow> ret (Some (None, True, Some e))
         | None \<Rightarrow> do { updMemory scope (\<lambda>m. m\<lparr>m_consumeUnknown := None\<rparr>); ret None } } }"

definition takeAwaiting :: "SignType \<Rightarrow> hash \<Rightarrow> ('tx, resolution option) evm" where
  "takeAwaiting scope operation =
     (if operation = 0 then ret None
      else do {
        mem \<leftarrow> evm_memory scope;
        updMemory scope (\<lambda>m. m\<lparr>m_awaiting := (m_awaiting m)(operation := None)\<rparr>);
        ret (case m_awaiting mem operation of Some h \<Rightarrow> Some (Some h, True, None) | None \<Rightarrow> None) })"

definition retryEvmMemory :: "'tx signClient \<Rightarrow> 'tx evmEnv \<Rightarrow> evmFence \<Rightarrow> SignType \<Rightarrow> hash \<Rightarrow> ('tx, resolution option) evm" where
  "retryEvmMemory C E fence scope operation = do {
     mem \<leftarrow> evm_memory scope;
     let consume = m_consumeUnknown mem;
     retry \<leftarrow> (case m_terminalRetry mem of
         Some retry \<Rightarrow> if notAdmitted (pt_Kind (tr_terminal retry)) \<and> tr_epoch retry \<noteq> f_Epoch fence
           then do { updMemory scope (\<lambda>m. m\<lparr>m_terminalRetry := None\<rparr>); ret None } else ret (Some retry)
       | None \<Rightarrow> ret None);
     r1 \<leftarrow> (case retry of Some retry \<Rightarrow> retryTerminal C E fence scope operation retry | None \<Rightarrow> ret None);
     case r1 of
       Some r \<Rightarrow> ret (Some r)
     | None \<Rightarrow> do {
         r2 \<leftarrow> (case consume of Some out \<Rightarrow> retryConsume C E scope out | None \<Rightarrow> ret None);
         case r2 of Some r \<Rightarrow> ret (Some r) | None \<Rightarrow> takeAwaiting scope operation } }"


section \<open>Automatic disposition\<close>

definition evmReasonReceiptMissing :: string where "evmReasonReceiptMissing = ''receipt_missing''"
definition evmReasonNonceGap :: string where "evmReasonNonceGap = ''nonce_gap''"
definition evmReasonDropped :: string where "evmReasonDropped = ''dropped''"
definition evmEvidenceKindEVM :: string where "evmEvidenceKindEVM = ''evm''"
definition evmEvidenceKindCosmos :: string where "evmEvidenceKindCosmos = ''cosmos''"
definition evmSupersedeWindow :: nat where "evmSupersedeWindow = 1000"

definition hash_Hex :: "hash \<Rightarrow> string" where
  "hash_Hex h = ''0x'' @ map (\<lambda>i. ''0123456789abcdef'' ! (unat (drop_bit (4 * i) h) mod 16)) (rev [0..<64])"

definition checkEvm :: "'tx signClient \<Rightarrow> 'tx evmEnv \<Rightarrow> ('tx, bool) evm" where
  "checkEvm C E = do {
     r \<leftarrow> ask E (env_evmChainID E);
     ret (case r of None \<Rightarrow> False | Some cid \<Rightarrow> IsUint64 cid \<and> word_of_int cid = c_evmChainID C) }"

definition checkCosmos :: "'tx signClient \<Rightarrow> 'tx evmEnv \<Rightarrow> ('tx, bool) evm" where
  "checkCosmos C E = do { r \<leftarrow> ask E (env_network E); ret (r = Some (c_chainID C)) }"

definition autoBlocked :: "string \<Rightarrow> outcomeRecord" where
  "autoBlocked reason = \<lparr>o_ID = 0, o_SignedTxID = 0, o_ChainID = [], o_Scope = [], o_Operation = 0, o_From = 0, o_Nonce = 0,
     o_TxHash = 0, o_ResultTxHash = 0, o_State = OutcomeBlockedUnknown, o_EvidenceTxHash = [], o_EvidenceKind = [],
     o_Reason = reason, o_ReceiptBlock = 0, o_Source = SourceAuto\<rparr>"

definition withCosmosEvidence :: "evmAuditEvent \<Rightarrow> CosmosTxView \<Rightarrow> evmAuditEvent" where
  "withCosmosEvidence event view =
     (let event' = event\<lparr>a_EvidenceTxHash := v_Hash view, a_EvidenceKind := evmEvidenceKindCosmos\<rparr>
      in if v_Height view \<noteq> 0 then event'\<lparr>a_ReceiptBlock := Some (v_Height view)\<rparr> else event')"

definition applyAutoPending :: "'tx signClient \<Rightarrow> 'tx evmEnv \<Rightarrow> evmFence \<Rightarrow> SignType \<Rightarrow> pendingRecord \<Rightarrow> outcomeRecord option
    \<Rightarrow> evmAuditEvent \<Rightarrow> u64 \<Rightarrow> ('tx, bool \<times> evm_error option) evm" where
  "applyAutoPending C E fence scope pending result ev nextNonce = do {
     let event = (case result of Some out \<Rightarrow> ev\<lparr>a_OutcomeID := Some (p_ID pending), a_OutcomeState := Some (o_State out),
            a_OutcomeReason := o_Reason out\<rparr> | None \<Rightarrow> ev);
     r \<leftarrow> db_write E (\<lambda>X. AutoResolvePending X fence pending result event);
     err \<leftarrow> (case r of
         Inr _ \<Rightarrow> ret None
       | Inl e \<Rightarrow> if isEvmCommitUnknown e then do {
             r \<leftarrow> db_read E (GetPending (c_chainID C) scope);
             case r of
               Inl _ \<Rightarrow> ret (Some e)
             | Inr current \<Rightarrow>
                 if current = None \<or> p_ID (the current) \<noteq> p_ID pending then do {
                   d \<leftarrow> db_read E (HasAudit (c_chainID C) (a_Event event) (p_TxHash pending) 0);
                   ret (case d of Inr True \<Rightarrow> None | _ \<Rightarrow> Some e) }
                 else ret (Some e) }
           else ret (Some e));
     case err of
       Some e \<Rightarrow> if e = ErrEvmRowGone then ret (True, None) else ret (False, Some e)
     | None \<Rightarrow> do {
         clearLastSeen scope (p_ID pending);
         forgetObservation scope;
         (if c_keyAddress C scope = Some (p_From pending) \<and> hasNonceCache scope then setNonceCache scope nextNonce else ret ());
         ret (True, None) } }"

text \<open>The case that the nonce is used: \<open>moved\<close> and the error, the bytes are not re-sent.\<close>

definition autoNonceUsed :: "'tx signClient \<Rightarrow> 'tx evmEnv \<Rightarrow> evmFence \<Rightarrow> SignType \<Rightarrow> pendingRecord \<Rightarrow> evmAuditEvent \<Rightarrow> u64 \<Rightarrow> u64
    \<Rightarrow> ('tx, bool \<times> evm_error option) evm" where
  "autoNonceUsed C E fence scope pending base height chainNonce =
     (if \<not> c_autoCosmos C then ret (False, None)
      else do {
        ok \<leftarrow> checkCosmos C E;
        if \<not> ok then ret (False, Some ErrRpc)
        else do {
          s \<leftarrow> ask E (\<lambda>n. env_searchEthereumTx E n (p_TxHash pending) height);
          case s of
            IndexDisabled \<Rightarrow> ret (False, None)
          | SearchError \<Rightarrow> ret (False, Some ErrRpc)
          | SearchFound (Some view) \<Rightarrow>
              if v_Code view \<noteq> 0 then
                if \<not> c_failedTxRollsBack C then ret (False, None)
                else applyAutoPending C E fence scope pending None
                  ((withCosmosEvidence base view)\<lparr>a_Event := AuditAutoResolvedFailed\<rparr>) chainNonce
              else do { forgetObservation scope; ret (False, None) }
          | SearchFound None \<Rightarrow> do {
              again \<leftarrow> observe scope (p_TxHash pending) evmReasonReceiptMissing height;
              if \<not> again then ret (False, None)
              else applyAutoPending C E fence scope pending (Some (autoBlocked evmReasonReceiptMissing))
                (base\<lparr>a_Event := AuditAutoBlockedMissing\<rparr>) chainNonce } } })"

definition autoDisposePending :: "'tx signClient \<Rightarrow> 'tx evmEnv \<Rightarrow> evmFence \<Rightarrow> SignType \<Rightarrow> pendingRecord \<Rightarrow> 'tx
    \<Rightarrow> ('tx, bool \<times> bool \<times> evm_error option) evm" where
  "autoDisposePending C E fence scope pending signedTx =
     (if \<not> c_autoEvm C then ret (False, False, None)
      else do {
        ok \<leftarrow> checkEvm C E;
        if \<not> ok then ret (False, False, Some ErrRpc)
        else do {
          h \<leftarrow> ask E (env_blockNumber E);
          case h of None \<Rightarrow> ret (False, False, Some ErrRpc)
          | Some height \<Rightarrow> do {
              c \<leftarrow> ask E (\<lambda>n. env_nonceAt E n (p_From pending) height);
              case c of None \<Rightarrow> ret (False, False, Some ErrRpc)
              | Some chainNonce \<Rightarrow> do {
                  let base = (pending_audit pending AuditNone)\<lparr>a_ChainNonce := Some chainNonce, a_ChainHeight := Some height\<rparr>;
                  if chainNonce > p_Nonce pending then do {
                    r \<leftarrow> autoNonceUsed C E fence scope pending base height chainNonce;
                    ret (fst r, False, snd r) }
                  else do {
                    pn \<leftarrow> ask E (\<lambda>n. env_pendingNonceAt E n (p_From pending));
                    case pn of None \<Rightarrow> ret (False, False, Some ErrRpc)
                    | Some pendingNonce \<Rightarrow>
                        if pendingNonce \<noteq> chainNonce then do { forgetObservation scope; ret (False, False, None) }
                        else do {
                          sendErr \<leftarrow> sendEvmTx E signedTx;
                          ended \<leftarrow> ask E (env_ctxDone E);
                          let classified = classifyEvmSendError ended sendErr;
                          let decided = (if chainNonce = p_Nonce pending \<and> classified = EvmSendRejected
                              then Some (evmReasonDropped, AuditAutoBlockedDropped)
                            else if chainNonce < p_Nonce pending \<and> classified = EvmSendNonceRejected
                                \<and> isEvmNonceHighError (se_text (the sendErr))
                              then Some (evmReasonNonceGap, AuditAutoBlockedNonceGap) else None);
                          case decided of
                            None \<Rightarrow> do { forgetObservation scope; ret (False, True, None) }
                          | Some (reason, name) \<Rightarrow> do {
                              again \<leftarrow> observe scope (p_TxHash pending) reason height;
                              if \<not> again then ret (False, True, None)
                              else do {
                                r \<leftarrow> applyAutoPending C E fence scope pending (Some (autoBlocked reason)) (base\<lparr>a_Event := name\<rparr>) chainNonce;
                                ret (fst r, True, snd r) } } } } } } } })"

definition applyAutoOutcome :: "'tx signClient \<Rightarrow> 'tx evmEnv \<Rightarrow> evmFence \<Rightarrow> outcomeRecord \<Rightarrow> outcomeRecord option \<Rightarrow> evmAuditEvent
    \<Rightarrow> ('tx, bool \<times> evm_error option) evm" where
  "applyAutoOutcome C E fence outcome to ev = do {
     let event = (case to of Some out \<Rightarrow> ev\<lparr>a_OutcomeState := Some (o_State out)\<rparr> | None \<Rightarrow> ev);
     r \<leftarrow> db_write E (\<lambda>X. AutoSettleOutcome X fence outcome [OutcomeBlockedUnknown] to event);
     err \<leftarrow> (case r of
         Inr _ \<Rightarrow> ret None
       | Inl e \<Rightarrow> if isEvmCommitUnknown e then do {
             d \<leftarrow> db_read E (HasAudit (c_chainID C) (a_Event event) 0 (o_ID outcome));
             ret (case d of Inr True \<Rightarrow> None | _ \<Rightarrow> Some e) }
           else ret (Some e));
     case err of
       Some e \<Rightarrow> if e = ErrEvmRowGone \<or> e = ErrEvmStateConflict then ret (True, None) else ret (False, Some e)
     | None \<Rightarrow> do { upd (\<lambda>w. w\<lparr>w_outcomeChecked := (w_outcomeChecked w)(o_ID outcome := None)\<rparr>); ret (True, None) } }"

definition receiptAtOrBelow :: "'tx evmEnv \<Rightarrow> hash \<Rightarrow> u64 \<Rightarrow> ('tx, evm_error + bool) evm" where
  "receiptAtOrBelow E h height = do {
     r \<leftarrow> ask E (\<lambda>n. env_receipt E n h);
     ret (case r of ReceiptNotFound \<Rightarrow> Inr False | ReceiptNil \<Rightarrow> Inr False | ReceiptError \<Rightarrow> Inl ErrRpc
          | ReceiptIs rc \<Rightarrow> Inr (case rc_BlockNumber rc of None \<Rightarrow> False | Some b \<Rightarrow> b \<le> height)) }"

definition supersededBy :: "evmAuditEvent \<Rightarrow> signedTxEvidence \<Rightarrow> evmAuditEvent" where
  "supersededBy base row = base\<lparr>a_Event := AuditAutoOutcomeSuperseded, a_EvidenceTxHash := hash_Hex (e_TxHash row),
     a_EvidenceKind := evmEvidenceKindEVM\<rparr>"

definition keepFirst :: "evm_error option \<Rightarrow> evm_error \<Rightarrow> evm_error option" where
  "keepFirst readErr e = (case readErr of None \<Rightarrow> Some e | Some _ \<Rightarrow> readErr)"

text \<open>The two loops of \<open>autoSettleOutcome\<close> over the other transactions signed at the same nonce: their
  receipts (\<open>Inl\<close> settles, \<open>Inr\<close> goes on with the rows without one), then the index.\<close>

primrec settleByReceipts :: "'tx signClient \<Rightarrow> 'tx evmEnv \<Rightarrow> evmFence \<Rightarrow> outcomeRecord \<Rightarrow> evmAuditEvent \<Rightarrow> u64
    \<Rightarrow> signedTxEvidence list \<Rightarrow> signedTxEvidence list \<Rightarrow> evm_error option
    \<Rightarrow> ('tx, (bool \<times> evm_error option) + (signedTxEvidence list \<times> evm_error option)) evm" where
  "settleByReceipts C E fence outcome base height [] others readErr = ret (Inr (others, readErr))"
| "settleByReceipts C E fence outcome base height (row # rows) others readErr =
     (if e_TxHash row = o_TxHash outcome then settleByReceipts C E fence outcome base height rows others readErr
      else (case st_verify C (Some row) \<lparr>r_SignedTxID = e_ID row, r_ChainID = e_ChainID row, r_Scope = e_Scope row,
              r_Operation = e_Operation row, r_From = e_From row, r_Nonce = e_Nonce row, r_TxHash = e_TxHash row\<rparr> of
          Inl _ \<Rightarrow> settleByReceipts C E fence outcome base height rows others readErr
        | Inr _ \<Rightarrow> do {
            r \<leftarrow> receiptAtOrBelow E (e_TxHash row) height;
            case r of
              Inl e \<Rightarrow> settleByReceipts C E fence outcome base height rows (others @ [row]) (keepFirst readErr e)
            | Inr True \<Rightarrow> do { s \<leftarrow> applyAutoOutcome C E fence outcome None (supersededBy base row); ret (Inl s) }
            | Inr False \<Rightarrow> settleByReceipts C E fence outcome base height rows (others @ [row]) readErr }))"

primrec settleByIndex :: "'tx signClient \<Rightarrow> 'tx evmEnv \<Rightarrow> evmFence \<Rightarrow> outcomeRecord \<Rightarrow> evmAuditEvent \<Rightarrow> u64
    \<Rightarrow> signedTxEvidence list \<Rightarrow> evm_error option \<Rightarrow> ('tx, bool \<times> evm_error option) evm" where
  "settleByIndex C E fence outcome base height [] readErr = ret (False, readErr)"
| "settleByIndex C E fence outcome base height (row # rows) readErr = do {
     s \<leftarrow> ask E (\<lambda>n. env_searchEthereumTx E n (e_TxHash row) height);
     case s of
       IndexDisabled \<Rightarrow> ret (False, readErr)
     | SearchError \<Rightarrow> settleByIndex C E fence outcome base height rows (keepFirst readErr ErrRpc)
     | SearchFound (Some _) \<Rightarrow> applyAutoOutcome C E fence outcome None (supersededBy base row)
     | SearchFound None \<Rightarrow> settleByIndex C E fence outcome base height rows readErr }"

text \<open>The part of \<open>autoSettleOutcome\<close> after the original's receipt: the other transactions at the nonce,
  then the index of the Cosmos node.\<close>

definition settleFromIndex :: "'tx signClient \<Rightarrow> 'tx evmEnv \<Rightarrow> evmFence \<Rightarrow> outcomeRecord \<Rightarrow> evmAuditEvent \<Rightarrow> u64
    \<Rightarrow> signedTxEvidence list \<Rightarrow> evm_error option \<Rightarrow> ('tx, bool \<times> evm_error option) evm" where
  "settleFromIndex C E fence outcome base height others readErr =
     (if \<not> c_autoCosmos C then ret (False, readErr)
      else do {
        ok \<leftarrow> checkCosmos C E;
        if \<not> ok then ret (False, keepFirst readErr ErrRpc)
        else do {
          s \<leftarrow> ask E (\<lambda>n. env_searchEthereumTx E n (o_TxHash outcome) height);
          case s of
            IndexDisabled \<Rightarrow> ret (False, readErr)
          | SearchError \<Rightarrow> settleByIndex C E fence outcome base height others (keepFirst readErr ErrRpc)
          | SearchFound (Some view) \<Rightarrow>
              if v_Code view \<noteq> 0 \<and> c_failedTxRollsBack C
              then applyAutoOutcome C E fence outcome None
                ((withCosmosEvidence base view)\<lparr>a_Event := AuditAutoOutcomeFailed\<rparr>)
              else settleByIndex C E fence outcome base height others readErr
          | SearchFound None \<Rightarrow> settleByIndex C E fence outcome base height others readErr } })"

definition settleFromOthers :: "'tx signClient \<Rightarrow> 'tx evmEnv \<Rightarrow> evmFence \<Rightarrow> outcomeRecord \<Rightarrow> evmAuditEvent \<Rightarrow> u64
    \<Rightarrow> evm_error option \<Rightarrow> ('tx, bool \<times> evm_error option) evm" where
  "settleFromOthers C E fence outcome base height readErr = do {
     rows \<leftarrow> db_read E (ListSignedTxAtNonce (c_chainID C) (o_From outcome) (o_Nonce outcome) (o_SignedTxID outcome) evmSupersedeWindow);
     case rows of
       Inl e \<Rightarrow> ret (False, Some e)
     | Inr rows \<Rightarrow> do {
         r \<leftarrow> settleByReceipts C E fence outcome base height rows [] readErr;
         case r of
           Inl s \<Rightarrow> ret s
         | Inr (others, readErr) \<Rightarrow> settleFromIndex C E fence outcome base height others readErr } }"

definition autoSettleOutcome :: "'tx signClient \<Rightarrow> 'tx evmEnv \<Rightarrow> evmFence \<Rightarrow> outcomeRecord \<Rightarrow> ('tx, bool \<times> evm_error option) evm" where
  "autoSettleOutcome C E fence outcome =
     (if \<not> c_autoEvm C \<or> o_State outcome \<noteq> OutcomeBlockedUnknown then ret (False, None)
      else do {
        now \<leftarrow> ask E (env_time E);
        due \<leftarrow> outcomeCheckDue (o_ID outcome) now;
        if \<not> due then ret (False, None)
        else do {
          ok \<leftarrow> checkEvm C E;
          if \<not> ok then ret (False, Some ErrRpc)
          else do {
            h \<leftarrow> ask E (env_blockNumber E);
            case h of None \<Rightarrow> ret (False, Some ErrRpc)
            | Some height \<Rightarrow> do {
                let base = (outcome_audit outcome AuditNone)\<lparr>a_ChainHeight := Some height\<rparr>;
                r \<leftarrow> ask E (\<lambda>n. env_receipt E n (o_TxHash outcome));
                case r of
                  ReceiptNotFound \<Rightarrow> settleFromOthers C E fence outcome base height None
                | ReceiptNil \<Rightarrow> settleFromOthers C E fence outcome base height None
                | ReceiptError \<Rightarrow> settleFromOthers C E fence outcome base height (Some ErrRpc)
                | ReceiptIs rc \<Rightarrow>
                    (case rc_BlockNumber rc of
                       None \<Rightarrow> settleFromOthers C E fence outcome base height None
                     | Some b \<Rightarrow>
                         if b > height then settleFromOthers C E fence outcome base height None
                         else let event = base\<lparr>a_ReceiptStatus := Some (rc_Status rc), a_ReceiptBlock := Some b\<rparr> in
                           if rc_Status rc \<noteq> ReceiptStatusSuccessful
                           then applyAutoOutcome C E fence outcome None (event\<lparr>a_Event := AuditAutoOutcomeFailed\<rparr>)
                           else applyAutoOutcome C E fence outcome
                             (Some ((autoBlocked [])\<lparr>o_State := OutcomeSucceeded, o_ResultTxHash := o_TxHash outcome,
                                o_ReceiptBlock := b\<rparr>))
                             (event\<lparr>a_Event := AuditAutoOutcomeSucceeded\<rparr>)) } } } })"


section \<open>Deciding a request\<close>

definition readBackConsumed :: "'tx signClient \<Rightarrow> 'tx evmEnv \<Rightarrow> outcomeRecord \<Rightarrow> ('tx, evm_error + bool) evm" where
  "readBackConsumed C E outcome = do {
     r \<leftarrow> db_read E (GetOutcome (c_chainID C) (o_Scope outcome) (o_Operation outcome));
     case r of
       Inl e \<Rightarrow> ret (Inl e)
     | Inr current \<Rightarrow>
         if current \<noteq> None \<and> o_ID (the current) = o_ID outcome then ret (Inr False)
         else db_read E (HasAudit (c_chainID C) AuditOutcomeConsumed 0 (o_ID outcome)) }"

text \<open>\<open>again\<close> is the recursive call of \<open>resolveEvmState\<close> at the next depth.\<close>

definition consumeOutcome :: "'tx signClient \<Rightarrow> 'tx evmEnv \<Rightarrow> evmFence \<Rightarrow> SignType \<Rightarrow> outcomeRecord \<Rightarrow> ('tx, resolution) evm
    \<Rightarrow> ('tx, resolution) evm" where
  "consumeOutcome C E fence scope outcome again = do {
     r \<leftarrow> db_write E (\<lambda>X. ConsumeOutcome X fence outcome);
     case r of
       Inr _ \<Rightarrow> ret (Some (o_ResultTxHash outcome), True, None)
     | Inl e \<Rightarrow>
         if e = ErrEvmRowGone then again
         else if isEvmCommitUnknown e then do {
           d \<leftarrow> readBackConsumed C E outcome;
           if d = Inr True then ret (Some (o_ResultTxHash outcome), True, None)
           else do {
             updMemory scope (\<lambda>m. m\<lparr>m_consumeUnknown := Some outcome\<rparr>);
             ret (None, True, Some e) } }
         else ret (None, True, Some e) }"

definition rebroadcastPendingEvmTx :: "'tx evmEnv \<Rightarrow> 'tx \<Rightarrow> ('tx, unit) evm" where
  "rebroadcastPendingEvmTx E signedTx = do {
     ended \<leftarrow> ask E (env_ctxDone E);
     if ended then ret () else do { _ \<leftarrow> sendEvmTx E signedTx; ret () } }"

definition evmResolveMaxDepth :: nat where "evmResolveMaxDepth = 4"

definition receiptTerminal :: "receipt \<Rightarrow> pendingTerminalKind \<Rightarrow> evmSource \<Rightarrow> pendingTerminal" where
  "receiptTerminal rc kind source = \<lparr>pt_Kind = kind, pt_ReceiptStatus = Some (rc_Status rc),
     pt_ReceiptBlock = (case rc_BlockNumber rc of Some b \<Rightarrow> b | None \<Rightarrow> 0), pt_Source = source\<rparr>"

text \<open>Step 4 of \<open>resolveEvmState\<close>: the scope's pending transaction.\<close>

definition resolvePendingRow :: "'tx signClient \<Rightarrow> 'tx evmEnv \<Rightarrow> evmFence \<Rightarrow> SignType \<Rightarrow> hash \<Rightarrow> ('tx, resolution) evm
    \<Rightarrow> ('tx, resolution) evm" where
  "resolvePendingRow C E fence scope operation again = do {
     r \<leftarrow> db_read E (GetPending (c_chainID C) scope);
     case r of
       Inl e \<Rightarrow> ret (None, True, Some e)
     | Inr None \<Rightarrow> do {
         mem \<leftarrow> evm_memory scope;
         let lastSeen = m_lastSeenPending mem;
         if lastSeen \<noteq> 0 then do {
           r \<leftarrow> db_write E (\<lambda>X. AppendAudit X (Some fence) (c_chainID C) ((emptyAudit AuditPendingVanished)\<lparr>a_Scope := scope\<rparr>));
           case r of
             Inl e \<Rightarrow> ret (None, True, Some e)
           | Inr _ \<Rightarrow> do {
               err \<leftarrow> refreshNonceFromChain E scope;
               case err of
                 Some e \<Rightarrow> ret (None, True, Some e)
               | None \<Rightarrow> do { clearLastSeen scope lastSeen; ret (None, False, None) } } }
         else ret (None, False, None) }
     | Inr (Some pending) \<Rightarrow> do {
         setLastSeen scope (p_ID pending);
         tx \<leftarrow> loadEvidence C E (Some fence) ''pending'' (p_ID pending) (pending_ref pending) (pending_audit pending AuditNone);
         case tx of
           Inl e \<Rightarrow> ret (Some (p_TxHash pending), True, Some e)
         | Inr signedTx \<Rightarrow> do {
             answer \<leftarrow> ask E (\<lambda>n. env_receipt E n (p_TxHash pending));
             case answer of
               ReceiptIs rc \<Rightarrow> do {
                 let kind = (if rc_Status rc = ReceiptStatusSuccessful
                   then (if p_Operation pending = operation then TerminalSuccessConsume else TerminalSuccessKeep)
                   else TerminalFailed);
                 let terminal = receiptTerminal rc kind SourceResolve;
                 err \<leftarrow> applyTerminal C E fence pending terminal;
                 case err of
                   None \<Rightarrow> ret (if kind = TerminalSuccessConsume then (Some (p_TxHash pending), True, None) else (None, False, None))
                 | Some e \<Rightarrow>
                     if e = ErrEvmRowGone then again
                     else do { stashTerminal fence scope pending terminal; ret (None, True, Some e) } }
             | _ \<Rightarrow> do {
                 r \<leftarrow> autoDisposePending C E fence scope pending signedTx;
                 case r of (moved, sent, _) \<Rightarrow>
                   if moved then again
                   else do {
                     (if \<not> sent then rebroadcastPendingEvmTx E signedTx else ret ());
                     ret (Some (p_TxHash pending), True, Some ErrUnconfirmed) } } } } }"

function resolveEvmState :: "'tx signClient \<Rightarrow> 'tx evmEnv \<Rightarrow> evmFence \<Rightarrow> SignType \<Rightarrow> hash \<Rightarrow> nat \<Rightarrow> ('tx, resolution) evm" where
  "resolveEvmState C E fence scope operation depth =
     (if depth > evmResolveMaxDepth then ret (None, True, Some ErrKeepsChanging)
      else do {
        m \<leftarrow> retryEvmMemory C E fence scope operation;
        case m of
          Some r \<Rightarrow> ret r
        | None \<Rightarrow> do {
            o1 \<leftarrow> (if operation \<noteq> 0 then db_read E (GetOutcome (c_chainID C) scope operation) else ret (Inr None));
            case o1 of
              Inl e \<Rightarrow> ret (None, True, Some e)
            | Inr None \<Rightarrow> resolvePendingRow C E fence scope operation (resolveEvmState C E fence scope operation (depth + 1))
            | Inr (Some outcome) \<Rightarrow> do {
                ev \<leftarrow> loadEvidence C E (Some fence) ''outcome'' (o_ID outcome) (outcome_ref outcome) (outcome_audit outcome AuditNone);
                case ev of
                  Inl e \<Rightarrow> ret (None, True, Some e)
                | Inr _ \<Rightarrow>
                    (case o_State outcome of
                       OutcomeSucceeded \<Rightarrow>
                         consumeOutcome C E fence scope outcome (resolveEvmState C E fence scope operation (depth + 1))
                     | OutcomeExecutedElsewhere \<Rightarrow> ret (None, True, Some ErrOperationBlocked)
                     | OutcomeBlockedUnknown \<Rightarrow> do {
                         s \<leftarrow> autoSettleOutcome C E fence outcome;
                         if fst s then resolveEvmState C E fence scope operation (depth + 1)
                         else ret (None, True, Some ErrOperationBlocked) }
                     | _ \<Rightarrow> ret (None, True, Some ErrEvmStateConflict)) } } })"
  by pat_completeness auto
termination
  by (relation "measure (\<lambda>(_, _, _, _, _, depth). evmResolveMaxDepth + 1 - depth)") auto

declare resolveEvmState.simps [simp del]

definition resolvePendingEvmTx :: "'tx signClient \<Rightarrow> 'tx evmEnv \<Rightarrow> SignType \<Rightarrow> hash \<Rightarrow> ('tx, resolution) evm" where
  "resolvePendingEvmTx C E scope operation =
     (if \<not> c_evm C then ret (None, True, Some ErrEvmStateNotConfigured)
      else do {
        f \<leftarrow> lease_fence C E;
        case f of
          None \<Rightarrow> ret (None, True, Some ErrEvmLeaseNotHeld)
        | Some fence \<Rightarrow> do {
            syncErr \<leftarrow> syncEvmScopeEpoch C E fence scope None;
            if syncErr \<noteq> None \<and> syncErr \<noteq> Some ErrEvmNonceUnsynced then ret (None, True, syncErr)
            else do {
              r \<leftarrow> resolveEvmState C E fence scope operation 0;
              case r of (h, handled, err) \<Rightarrow>
                if handled \<or> syncErr = None then ret (h, handled, err)
                else ret (None, True, syncErr) } } })"

section \<open>Submitting\<close>

definition newEvidence :: "'tx signClient \<Rightarrow> SignType \<Rightarrow> hash \<Rightarrow> 'tx \<Rightarrow> bytes \<Rightarrow> int \<Rightarrow> address \<Rightarrow> u64 \<Rightarrow> signedTxEvidence" where
  "newEvidence C scope operation signedTx raw cid sender block = \<lparr>e_ID = 0, e_ChainID = c_chainID C, e_EvmChainID = word_of_int cid,
     e_Scope = scope, e_Operation = operation, e_From = sender, e_Nonce = tx_Nonce (c_eth C) signedTx,
     e_TxHash = tx_Hash (c_eth C) signedTx, e_Raw = raw, e_RecordedBlock = block, e_LeaseEpoch = 0\<rparr>"

definition newPending :: "'tx signClient \<Rightarrow> SignType \<Rightarrow> hash \<Rightarrow> 'tx \<Rightarrow> address \<Rightarrow> pendingRecord" where
  "newPending C scope operation signedTx sender = \<lparr>p_ID = 0, p_ChainID = c_chainID C, p_SignedTxID = 0, p_Scope = scope,
     p_From = sender, p_Nonce = tx_Nonce (c_eth C) signedTx, p_TxHash = tx_Hash (c_eth C) signedTx, p_Operation = operation,
     p_Ambiguous = False, p_LeaseEpoch = 0\<rparr>"

definition recordPendingEvmTx :: "'tx signClient \<Rightarrow> 'tx evmEnv \<Rightarrow> evmFence \<Rightarrow> SignType \<Rightarrow> hash \<Rightarrow> 'tx \<Rightarrow> bytes
    \<Rightarrow> ('tx, evm_error + pendingRecord) evm" where
  "recordPendingEvmTx C E fence scope operation signedTx raw =
     (case tx_ChainId (c_eth C) signedTx of
        None \<Rightarrow> ret (Inl ErrEncoding)
      | Some cid \<Rightarrow>
        if \<not> IsUint64 cid then ret (Inl ErrEncoding)
        else (case tx_Sender (c_eth C) cid signedTx of
          None \<Rightarrow> ret (Inl ErrEncoding)
        | Some from \<Rightarrow> do {
            b \<leftarrow> ask E (env_blockNumber E);
            case b of
              None \<Rightarrow> ret (Inl ErrRpc)
            | Some block \<Rightarrow> do {
                let txHash = tx_Hash (c_eth C) signedTx;
                r \<leftarrow> db_write E (\<lambda>X. Record X fence (newEvidence C scope operation signedTx raw cid from block)
                  (newPending C scope operation signedTx from));
                r' \<leftarrow> (case r of
                    Inl e \<Rightarrow> if isEvmCommitUnknown e then do {
                        current \<leftarrow> db_read E (GetPending (c_chainID C) scope);
                        ret (case current of
                            Inr (Some p) \<Rightarrow> if p_TxHash p = txHash then Inr p else Inl e
                          | _ \<Rightarrow> Inl e) }
                      else ret (Inl e)
                  | Inr p \<Rightarrow> ret (Inr p));
                case r' of
                  Inl e \<Rightarrow> ret (Inl e)
                | Inr recorded \<Rightarrow> do { setLastSeen scope (p_ID recorded); ret (Inr recorded) } } }))"

definition markPendingEvmTxAmbiguous :: "'tx evmEnv \<Rightarrow> evmFence \<Rightarrow> pendingRecord \<Rightarrow> ('tx, unit) evm" where
  "markPendingEvmTxAmbiguous E fence pending = do { _ \<leftarrow> db_write E (\<lambda>X. MarkAmbiguous X fence pending); ret () }"

definition finishPendingEvmTx :: "'tx signClient \<Rightarrow> 'tx evmEnv \<Rightarrow> evmFence \<Rightarrow> pendingRecord \<Rightarrow> pendingTerminal
    \<Rightarrow> ('tx, evm_error option) evm" where
  "finishPendingEvmTx C E fence pending terminal = do {
     err \<leftarrow> applyTerminal C E fence pending terminal;
     (if err \<noteq> None then stashTerminal fence (p_Scope pending) pending terminal else ret ());
     ret err }"

definition BroadcastTxRetry :: nat where "BroadcastTxRetry = 3"

text \<open>The re-broadcasts after an ambiguous submit, at most the given number.\<close>

primrec resend :: "'tx evmEnv \<Rightarrow> 'tx \<Rightarrow> nat \<Rightarrow> ('tx, unit) evm" where
  "resend E tx 0 = ret ()"
| "resend E tx (Suc n) = do {
     ended \<leftarrow> ask E (env_ctxDone E);
     if ended then ret ()
     else do {
       err \<leftarrow> sendEvmTx E tx;
       ended \<leftarrow> ask E (env_ctxDone E);
       if evmNodeAnswered ended err then ret () else resend E tx n } }"

definition refusal :: "pendingTerminalKind \<Rightarrow> pendingTerminal" where
  "refusal kind = \<lparr>pt_Kind = kind, pt_ReceiptStatus = None, pt_ReceiptBlock = 0, pt_Source = SourceNone\<rparr>"

definition awaitReceipt :: "'tx signClient \<Rightarrow> 'tx evmEnv \<Rightarrow> evmFence \<Rightarrow> pendingRecord \<Rightarrow> hash \<Rightarrow> ('tx, hash option \<times> evm_error option) evm" where
  "awaitReceipt C E fence pending txHash = do {
     rc \<leftarrow> ask E (\<lambda>n. env_waitReceipt E n txHash);
     case rc of
       None \<Rightarrow> ret (Some txHash, Some ErrUnconfirmed)
     | Some rc \<Rightarrow> do {
         err \<leftarrow> finishPendingEvmTx C E fence pending (receiptTerminal rc TerminalSuccessConsume SourceSubmit);
         ret (Some txHash, err) } }"

definition submitEvmTx :: "'tx signClient \<Rightarrow> 'tx evmEnv \<Rightarrow> SignType \<Rightarrow> hash \<Rightarrow> 'tx \<Rightarrow> ('tx, hash option \<times> evm_error option) evm" where
  "submitEvmTx C E scope operation signedTx = do {
     ended \<leftarrow> ask E (env_ctxDone E);
     if ended then ret (None, Some ErrContext)
     else if \<not> c_evm C then ret (None, Some ErrEvmStateNotConfigured)
     else do {
       f \<leftarrow> lease_fence C E;
       case f of
         None \<Rightarrow> ret (None, Some ErrEvmLeaseNotHeld)
       | Some fence \<Rightarrow>
         (case MarshalBinary (c_eth C) signedTx of
            None \<Rightarrow> ret (None, Some ErrEncoding)
          | Some raw \<Rightarrow> do {
              let txHash = tx_Hash (c_eth C) signedTx;
              r \<leftarrow> recordPendingEvmTx C E fence scope operation signedTx raw;
              case r of
                Inl e \<Rightarrow> ret (None, Some e)
              | Inr pending \<Rightarrow> do {
                  sendErr \<leftarrow> sendEvmTx E signedTx;
                  ended \<leftarrow> ask E (env_ctxDone E);
                  case classifyEvmSendError ended sendErr of
                    EvmSendNonceRejected \<Rightarrow> do {
                      err \<leftarrow> finishPendingEvmTx C E fence pending (refusal
                        (if isEvmNonceHighError (se_text (the sendErr)) then TerminalNotAdmittedNonceHigh
                         else TerminalNotAdmittedNonceLow));
                      ret (None, Some (case err of Some e \<Rightarrow> e | None \<Rightarrow> EvmNonceRejectedError)) }
                  | EvmSendRejected \<Rightarrow> do {
                      err \<leftarrow> finishPendingEvmTx C E fence pending (refusal TerminalNotAdmittedRejected);
                      ret (None, Some (case err of Some e \<Rightarrow> e | None \<Rightarrow> ErrRejectedByNode)) }
                  | EvmSendAmbiguous \<Rightarrow> do {
                      markPendingEvmTxAmbiguous E fence pending;
                      resend E signedTx (BroadcastTxRetry - 1);
                      awaitReceipt C E fence pending txHash }
                  | EvmSendAccepted \<Rightarrow> awaitReceipt C E fence pending txHash } }) } }"

section \<open>Recovery\<close>

datatype evmJob = ResolveScope SignType | SettleOutcomes

primrec checkPendings :: "'tx signClient \<Rightarrow> 'tx evmEnv \<Rightarrow> pendingRecord list \<Rightarrow> nat list \<Rightarrow> ('tx, evm_error + nat list) evm" where
  "checkPendings C E [] invalid = ret (Inr invalid)"
| "checkPendings C E (p # ps) invalid = do {
     r \<leftarrow> loadEvidence C E None ''pending'' (p_ID p) (pending_ref p) (pending_audit p AuditNone);
     case r of
       Inl e \<Rightarrow> if e \<noteq> ErrEvmEvidenceInvalid then ret (Inl e) else checkPendings C E ps (invalid @ [p_ID p])
     | Inr _ \<Rightarrow> checkPendings C E ps invalid }"

primrec checkOutcomes :: "'tx signClient \<Rightarrow> 'tx evmEnv \<Rightarrow> outcomeRecord list \<Rightarrow> ('tx, evm_error option) evm" where
  "checkOutcomes C E [] = ret None"
| "checkOutcomes C E (out # outs) = do {
     r \<leftarrow> loadEvidence C E None ''outcome'' (o_ID out) (outcome_ref out) (outcome_audit out AuditNone);
     case r of
       Inl e \<Rightarrow> if e \<noteq> ErrEvmEvidenceInvalid then ret (Some e) else checkOutcomes C E outs
     | Inr _ \<Rightarrow> checkOutcomes C E outs }"

definition checkEvmStateOnStart :: "'tx signClient \<Rightarrow> 'tx evmEnv \<Rightarrow> ('tx, evm_error option) evm" where
  "checkEvmStateOnStart C E =
     (if \<not> c_evm C then ret (Some ErrEvmStateNotConfigured)
      else do {
        foreign \<leftarrow> db_read E (ForeignChainIDs (c_chainID C));
        case foreign of
          Inl e \<Rightarrow> ret (Some e)
        | Inr ids \<Rightarrow>
            if length ids \<noteq> 0 then ret (Some ErrStartRefused)
            else do {
              ps \<leftarrow> db_read E (ListPending (c_chainID C));
              case ps of
                Inl e \<Rightarrow> ret (Some e)
              | Inr pendings \<Rightarrow> do {
                  r \<leftarrow> checkPendings C E pendings [];
                  case r of
                    Inl e \<Rightarrow> ret (Some e)
                  | Inr invalid \<Rightarrow> do {
                      os \<leftarrow> db_read E (ListOutcomes (c_chainID C));
                      case os of
                        Inl e \<Rightarrow> ret (Some e)
                      | Inr outcomes \<Rightarrow> do {
                          e \<leftarrow> checkOutcomes C E outcomes;
                          case e of
                            Some e \<Rightarrow> ret (Some e)
                          | None \<Rightarrow> ret (if length invalid \<noteq> 0 then Some ErrStartRefused else None) } } } } })"

definition auditLoaded :: "'tx signClient \<Rightarrow> 'tx evmEnv \<Rightarrow> evmFence \<Rightarrow> pendingRecord \<Rightarrow> ('tx, unit) evm" where
  "auditLoaded C E fence pending = do {
     r \<leftarrow> loadEvidence C E (Some fence) ''pending'' (p_ID pending) (pending_ref pending) (pending_audit pending AuditNone);
     case r of
       Inl _ \<Rightarrow> ret ()
     | Inr _ \<Rightarrow> do {
         _ \<leftarrow> db_write E (\<lambda>X. AppendAudit X (Some fence) (c_chainID C) (pending_audit pending AuditLoadedOnStart));
         ret () } }"

definition byScope :: "pendingRecord list \<Rightarrow> SignType \<Rightarrow> pendingRecord option" where
  "byScope pendings scope = (case filter (\<lambda>p. p_Scope p = scope) pendings of [] \<Rightarrow> None | ps \<Rightarrow> Some (last ps))"

text \<open>\<open>recoverEvmState\<close> answers the background jobs it starts.\<close>

definition recoverEvmState :: "'tx signClient \<Rightarrow> 'tx evmEnv \<Rightarrow> evmFence \<Rightarrow> ('tx, evmJob list) evm" where
  "recoverEvmState C E fence = do {
     r \<leftarrow> db_read E (ListPending (c_chainID C));
     case r of
       Inl _ \<Rightarrow> ret []
     | Inr pendings \<Rightarrow> do {
         each (auditLoaded C E fence) pendings;
         os \<leftarrow> db_read E (ListOutcomes (c_chainID C));
         (case os of
            Inl _ \<Rightarrow> ret ()
          | Inr outcomes \<Rightarrow> each (\<lambda>out. do {
              _ \<leftarrow> loadEvidence C E (Some fence) ''outcome'' (o_ID out) (outcome_ref out) (outcome_audit out AuditNone);
              ret () }) outcomes);
         each (\<lambda>scope. do { _ \<leftarrow> syncEvmScopeEpoch C E fence scope (byScope pendings scope); ret () })
           [SignOperator, SignSeal, SignGc];
         ret (map ResolveScope (filter (\<lambda>scope. byScope pendings scope \<noteq> None) [SignOperator, SignSeal, SignGc]) @ [SettleOutcomes]) } }"

definition backgroundResolveEvm :: "'tx signClient \<Rightarrow> 'tx evmEnv \<Rightarrow> SignType \<Rightarrow> ('tx, unit) evm" where
  "backgroundResolveEvm C E scope =
     (if \<not> hasNonceCache scope then ret () else do { _ \<leftarrow> resolvePendingEvmTx C E scope 0; ret () })"

definition backgroundSettleOutcomes :: "'tx signClient \<Rightarrow> 'tx evmEnv \<Rightarrow> evmFence \<Rightarrow> ('tx, unit) evm" where
  "backgroundSettleOutcomes C E fence = do {
     r \<leftarrow> db_read E (ListOutcomes (c_chainID C));
     case r of
       Inl _ \<Rightarrow> ret ()
     | Inr outcomes \<Rightarrow> each (\<lambda>out.
         if o_State out \<noteq> OutcomeBlockedUnknown \<or> \<not> hasNonceCache (o_Scope out) then ret ()
         else do {
           ev \<leftarrow> loadEvidence C E (Some fence) ''outcome'' (o_ID out) (outcome_ref out) (outcome_audit out AuditNone);
           case ev of Inl _ \<Rightarrow> ret () | Inr _ \<Rightarrow> do { _ \<leftarrow> autoSettleOutcome C E fence out; ret () } }) outcomes }"

end
