(* ===== verification/Evm_Manager_Safety.thy ===== *)
theory Evm_Manager_Safety
  imports Evm_Logic Evm_Manager
begin

text \<open>
  Safety of the running signer: one \<open>safe\<close> rule per operation of the EVM state manager, and what they
  give for whole requests. The rules compose, so a request, the lease keeper, recovery and the background
  jobs only ever make store steps, and the properties of the store hold while signers run.
\<close>

lemma event_neutral_simps [simp]:
  "a_Event (ev\<lparr>a_Event := n\<rparr>) = n" "a_OutcomeState (ev\<lparr>a_Event := n\<rparr>) = a_OutcomeState ev"
  by simp_all

lemma neutral_names [simp]:
  "event_neutral (ev\<lparr>a_Event := AuditEvidenceInvalid\<rparr>)" "event_neutral (pending_audit p AuditLoadedOnStart)"
  "event_neutral ((emptyAudit AuditPendingVanished)\<lparr>a_Scope := s\<rparr>)"
  by (simp_all add: event_defs)

section \<open>Evidence and epochs\<close>

lemma st_verify_InrD:
  assumes "st_verify C evidence ref = Inr tx"
  obtains ev where "evidence = Some ev" "tx_Hash (c_eth C) tx = e_TxHash ev" "r_ChainID ref = e_ChainID ev"
proof -
  have "verifySignedTxEvidence (c_eth C) evidence ref = Inr tx"
    using assms by (simp add: st_verify_def split: sum.splits if_splits)
  then obtain ev where ev: "evidence = Some ev" "evidence_valid (c_eth C) ev ref tx"
    unfolding verifySignedTxEvidence_iff by blast
  then have "mismatched ev ref = []" by (simp add: evidence_valid_def)
  then have "r_ChainID ref = e_ChainID ev" by (simp add: mismatched_def split: if_splits)
  then show ?thesis using that ev by (simp add: evidence_valid_def)
qed

definition evidence_facts :: "'tx signClient \<Rightarrow> evm_error + 'tx \<Rightarrow> fact set" where
  "evidence_facts C r = (case r of Inl _ \<Rightarrow> {} | Inr tx \<Rightarrow> {Signed (tx_Hash (c_eth C) tx)})"

lemma evidence_facts_simps [simp]:
  "evidence_facts C (Inl e) = {}" "evidence_facts C (Inr tx) = {Signed (tx_Hash (c_eth C) tx)}"
  by (simp_all add: evidence_facts_def)

lemma safe_GetSignedTx:
  assumes "env_ok E"
  shows "safe C F (db_read E (GetSignedTx i))
    (opt_facts (\<lambda>ev. if e_ChainID ev = c_chainID C then {Signed (e_TxHash ev)} else {}))"
proof (rule safe_db_read [OF assms])
  fix db
  show "facts (c_chainID C) db (opt_facts (\<lambda>ev. if e_ChainID ev = c_chainID C then {Signed (e_TxHash ev)} else {})
      (Inr (GetSignedTx i db)))"
  proof (cases "filter (\<lambda>e. e_ID e = i) (db_signed db)")
    case (Cons e es)
    have "e \<in> set (db_signed db)" using Cons_eq_filterD [OF Cons [symmetric]] by auto
    then show ?thesis using Cons by (auto simp: GetSignedTx_def)
  qed (simp add: GetSignedTx_def)
qed simp

lemma safe_loadEvidence:
  assumes "env_ok E" "Row rowID ref \<in> F"
  shows "safe C F (loadEvidence C E fence kind rowID ref ev) (evidence_facts C)"
  unfolding loadEvidence_def
proof (rule safe_Row [OF assms(2)], rule safe_bind [OF safe_GetSignedTx [OF assms(1)]], rule safe_sum)
  fix r :: "evm_error + signedTxEvidence option" and e
  assume "r_ChainID ref = c_chainID C" "r = Inr e"
  then have v: "\<exists>evi. e = Some evi \<and> tx_Hash (c_eth C) tx = e_TxHash evi \<and> e_ChainID evi = c_chainID C"
    if "st_verify C e ref = Inr tx" for tx
    using that by (auto elim: st_verify_InrD)
  have "Signed (tx_Hash (c_eth C) tx) \<in> F \<union> opt_facts (\<lambda>ev. if e_ChainID ev = c_chainID C then {Signed (e_TxHash ev)} else {}) r"
    if "st_verify C e ref = Inr tx" for tx
    using v [OF that] \<open>r = Inr e\<close> by force
  then show "safe C (F \<union> opt_facts (\<lambda>ev. if e_ChainID ev = c_chainID C then {Signed (e_TxHash ev)} else {}) r)
      (case st_verify C e ref of Inl err \<Rightarrow> do {
            w \<leftarrow> State_Monad.get;
            if w_audited w (kind, rowID) then ret (Inl err)
            else do {
              r \<leftarrow> db_write E (\<lambda>X. AppendAudit X fence (c_chainID C) (ev\<lparr>a_Event := AuditEvidenceInvalid\<rparr>));
              (case r of Inl _ \<Rightarrow> ret () | Inr _ \<Rightarrow> upd (\<lambda>w. w\<lparr>w_audited := (w_audited w)((kind, rowID) := True)\<rparr>));
              ret (Inl err) } }
        | Inr tx \<Rightarrow> ret (Inr tx)) (evidence_facts C)"
    using assms(1) by (intro evm_safe safe_bind0 | simp)+
qed (simp add: safe_ret)

lemmas safe_loadEvidence_bind [evm_safe] = safe_bind [OF safe_loadEvidence]

lemma safe_syncEvmScopeEpoch [evm_safe]:
  assumes "env_ok E"
  shows "safe C F (syncEvmScopeEpoch C E fence s kp) (\<lambda>_. {})"
  unfolding syncEvmScopeEpoch_def using assms by (intro evm_safe safe_bind0 | simp)+

section \<open>Ending a pending row\<close>

lemma safe_HasAudit_done:
  assumes "env_ok E" "NotPending (p_ID p) \<in> F"
  shows "safe C F (db_read E (HasAudit (c_chainID C) (doneEvent k) (p_TxHash p) 0)) (\<lambda>r. if r = Inr True then ended_facts p k else {})"
proof (rule safe_db_read [OF assms(1)])
  fix db assume "facts (c_chainID C) db F"
  then have "fact_ok (c_chainID C) db (NotPending (p_ID p))" using assms(2) by blast
  then show "facts (c_chainID C) db (if Inr (HasAudit (c_chainID C) (doneEvent k) (p_TxHash p) 0 db) = Inr True then ended_facts p k else {})"
    using ended_factsI by simp
qed simp

lemma safe_readBackResolved:
  assumes "env_ok E" "Row (p_ID p) (pending_ref p) \<in> F"
  shows "safe C F (readBackResolved C E p t) (\<lambda>r. if r = Inr True then ended_facts p (pt_Kind t) else {})"
proof -
  let ?Q = "\<lambda>r. case r of Inr cur \<Rightarrow> if cur = None \<or> p_ID (the cur) \<noteq> p_ID p then {NotPending (p_ID p)} else {} | Inl _ \<Rightarrow> {}"
  have g: "safe C F (db_read E (GetPending (c_chainID C) (p_Scope p))) ?Q"
  proof (rule safe_db_read [OF assms(1)])
    fix db assume "db_inv db" "facts (c_chainID C) db F"
    then show "facts (c_chainID C) db (?Q (Inr (GetPending (c_chainID C) (p_Scope p) db)))"
      using not_pending_fact [of db "c_chainID C" p] assms(2) by (simp del: fact_ok.simps)
  qed simp
  have h: "safe C (F \<union> {NotPending (p_ID p)}) (db_read E (HasAudit (c_chainID C) (doneEvent (pt_Kind t)) (p_TxHash p) 0))
      (\<lambda>r. if r = Inr True then ended_facts p (pt_Kind t) else {})"
    by (rule safe_HasAudit_done [OF assms(1)]) simp
  show ?thesis
    unfolding readBackResolved_def
    by (rule safe_bind [OF g], intro evm_safe) (use h in \<open>auto simp: safe_ret split: if_splits\<close>)
qed

definition terminal_facts :: "pendingRecord \<Rightarrow> pendingTerminalKind \<Rightarrow> evm_error option \<Rightarrow> fact set" where
  "terminal_facts p k err = (case err of None \<Rightarrow> ended_facts p k | Some e \<Rightarrow> {Holds (store_error e)})"

lemma terminal_facts_simps [simp]:
  "terminal_facts p k None = ended_facts p k" "terminal_facts p k (Some e) = {Holds (store_error e)}"
  by (simp_all add: terminal_facts_def)

lemma safe_applyTerminal:
  assumes "env_ok E" "Row (p_ID p) (pending_ref p) \<in> F"
  shows "safe C F (applyTerminal C E fence p t) (terminal_facts p (pt_Kind t))"
proof -
  have d: "terminal_facts p (pt_Kind t) (case d of Inr True \<Rightarrow> None | _ \<Rightarrow> Some e)
      \<subseteq> F' \<union> (if d = Inr True then ended_facts p (pt_Kind t) else {})" if "Holds (store_error e) \<in> F'" for F' d e
    using that by (auto split: sum.split bool.split)
  have r: "safe C (F \<union> case_sum (\<lambda>e. {Holds (store_error e)}) (\<lambda>_. ended_facts p (pt_Kind t)) r)
     (case r of Inl e \<Rightarrow> if isEvmCommitUnknown e then do { d \<leftarrow> readBackResolved C E p t; ret (case d of Inr True \<Rightarrow> None | _ \<Rightarrow> Some e) }
        else ret (Some e) | Inr _ \<Rightarrow> ret None) (terminal_facts p (pt_Kind t))" for r :: "evm_error + outcomeRecord option"
    using assms by (intro safe_sum safe_if safe_ret safe_bind [OF safe_readBackResolved] d) auto
  show ?thesis
    unfolding applyTerminal_def
    by (rule safe_bind [OF safe_ResolvePending [OF assms]], rule safe_bind [OF r])
       (intro evm_safe safe_bind0 | simp)+
qed

lemmas safe_applyTerminal_bind [evm_safe] = safe_bind [OF safe_applyTerminal]

lemma safe_firstLanded [evm_safe]: "env_ok E \<Longrightarrow> safe C F (firstLanded C E p ks) (\<lambda>_. {})"
  by (induction ks) (simp_all only: firstLanded.simps, (intro evm_safe safe_bind0 | simp)+)

lemma safe_landedTerminal [evm_safe]: "env_ok E \<Longrightarrow> safe C F (landedTerminal C E p k) (\<lambda>_. {})"
  unfolding landedTerminal_def by (rule safe_firstLanded)

section \<open>What only memory knows\<close>

lemma safe_terminalKind [evm_safe]:
  assumes "safe C F a Q" "safe C F b Q" "safe C F c Q" "safe C F d Q" "safe C F e Q" "safe C F f Q"
  shows "safe C F (case k of TerminalSuccessConsume \<Rightarrow> a | TerminalSuccessKeep \<Rightarrow> b | TerminalFailed \<Rightarrow> c
    | TerminalNotAdmittedNonceLow \<Rightarrow> d | TerminalNotAdmittedNonceHigh \<Rightarrow> e | TerminalNotAdmittedRejected \<Rightarrow> f) Q"
  using assms by (cases k) simp_all

lemma safe_retryTerminal [evm_safe]:
  assumes "env_ok E" "Row (p_ID (tr_pending rt)) (pending_ref (tr_pending rt)) \<in> F"
  shows "safe C F (retryTerminal C E fence s operation rt) (\<lambda>_. {})"
  unfolding retryTerminal_def Let_def using assms
  by (intro evm_safe safe_bind0) (simp_all add: le_supI1 subset_insertI2)

lemma safe_retryConsume [evm_safe]: "env_ok E \<Longrightarrow> safe C F (retryConsume C E s out) (\<lambda>_. {})"
  unfolding retryConsume_def by (intro evm_safe safe_bind0) (simp_all add: le_supI1 subset_insertI2)

lemma safe_takeAwaiting [evm_safe]: "safe C F (takeAwaiting s operation) (\<lambda>_. {})"
  unfolding takeAwaiting_def by (intro evm_safe safe_bind0 | simp)+

lemma safe_retryEvmMemory [evm_safe]:
  assumes E: "env_ok E"
  shows "safe C F (retryEvmMemory C E fence s operation) (\<lambda>_. {})"
  unfolding retryEvmMemory_def Let_def
proof (rule safe_memory_bind, rule safe_bind)
  fix mem
  show "safe C (F \<union> memory_facts mem) (case m_terminalRetry mem of
         None \<Rightarrow> ret None
       | Some retry \<Rightarrow> if notAdmitted (pt_Kind (tr_terminal retry)) \<and> tr_epoch retry \<noteq> f_Epoch fence
           then do { updMemory s (\<lambda>m. m\<lparr>m_terminalRetry := None\<rparr>); ret None } else ret (Some retry))
       (\<lambda>r. case r of None \<Rightarrow> {} | Some rt \<Rightarrow> pending_facts (tr_pending rt))"
    by (intro evm_safe safe_bind0 | force simp: memory_facts_def)+
qed (use E in \<open>(intro evm_safe safe_bind0 | simp add: pending_facts_def)+\<close>)

section \<open>Automatic disposition\<close>

lemma safe_checkEvm [evm_safe]: "env_ok E \<Longrightarrow> safe C F (checkEvm C E) (\<lambda>_. {})"
  unfolding checkEvm_def by (intro evm_safe safe_bind0 | simp)+

lemma safe_checkCosmos [evm_safe]: "env_ok E \<Longrightarrow> safe C F (checkCosmos C E) (\<lambda>_. {})"
  unfolding checkCosmos_def by (intro evm_safe safe_bind0 | simp)+

definition auto_event :: "pendingRecord \<Rightarrow> outcomeRecord option \<Rightarrow> evmAuditEvent \<Rightarrow> evmAuditEvent" where
  "auto_event p result ev = (case result of Some out \<Rightarrow> ev\<lparr>a_OutcomeID := Some (p_ID p), a_OutcomeState := Some (o_State out),
     a_OutcomeReason := o_Reason out\<rparr> | None \<Rightarrow> ev)"

lemma safe_applyAutoPending [evm_safe]:
  assumes "env_ok E" "Row (p_ID p) (pending_ref p) \<in> F" "event_fits (pending_ref p) result (auto_event p result ev)"
  shows "safe C F (applyAutoPending C E fence s p result ev n) (\<lambda>_. {})"
  unfolding applyAutoPending_def Let_def auto_event_def [symmetric] using assms by (intro evm_safe safe_bind0 | simp)+

lemma safe_search [evm_safe]:
  assumes "safe C F a Q" "safe C F b Q" "\<And>v. safe C F (f v) Q"
  shows "safe C F (case x of IndexDisabled \<Rightarrow> a | SearchError \<Rightarrow> b | SearchFound v \<Rightarrow> f v) Q"
  using assms by (cases x) simp_all

lemma safe_receipt [evm_safe]:
  assumes "safe C F a Q" "safe C F b Q" "safe C F c Q" "\<And>v. safe C F (f v) Q"
  shows "safe C F (case x of ReceiptNotFound \<Rightarrow> a | ReceiptError \<Rightarrow> b | ReceiptNil \<Rightarrow> c | ReceiptIs v \<Rightarrow> f v) Q"
  using assms by (cases x) simp_all

lemma withCosmosEvidence_sel [simp]:
  "a_Scope (withCosmosEvidence ev v) = a_Scope ev" "a_Operation (withCosmosEvidence ev v) = a_Operation ev"
  by (simp_all add: withCosmosEvidence_def Let_def)

lemma auto_fits [simp]:
  "event_fits ref None (auto_event p None (ev\<lparr>a_Event := AuditAutoResolvedFailed\<rparr>)) \<longleftrightarrow> a_Scope ev = r_Scope ref \<and> a_Operation ev = r_Operation ref"
  "event_fits ref (Some (autoBlocked reason)) (auto_event p (Some (autoBlocked reason)) (ev\<lparr>a_Event := AuditAutoBlockedMissing\<rparr>))"
  "event_fits ref (Some (autoBlocked reason)) (auto_event p (Some (autoBlocked reason)) (ev\<lparr>a_Event := AuditAutoBlockedDropped\<rparr>))"
  "event_fits ref (Some (autoBlocked reason)) (auto_event p (Some (autoBlocked reason)) (ev\<lparr>a_Event := AuditAutoBlockedNonceGap\<rparr>))"
  by (simp_all add: event_fits_def auto_event_def event_defs autoBlocked_def)

lemma safe_autoNonceUsed [evm_safe]:
  assumes "env_ok E" "Row (p_ID p) (pending_ref p) \<in> F" "a_Scope base = p_Scope p" "a_Operation base = p_Operation p"
  shows "safe C F (autoNonceUsed C E fence s p base height n) (\<lambda>_. {})"
  unfolding autoNonceUsed_def using assms by (intro evm_safe safe_bind0) (simp_all add: pending_ref_def)

lemma pending_audit_base [simp]:
  "a_Scope ((pending_audit p n)\<lparr>a_ChainNonce := x, a_ChainHeight := y\<rparr>) = p_Scope p"
  "a_Operation ((pending_audit p n)\<lparr>a_ChainNonce := x, a_ChainHeight := y\<rparr>) = p_Operation p"
  by (simp_all add: pending_audit_def)

lemma safe_autoDisposePending [evm_safe]:
  assumes "env_ok E" "Row (p_ID p) (pending_ref p) \<in> F" "Signed (tx_Hash (c_eth C) tx) \<in> F"
  shows "safe C F (autoDisposePending C E fence s p tx) (\<lambda>_. {})"
  unfolding autoDisposePending_def Let_def
  using assms by (intro evm_safe safe_bind0) (simp_all split: if_splits)

definition settle_event :: "outcomeRecord option \<Rightarrow> evmAuditEvent \<Rightarrow> evmAuditEvent" where
  "settle_event to ev = (case to of Some out \<Rightarrow> ev\<lparr>a_OutcomeState := Some (o_State out)\<rparr> | None \<Rightarrow> ev)"

lemma safe_applyAutoOutcome [evm_safe]:
  assumes "env_ok E" "Row (o_ID out) (outcome_ref out) \<in> F" "event_fits (outcome_ref out) to (settle_event to ev)"
  shows "safe C F (applyAutoOutcome C E fence out to ev) (\<lambda>_. {})"
  unfolding applyAutoOutcome_def Let_def settle_event_def [symmetric] using assms by (intro evm_safe safe_bind0 | simp)+

lemma safe_receiptAtOrBelow [evm_safe]: "env_ok E \<Longrightarrow> safe C F (receiptAtOrBelow E h height) (\<lambda>_. {})"
  unfolding receiptAtOrBelow_def by (intro evm_safe safe_bind0 | simp)+

lemma settle_fits [simp]:
  "event_fits ref None (settle_event None (supersededBy ev row)) \<longleftrightarrow> a_Scope ev = r_Scope ref \<and> a_Operation ev = r_Operation ref"
  "event_fits ref None (settle_event None (ev\<lparr>a_Event := AuditAutoOutcomeFailed\<rparr>)) \<longleftrightarrow> a_Scope ev = r_Scope ref \<and> a_Operation ev = r_Operation ref"
  "event_fits ref (Some ((autoBlocked [])\<lparr>o_State := OutcomeSucceeded, o_ResultTxHash := h, o_ReceiptBlock := b\<rparr>))
     (settle_event (Some ((autoBlocked [])\<lparr>o_State := OutcomeSucceeded, o_ResultTxHash := h, o_ReceiptBlock := b\<rparr>)) (ev\<lparr>a_Event := AuditAutoOutcomeSucceeded\<rparr>))"
  by (simp_all add: event_fits_def settle_event_def event_defs supersededBy_def)

definition settles :: "evmAuditEvent \<Rightarrow> outcomeRecord \<Rightarrow> bool" where
  "settles ev out \<longleftrightarrow> a_Scope ev = o_Scope out \<and> a_Operation ev = o_Operation out"

lemma settles_ref: "settles ev out \<longleftrightarrow> a_Scope ev = r_Scope (outcome_ref out) \<and> a_Operation ev = r_Operation (outcome_ref out)"
  by (simp add: settles_def outcome_ref_def)

lemma safe_settleByReceipts [evm_safe]:
  assumes "env_ok E" "Row (o_ID out) (outcome_ref out) \<in> F" "settles base out"
  shows "safe C F (settleByReceipts C E fence out base height rows others e) (\<lambda>_. {})"
  using assms(3) unfolding settles_ref
  by (induction rows arbitrary: others e)
     (simp_all only: settleByReceipts.simps, (use assms(1,2) in \<open>intro evm_safe safe_bind0 | simp\<close>)+)

lemma safe_settleByIndex [evm_safe]:
  assumes "env_ok E" "Row (o_ID out) (outcome_ref out) \<in> F" "settles base out"
  shows "safe C F (settleByIndex C E fence out base height rows e) (\<lambda>_. {})"
  using assms(3) unfolding settles_ref
  by (induction rows arbitrary: e)
     (simp_all only: settleByIndex.simps, (use assms(1,2) in \<open>intro evm_safe safe_bind0 | simp\<close>)+)

lemma safe_settleFromIndex [evm_safe]:
  assumes "env_ok E" "Row (o_ID out) (outcome_ref out) \<in> F" "settles base out"
  shows "safe C F (settleFromIndex C E fence out base height others e) (\<lambda>_. {})"
  unfolding settleFromIndex_def using assms by (intro evm_safe safe_bind0 | simp add: settles_ref)+

lemma safe_settleFromOthers [evm_safe]:
  assumes "env_ok E" "Row (o_ID out) (outcome_ref out) \<in> F" "settles base out"
  shows "safe C F (settleFromOthers C E fence out base height e) (\<lambda>_. {})"
  unfolding settleFromOthers_def using assms by (intro evm_safe safe_bind0 | simp add: settles_ref)+

lemma safe_autoSettleOutcome [evm_safe]:
  assumes "env_ok E" "Row (o_ID out) (outcome_ref out) \<in> F"
  shows "safe C F (autoSettleOutcome C E fence out) (\<lambda>_. {})"
  unfolding autoSettleOutcome_def using assms
  by (intro evm_safe safe_bind0 | simp add: settles_def outcome_audit_def outcome_ref_def)+

section \<open>Deciding a request\<close>

lemma safe_readBackConsumed [evm_safe]: "env_ok E \<Longrightarrow> safe C F (readBackConsumed C E out) (\<lambda>_. {})"
  unfolding readBackConsumed_def by (intro evm_safe safe_bind0 | simp)+

lemma memory_facts_consume [simp]:
  "Row (o_ID out) (outcome_ref out) \<in> F \<Longrightarrow> memory_facts (m\<lparr>m_consumeUnknown := Some out\<rparr>) \<subseteq> memory_facts m \<union> F"
  by (auto simp: memory_facts_def outcome_facts_def)

lemma safe_consumeOutcome:
  assumes "env_ok E" "Row (o_ID out) (outcome_ref out) \<in> F" "safe C F again (\<lambda>_. {})"
  shows "safe C F (consumeOutcome C E fence s out again) (\<lambda>_. {})"
  unfolding consumeOutcome_def using assms
  by (intro evm_safe safe_bind0 | simp)+

lemma safe_rebroadcast [evm_safe]:
  "env_ok E \<Longrightarrow> Signed (tx_Hash (c_eth C) tx) \<in> F \<Longrightarrow> safe C F (rebroadcastPendingEvmTx E tx) (\<lambda>_. {})"
  unfolding rebroadcastPendingEvmTx_def by (intro evm_safe safe_bind0 | simp)+

lemma safe_mono: "safe C F m (\<lambda>_. {}) \<Longrightarrow> F \<subseteq> F' \<Longrightarrow> safe C F' m (\<lambda>_. {})"
  by (rule safe_weaken) simp_all

lemma safe_resolvePendingRow:
  assumes "env_ok E" "safe C F again (\<lambda>_. {})"
  shows "safe C F (resolvePendingRow C E fence s operation again) (\<lambda>_. {})"
  unfolding resolvePendingRow_def Let_def using assms
  by (intro evm_safe safe_bind0 safe_mono [OF assms(2)]) (simp_all add: pending_facts_def le_supI1 subset_insertI2)

lemma safe_rowState:
  assumes "safe C F a Q" "safe C F b Q" "safe C F c Q" "safe C F d Q" "\<And>n. safe C F (f n) Q"
  shows "safe C F (case x of RowPending \<Rightarrow> a | OutcomeSucceeded \<Rightarrow> b | OutcomeExecutedElsewhere \<Rightarrow> c | OutcomeBlockedUnknown \<Rightarrow> d
    | RowOtherState n \<Rightarrow> f n) Q"
  using assms by (cases x) simp_all

lemma safe_resolveEvmState [evm_safe]:
  assumes "env_ok E"
  shows "safe C F (resolveEvmState C E fence s operation depth) (\<lambda>_. {})"
proof (induction "evmResolveMaxDepth + 1 - depth" arbitrary: depth F rule: less_induct)
  case less
  have again: "safe C F' (resolveEvmState C E fence s operation (depth + 1)) (\<lambda>_. {})" if "\<not> depth > evmResolveMaxDepth" for F'
    by (rule less) (use that in simp)
  have read: "safe C F (if operation \<noteq> 0 then db_read E (GetOutcome (c_chainID C) s operation) else ret (Inr None)) (opt_facts outcome_facts)"
    using assms by (intro safe_if safe_GetOutcome safe_ret) simp_all
  show ?case
    unfolding resolveEvmState.simps [of C E fence s operation depth] using assms
    by (intro safe_if safe_bind0 [OF safe_retryEvmMemory] safe_option safe_bind [OF read] safe_sum safe_rowState safe_consumeOutcome
          safe_resolvePendingRow safe_loadEvidence_bind safe_bind0 [OF safe_autoSettleOutcome] safe_ret again)
       (simp_all add: outcome_facts_def)
qed

lemma safe_resolvePendingEvmTx [evm_safe]: "env_ok E \<Longrightarrow> safe C F (resolvePendingEvmTx C E s operation) (\<lambda>_. {})"
  unfolding resolvePendingEvmTx_def by (intro evm_safe safe_bind0) simp_all

section \<open>Submitting\<close>

definition record_facts :: "hash \<Rightarrow> evm_error + pendingRecord \<Rightarrow> fact set" where
  "record_facts h r = (case r of Inl e \<Rightarrow> {Holds (store_error e)} | Inr q \<Rightarrow> pending_facts q \<union> {Signed h, Holds (p_TxHash q = h)})"

lemma record_facts_simps [simp]:
  "record_facts h (Inl e) = {Holds (store_error e)}" "record_facts h (Inr q) = pending_facts q \<union> {Signed h, Holds (p_TxHash q = h)}"
  by (simp_all add: record_facts_def)

lemma safe_recorded_back:
  assumes "env_ok E" "Holds (store_error e) \<in> F"
  shows "safe C F (do { current \<leftarrow> db_read E (GetPending (c_chainID C) s);
      ret (case current of Inr (Some p) \<Rightarrow> if p_TxHash p = h then Inr p else Inl e | _ \<Rightarrow> Inl e) }) (record_facts h)"
proof (rule safe_bind [OF safe_GetPending [OF assms(1)]])
  fix cur
  show "safe C (F \<union> opt_facts pending_facts cur)
      (ret (case cur of Inr (Some p) \<Rightarrow> if p_TxHash p = h then Inr p else Inl e | _ \<Rightarrow> Inl e)) (record_facts h)"
  proof (cases "\<exists>p. cur = Inr (Some p) \<and> p_TxHash p = h")
    case True
    then obtain p where p: "cur = Inr (Some p)" "p_TxHash p = h" by blast
    show ?thesis
      using p by (intro safe_facts [OF _ safe_ret, where G = "record_facts h (Inr p)"])
        (auto simp: pending_facts_def pending_ref_def known_def evidence_ref_def)
  next
    case False
    then have "(case cur of Inr (Some p) \<Rightarrow> if p_TxHash p = h then Inr p else Inl e | _ \<Rightarrow> Inl e) = Inl e"
      by (auto split: sum.split option.split)
    then show ?thesis using assms(2) by (simp add: safe_ret)
  qed
qed

lemma safe_return: "(\<And>db. facts (c_chainID C) db F \<Longrightarrow> facts (c_chainID C) db (Q a)) \<Longrightarrow> safe C F (ret a) Q"
  by (rule safe_facts [OF _ safe_ret, where G = "Q a"]) simp_all

lemma safe_recordPendingEvmTx:
  assumes "env_ok E"
  shows "safe C F (recordPendingEvmTx C E fence s operation tx raw) (record_facts (tx_Hash (c_eth C) tx))"
proof -
  let ?h = "tx_Hash (c_eth C) tx"
  let ?e = "newEvidence C s operation tx raw" and ?p = "newPending C s operation tx"
  have w: "safe C F (db_write E (\<lambda>X. Record X fence (?e cid a block) (?p a))) (record_facts ?h)" for cid a block
    unfolding record_facts_def
    by (rule safe_weaken [OF safe_Record [OF assms, of "?e cid a block" "?p a"] order_refl])
       (auto simp: describes_def newEvidence_def newPending_def split: sum.split)
  have b: "safe C (F \<union> record_facts ?h r) (case r of Inl e \<Rightarrow> if isEvmCommitUnknown e then do {
        current \<leftarrow> db_read E (GetPending (c_chainID C) s);
        ret (case current of Inr (Some p) \<Rightarrow> if p_TxHash p = ?h then Inr p else Inl e | _ \<Rightarrow> Inl e) }
      else ret (Inl e) | Inr p \<Rightarrow> ret (Inr p)) (record_facts ?h)" for r
    using assms by (intro safe_sum safe_if safe_recorded_back safe_ret) auto
  show ?thesis
    unfolding recordPendingEvmTx_def Let_def
    using assms by (intro safe_option safe_if safe_return safe_bind0 [OF safe_ask] safe_bind [OF w] safe_bind [OF b] safe_sum
        safe_bind0 [OF safe_setLastSeen]) (auto simp: store_error_def)
qed

lemma safe_markAmbiguous [evm_safe]:
  "env_ok E \<Longrightarrow> Row (p_ID p) (pending_ref p) \<in> F \<Longrightarrow> safe C F (markPendingEvmTxAmbiguous E fence p) (\<lambda>_. {})"
  unfolding markPendingEvmTxAmbiguous_def by (intro evm_safe safe_bind0) simp_all

lemma safe_finishPendingEvmTx:
  assumes "env_ok E" "Row (p_ID p) (pending_ref p) \<in> F"
  shows "safe C F (finishPendingEvmTx C E fence p t) (terminal_facts p (pt_Kind t))"
  unfolding finishPendingEvmTx_def using assms by (intro evm_safe safe_bind0) simp_all

lemma safe_resend [evm_safe]:
  assumes "env_ok E" "Signed (tx_Hash (c_eth C) tx) \<in> F"
  shows "safe C F (resend E tx n) (\<lambda>_. {})"
proof (induction n)
  case (Suc n)
  then show ?case unfolding resend.simps using assms by (intro evm_safe safe_bind0) simp_all
qed (simp add: safe_ret)

text \<open>What the result of a submission says: a hash without an error, that the operation was consumed by this
  transaction; a refusal, that the refusal of this transaction is in the audit.\<close>

definition submit_facts :: "hash \<Rightarrow> hash option \<times> evm_error option \<Rightarrow> fact set" where
  "submit_facts h r = (case r of
     (Some h', None) \<Rightarrow> {Holds (h' = h), Audited AuditOutcomeConsumed h}
   | (None, Some e) \<Rightarrow> if store_error e then {} else {Refused h}
   | _ \<Rightarrow> {})"

lemma submit_facts_simps [simp]:
  "submit_facts h (Some h', None) = {Holds (h' = h), Audited AuditOutcomeConsumed h}"
  "submit_facts h (Some h', Some e) = {}" "submit_facts h (None, None) = {}"
  "submit_facts h (None, Some e) = (if store_error e then {} else {Refused h})"
  by (simp_all add: submit_facts_def)

lemma safe_awaitReceipt:
  assumes "env_ok E" "Row (p_ID p) (pending_ref p) \<in> F" "p_TxHash p = h"
  shows "safe C F (awaitReceipt C E fence p h) (submit_facts h)"
proof -
  have "facts c db (submit_facts h (Some h, err))"
    if "facts c db (F \<union> terminal_facts p (pt_Kind (receiptTerminal rc TerminalSuccessConsume SourceSubmit)) err)" for c db rc err
    using that assms(3) by (cases err) (simp_all add: receiptTerminal_def ended_facts_def)
  then show ?thesis
    unfolding awaitReceipt_def using assms
    by (intro safe_bind0 [OF safe_ask] safe_option safe_ret safe_bind [OF safe_finishPendingEvmTx] safe_return) simp_all
qed

lemma safe_refuse:
  assumes "env_ok E" "Row (p_ID p) (pending_ref p) \<in> F" "p_TxHash p = h" "notAdmitted k"
  shows "safe C F (do { err \<leftarrow> finishPendingEvmTx C E fence p (refusal k); ret (None, Some (case err of Some e \<Rightarrow> e | None \<Rightarrow> e')) }) (submit_facts h)"
proof (rule safe_bind [OF safe_finishPendingEvmTx [OF assms(1,2)]], rule safe_return)
  fix err db assume "facts (c_chainID C) db (F \<union> terminal_facts p (pt_Kind (refusal k)) err)"
  then show "facts (c_chainID C) db (submit_facts h (None, Some (case err of None \<Rightarrow> e' | Some e \<Rightarrow> e)))"
    using assms(3,4) by (cases err) (simp_all add: refusal_def ended_facts_def)
qed

lemma safe_sendOutcome:
  assumes "x = EvmSendAccepted \<Longrightarrow> safe C F a Q" "x = EvmSendAmbiguous \<Longrightarrow> safe C F b Q" "x = EvmSendNonceRejected \<Longrightarrow> safe C F c Q"
    "x = EvmSendRejected \<Longrightarrow> safe C F d Q"
  shows "safe C F (case x of EvmSendAccepted \<Rightarrow> a | EvmSendAmbiguous \<Rightarrow> b | EvmSendNonceRejected \<Rightarrow> c | EvmSendRejected \<Rightarrow> d) Q"
  using assms by (cases x) simp_all

lemma safe_submitEvmTx:
  assumes "env_ok E"
  shows "safe C F (submitEvmTx C E s operation tx) (submit_facts (tx_Hash (c_eth C) tx))"
proof -
  let ?h = "tx_Hash (c_eth C) tx"
  have Inl: "safe C (F \<union> record_facts ?h r) (ret (None, Some e)) (submit_facts ?h)" if "r = Inl e" for r e
    by (rule safe_Holds [of "store_error e"]) (use that in \<open>auto intro: safe_ret\<close>)
  have sent: "safe C (F \<union> record_facts ?h r) (do {
      sendErr \<leftarrow> sendEvmTx E tx;
      ended \<leftarrow> ask E (env_ctxDone E);
      case classifyEvmSendError ended sendErr of
        EvmSendNonceRejected \<Rightarrow> do {
          err \<leftarrow> finishPendingEvmTx C E fence p (refusal
            (if isEvmNonceHighError (se_text (the sendErr)) then TerminalNotAdmittedNonceHigh else TerminalNotAdmittedNonceLow));
          ret (None, Some (case err of Some e \<Rightarrow> e | None \<Rightarrow> EvmNonceRejectedError)) }
      | EvmSendRejected \<Rightarrow> do {
          err \<leftarrow> finishPendingEvmTx C E fence p (refusal TerminalNotAdmittedRejected);
          ret (None, Some (case err of Some e \<Rightarrow> e | None \<Rightarrow> ErrRejectedByNode)) }
      | EvmSendAmbiguous \<Rightarrow> do {
          markPendingEvmTxAmbiguous E fence p;
          resend E tx (BroadcastTxRetry - 1);
          awaitReceipt C E fence p ?h }
      | EvmSendAccepted \<Rightarrow> awaitReceipt C E fence p ?h }) (submit_facts ?h)" if r: "r = Inr p" for r p fence
  proof (rule safe_Holds [of "p_TxHash p = ?h"])
    assume "p_TxHash p = ?h"
    then show ?thesis
      using assms r by (intro safe_bind0 [OF safe_send] safe_bind0 [OF safe_ask] safe_sendOutcome safe_refuse safe_awaitReceipt
          safe_bind0 [OF safe_markAmbiguous] safe_bind0 [OF safe_resend]) (auto simp: pending_facts_def notAdmitted_def)
  qed (simp add: r)
  show ?thesis
    unfolding submitEvmTx_def Let_def using assms
    by (intro safe_bind0 [OF safe_ask] safe_if safe_bind0 [OF safe_lease_fence] safe_option safe_ret
          safe_bind [OF safe_recordPendingEvmTx] safe_sum Inl sent) (simp_all add: store_error_def)
qed

section \<open>Recovery and background jobs\<close>

lemma safe_checkPendings [evm_safe]:
  assumes "env_ok E"
  shows "\<Union> (pending_facts ` set ps) \<subseteq> F \<Longrightarrow> safe C F (checkPendings C E ps invalid) (\<lambda>_. {})"
proof (induction ps arbitrary: invalid F)
  case (Cons p ps)
  from Cons.prems show ?case unfolding checkPendings.simps using assms
    by (intro safe_loadEvidence_bind safe_sum safe_if safe_ret Cons.IH) (auto simp: pending_facts_def)
qed (simp add: safe_ret)

lemma safe_checkOutcomes [evm_safe]:
  assumes "env_ok E"
  shows "\<Union> (outcome_facts ` set os) \<subseteq> F \<Longrightarrow> safe C F (checkOutcomes C E os) (\<lambda>_. {})"
proof (induction os arbitrary: F)
  case (Cons p ps)
  from Cons.prems show ?case unfolding checkOutcomes.simps using assms
    by (intro safe_loadEvidence_bind safe_sum safe_if safe_ret Cons.IH) (auto simp: outcome_facts_def)
qed (simp add: safe_ret)

lemma safe_checkEvmStateOnStart [evm_safe]: "env_ok E \<Longrightarrow> safe C F (checkEvmStateOnStart C E) (\<lambda>_. {})"
  unfolding checkEvmStateOnStart_def by (intro evm_safe safe_bind0) auto

lemma safe_auditLoaded [evm_safe]:
  "env_ok E \<Longrightarrow> Row (p_ID p) (pending_ref p) \<in> F \<Longrightarrow> safe C F (auditLoaded C E fence p) (\<lambda>_. {})"
  unfolding auditLoaded_def by (intro evm_safe safe_bind0) simp_all

lemma safe_recoverEvmState [evm_safe]: "env_ok E \<Longrightarrow> safe C F (recoverEvmState C E fence) (\<lambda>_. {})"
  unfolding recoverEvmState_def by (intro evm_safe safe_bind0) (auto simp: pending_facts_def outcome_facts_def)

lemma safe_backgroundResolveEvm [evm_safe]: "env_ok E \<Longrightarrow> safe C F (backgroundResolveEvm C E s) (\<lambda>_. {})"
  unfolding backgroundResolveEvm_def by (intro evm_safe safe_bind0) simp_all

lemma safe_backgroundSettleOutcomes [evm_safe]: "env_ok E \<Longrightarrow> safe C F (backgroundSettleOutcomes C E fence) (\<lambda>_. {})"
  unfolding backgroundSettleOutcomes_def by (intro evm_safe safe_bind0) (auto simp: outcome_facts_def)

end
