(* ===== verification/Evm_Requests.thy ===== *)
theory Evm_Requests
  imports Evm_Manager
begin

text \<open>
  The requests of the signer, \<open>modular/signer/signer_client.go\<close>: every operation in its EVM form (sign a
  precompile call, record it, submit it) and in its Cosmos form (broadcast a message), the gas options of
  \<open>session.go\<close> and the deposit check and dispatch of \<open>signer.go\<close>.

  Outside the repository are the key managers and chain clients, the protobuf encoding of the messages,
  the contract bindings and the signature: the fields of \<open>requestLib\<close>. Calls of a node are answered per
  call, like those of \<open>evmEnv\<close>. The \<open>NewMsg\<close> functions of the message packages only fill in the fields.
\<close>

section \<open>Base64\<close>

text \<open>\<open>base64.StdEncoding.EncodeToString\<close>.\<close>

definition b64char :: "nat \<Rightarrow> char" where
  "b64char n = ''ABCDEFGHIJKLMNOPQRSTUVWXYZabcdefghijklmnopqrstuvwxyz0123456789+/'' ! n"

fun base64 :: "bytes \<Rightarrow> string" where
  "base64 [] = []"
| "base64 [a] = [b64char (unat a div 4), b64char (unat a mod 4 * 16), CHR ''='', CHR ''='']"
| "base64 [a, b] = [b64char (unat a div 4), b64char (unat a mod 4 * 16 + unat b div 16),
     b64char (unat b mod 16 * 4), CHR ''='']"
| "base64 (a # b # c # rest) = [b64char (unat a div 4), b64char (unat a mod 4 * 16 + unat b div 16),
     b64char (unat b mod 16 * 4 + unat c div 64), b64char (unat c mod 64)] @ base64 rest"

section \<open>Messages and calls\<close>

type_synonym u32 = "32 word"
type_synonym GasInfoType = string

text \<open>A coin whose amount may be the nil \<open>Int\<close>, and an approval.\<close>

record coin =
  Denom :: string
  Amount :: "int option"

record approval =
  ap_ExpiredHeight :: u64
  ap_FamilyId :: u32
  ap_Sig :: bytes

text \<open>The messages, with the fields the requests set, the operator's address first.\<close>

datatype sdkMsg =
    MsgSealObject address string string u32 bytes
  | MsgSealObjectV2 address string string u32 bytes "bytes list"
  | MsgRejectSealObject address string string
  | MsgDiscontinueBucket address string string
  | MsgCreateGlobalVirtualGroup address u32 "u32 list" coin
  | MsgCompleteMigrateBucket address string u32 "(u32 \<times> u32 \<times> bytes) list"
  | MsgUpdateSpStoragePrice address int u64 int
  | MsgSwapOut address u32 "u32 list" u32 approval
  | MsgCompleteSwapOut address u32 "u32 list"
  | MsgStorageProviderExit address
  | MsgCompleteStorageProviderExit string string
  | MsgRejectMigrateBucket address string
  | MsgDeposit address u32 coin
  | MsgDeleteGlobalVirtualGroup address u32
  | MsgDelegateCreateObject address string string string u64 string int "bytes list" int
  | MsgDelegateUpdateObjectContent address string string string u64 string "bytes list"
  | MsgReserveSwapIn address u32 u32 u32
  | MsgCompleteSwapIn address u32 u32
  | MsgCancelSwapIn address u32 u32

text \<open>The calls of the precompiled contracts, with their arguments.\<close>

datatype contractCall =
    CallSealObject string string u32 string
  | CallSealObjectV2 string string u32 string "string list"
  | CallRejectSealObject string string
  | CallDiscontinueBucket string string
  | CallCreateGlobalVirtualGroup u32 "u32 list" coin
  | CallCompleteMigrateBucket string u32 "(u32 \<times> u32 \<times> bytes) list"
  | CallUpdateSPPrice int u64 int
  | CallSwapOut u32 "u32 list" u32 approval
  | CallCompleteSwapOut u32 "u32 list"
  | CallSpExit
  | CallCompleteSPExit string
  | CallRejectMigrateBucket string
  | CallDeposit u32 coin
  | CallDeleteGlobalVirtualGroup u32
  | CallDelegateCreateObject string string string u64 string "8 word" "string list" "8 word"
  | CallDelegateUpdateObjectContent string string string u64 string "string list"
  | CallReserveSwapIn u32 u32 u32
  | CallCompleteSwapIn u32 u32
  | CallCancelSwapIn u32 u32

text \<open>What \<open>%T\<close> prints of a message.\<close>

fun goTypeName :: "sdkMsg \<Rightarrow> string" where
  "goTypeName (MsgSealObject _ _ _ _ _) = ''*types.MsgSealObject''"
| "goTypeName (MsgSealObjectV2 _ _ _ _ _ _) = ''*types.MsgSealObjectV2''"
| "goTypeName (MsgRejectSealObject _ _ _) = ''*types.MsgRejectSealObject''"
| "goTypeName (MsgDiscontinueBucket _ _ _) = ''*types.MsgDiscontinueBucket''"
| "goTypeName (MsgCreateGlobalVirtualGroup _ _ _ _) = ''*types.MsgCreateGlobalVirtualGroup''"
| "goTypeName (MsgCompleteMigrateBucket _ _ _ _) = ''*types.MsgCompleteMigrateBucket''"
| "goTypeName (MsgUpdateSpStoragePrice _ _ _ _) = ''*types.MsgUpdateSpStoragePrice''"
| "goTypeName (MsgSwapOut _ _ _ _ _) = ''*types.MsgSwapOut''"
| "goTypeName (MsgCompleteSwapOut _ _ _) = ''*types.MsgCompleteSwapOut''"
| "goTypeName (MsgStorageProviderExit _) = ''*types.MsgStorageProviderExit''"
| "goTypeName (MsgCompleteStorageProviderExit _ _) = ''*types.MsgCompleteStorageProviderExit''"
| "goTypeName (MsgRejectMigrateBucket _ _) = ''*types.MsgRejectMigrateBucket''"
| "goTypeName (MsgDeposit _ _ _) = ''*types.MsgDeposit''"
| "goTypeName (MsgDeleteGlobalVirtualGroup _ _) = ''*types.MsgDeleteGlobalVirtualGroup''"
| "goTypeName (MsgDelegateCreateObject _ _ _ _ _ _ _ _ _) = ''*types.MsgDelegateCreateObject''"
| "goTypeName (MsgDelegateUpdateObjectContent _ _ _ _ _ _ _) = ''*types.MsgDelegateUpdateObjectContent''"
| "goTypeName (MsgReserveSwapIn _ _ _ _) = ''*types.MsgReserveSwapIn''"
| "goTypeName (MsgCompleteSwapIn _ _ _) = ''*types.MsgCompleteSwapIn''"
| "goTypeName (MsgCancelSwapIn _ _ _) = ''*types.MsgCancelSwapIn''"

section \<open>Gas\<close>

text \<open>The transactor for one transaction, and the unsigned transaction the binding builds from it; type
  \<open>0\<close> is the legacy type.\<close>

record txOpts =
  to_Scope :: SignType
  to_Chain :: int
  to_GasPrice :: int
  to_Nonce :: int
  to_GasLimit :: u64
  to_maxGasLimit :: u64
  to_gasMarginPercent :: u64

record unsignedTx =
  ut_Type :: nat
  ut_Nonce :: u64
  ut_GasPrice :: int
  ut_Gas :: u64
  ut_Call :: contractCall

datatype broadcastAnswer = BroadcastError string | BroadcastResponse u32 string

record vgParams =
  DepositDenom :: string
  GvgStakingPerBytes :: "int option"
  MaxStoreSizePerFamily :: u64

record 'tx requestLib =
  l_keyAddr :: "SignType \<Rightarrow> address option"
  l_GetChainID :: "SignType \<Rightarrow> string option"
  l_ParseChainID :: "string \<Rightarrow> int option"
  l_Marshal :: "sdkMsg \<Rightarrow> bytes option"
  l_hasPrivateKey :: "SignType \<Rightarrow> bool"
  l_maxEvmGasPrice :: "int option"
  l_gasLimit :: "GasInfoType \<Rightarrow> u64"
  l_evmGasMarginPercent :: u64
  l_bind :: "txOpts \<Rightarrow> contractCall \<Rightarrow> unsignedTx option"
  l_signWithKey :: "SignType \<Rightarrow> int \<Rightarrow> unsignedTx \<Rightarrow> 'tx option"
  l_SuggestGasPrice :: "nat \<Rightarrow> int option"
  l_EstimateGas :: "nat \<Rightarrow> contractCall \<Rightarrow> u64 option"
  l_WaitForNextBlock :: "nat \<Rightarrow> bool"
  l_BroadcastTx :: "nat \<Rightarrow> SignType \<Rightarrow> sdkMsg \<Rightarrow> bool \<Rightarrow> GasInfoType option \<Rightarrow> u64 \<Rightarrow> broadcastAnswer"
  l_WrongSequenceCode :: u32
  l_VirtualGroupParams :: "nat \<Rightarrow> vgParams option"

definition placeholderGasLimit :: u64 where "placeholderGasLimit = 1"

definition CreateTxOpts :: "'tx evmEnv \<Rightarrow> 'tx requestLib \<Rightarrow> SignType \<Rightarrow> int \<Rightarrow> u64 \<Rightarrow> u64 \<Rightarrow> u64
    \<Rightarrow> ('tx, evm_error + txOpts) evm" where
  "CreateTxOpts E L scope chain maxGasLimit gasMarginPercent nonce =
     (if \<not> l_hasPrivateKey L scope then ret (Inl ErrDanglingPointer)
      else do {
        p \<leftarrow> ask E (l_SuggestGasPrice L);
        ret (case p of None \<Rightarrow> Inl ErrRpc
          | Some gasPrice \<Rightarrow>
            (case l_maxEvmGasPrice L of None \<Rightarrow> Inl ErrGasRefused
             | Some maxGasPrice \<Rightarrow>
               if maxGasPrice \<le> 0 then Inl ErrGasRefused
               else if gasPrice > maxGasPrice then Inl ErrGasRefused
               else Inr \<lparr>to_Scope = scope, to_Chain = chain, to_GasPrice = gasPrice, to_Nonce = sint nonce,
                      to_GasLimit = placeholderGasLimit, to_maxGasLimit = maxGasLimit,
                      to_gasMarginPercent = gasMarginPercent\<rparr>)) })"

definition gasLimitFor :: "u64 \<Rightarrow> u64 \<Rightarrow> u64 \<Rightarrow> evm_error + u64" where
  "gasLimitFor estimate maxGasLimit gasMarginPercent =
     (if maxGasLimit > 0 \<and> estimate > maxGasLimit then Inl ErrGasRefused
      else let gasLimit = estimate + estimate * gasMarginPercent div 100 in
        Inr (if maxGasLimit > 0 \<and> gasLimit > maxGasLimit then maxGasLimit else gasLimit))"

definition estimateGasLimit :: "'tx evmEnv \<Rightarrow> 'tx requestLib \<Rightarrow> unsignedTx \<Rightarrow> u64 \<Rightarrow> u64
    \<Rightarrow> ('tx, evm_error + u64) evm" where
  "estimateGasLimit E L tx maxGasLimit gasMarginPercent = do {
     e \<leftarrow> ask E (\<lambda>n. l_EstimateGas L n (ut_Call tx));
     ret (case e of None \<Rightarrow> Inl ErrGasRefused
       | Some estimate \<Rightarrow> gasLimitFor estimate maxGasLimit gasMarginPercent) }"

definition withGasLimit :: "unsignedTx \<Rightarrow> u64 \<Rightarrow> evm_error + unsignedTx" where
  "withGasLimit tx gasLimit =
     (if ut_Type tx \<noteq> 0 then Inl ErrGasRefused
      else Inr \<lparr>ut_Type = 0, ut_Nonce = ut_Nonce tx, ut_GasPrice = ut_GasPrice tx, ut_Gas = gasLimit,
                ut_Call = ut_Call tx\<rparr>)"

text \<open>The signer \<open>CreateTxOpts\<close> installs, applied to the transaction the binding has built.\<close>

definition optsSigner :: "'tx evmEnv \<Rightarrow> 'tx requestLib \<Rightarrow> txOpts \<Rightarrow> unsignedTx \<Rightarrow> ('tx, evm_error + 'tx) evm" where
  "optsSigner E L opts tx = do {
     g \<leftarrow> estimateGasLimit E L tx (to_maxGasLimit opts) (to_gasMarginPercent opts);
     ret (case g of Inl e \<Rightarrow> Inl e
       | Inr gasLimit \<Rightarrow>
         (case withGasLimit tx gasLimit of Inl e \<Rightarrow> Inl e
          | Inr estimated \<Rightarrow>
            (case l_signWithKey L (to_Scope opts) (to_Chain opts) estimated of
               None \<Rightarrow> Inl ErrEncoding
             | Some signedTx \<Rightarrow> Inr signedTx))) }"

section \<open>The request in EVM form\<close>

definition evmOperationFingerprint :: "'tx signClient \<Rightarrow> 'tx requestLib \<Rightarrow> sdkMsg \<Rightarrow> hash option" where
  "evmOperationFingerprint C L msg =
     map_option (\<lambda>msgBytes. Keccak256Hash (c_eth C) (map of_char (goTypeName msg) @ [0] @ msgBytes)) (l_Marshal L msg)"

definition completeSPExitEvmFingerprint :: "'tx signClient \<Rightarrow> 'tx requestLib \<Rightarrow> string \<Rightarrow> hash option" where
  "completeSPExitEvmFingerprint C L operator =
     evmOperationFingerprint C L (MsgCompleteStorageProviderExit [] operator)"

definition waitNextBlockAndGetNonce :: "'tx evmEnv \<Rightarrow> 'tx requestLib \<Rightarrow> SignType \<Rightarrow> ('tx, u64 option) evm" where
  "waitNextBlockAndGetNonce E L scope = do {
     waited \<leftarrow> ask E (l_WaitForNextBlock L);
     if \<not> waited then ret None else ask E (\<lambda>n. env_accountNonce E n scope) }"

text \<open>One signature: the options, the session's call, the signer.\<close>

definition signTx :: "'tx evmEnv \<Rightarrow> 'tx requestLib \<Rightarrow> GasInfoType \<Rightarrow> SignType \<Rightarrow> int \<Rightarrow> contractCall \<Rightarrow> u64
    \<Rightarrow> ('tx, evm_error + 'tx) evm" where
  "signTx E L gas scope chainId ccall nonce = do {
     o1 \<leftarrow> CreateTxOpts E L scope chainId (l_gasLimit L gas) (l_evmGasMarginPercent L) nonce;
     case o1 of Inl e \<Rightarrow> ret (Inl e)
     | Inr opts \<Rightarrow>
       (case l_bind L opts ccall of None \<Rightarrow> ret (Inl ErrEncoding)
        | Some tx \<Rightarrow> optsSigner E L opts tx) }"

text \<open>The loop every request has, with the nonce cache of the account it locks.\<close>

primrec submitLoop :: "'tx signClient \<Rightarrow> 'tx evmEnv \<Rightarrow> 'tx requestLib \<Rightarrow> SignType \<Rightarrow> (u64 \<Rightarrow> ('tx, evm_error + 'tx) evm)
    \<Rightarrow> SignType \<Rightarrow> hash \<Rightarrow> nat \<Rightarrow> ('tx, hash option \<times> evm_error option) evm" where
  "submitLoop C E L cache sign scope operation 0 = ret (None, Some ErrRejectedByNode)"
| "submitLoop C E L cache sign scope operation (Suc n) = do {
     w \<leftarrow> State_Monad.get;
     let nonce = w_nonce w cache;
     s \<leftarrow> sign nonce;
     case s of
       Inl e \<Rightarrow> ret (None, Some e)
     | Inr signedTx \<Rightarrow> do {
         r \<leftarrow> submitEvmTx C E scope operation signedTx;
         case r of (txHash, err) \<Rightarrow>
           if txHash = None \<and> err \<noteq> None then
             if err \<noteq> Some EvmNonceRejectedError then ret (None, err)
             else do {
               nn \<leftarrow> waitNextBlockAndGetNonce E L scope;
               case nn of
                 None \<Rightarrow> ret (None, Some ErrRpc)
               | Some fresh \<Rightarrow> do { setNonceCache cache fresh; submitLoop C E L cache sign scope operation n } }
           else do { setNonceCache cache (nonce + 1); ret (txHash, err) } } }"

definition evmOperation :: "'tx signClient \<Rightarrow> 'tx evmEnv \<Rightarrow> 'tx requestLib \<Rightarrow> SignType \<Rightarrow> (u64 \<Rightarrow> ('tx, evm_error + 'tx) evm)
    \<Rightarrow> SignType \<Rightarrow> hash \<Rightarrow> ('tx, hash option \<times> evm_error option) evm" where
  "evmOperation C E L cache sign scope operation = do {
     r \<leftarrow> resolvePendingEvmTx C E scope operation;
     case r of (pendingHash, handled, resolveErr) \<Rightarrow>
       if handled then ret (pendingHash, resolveErr)
       else submitLoop C E L cache sign scope operation BroadcastTxRetry }"

definition evmChain :: "'tx requestLib \<Rightarrow> SignType \<Rightarrow> evm_error + int" where
  "evmChain L scope = (case l_GetChainID L scope of None \<Rightarrow> Inl ErrRpc
     | Some cosmosChainId \<Rightarrow>
       (case l_ParseChainID L cosmosChainId of None \<Rightarrow> Inl ErrEncoding | Some chainId \<Rightarrow> Inr chainId))"

text \<open>A request from the chain id on: \<open>fingerprint\<close> is that of the message, \<open>ccall\<close> the call to sign.\<close>

definition evmRequest :: "'tx signClient \<Rightarrow> 'tx evmEnv \<Rightarrow> 'tx requestLib \<Rightarrow> SignType \<Rightarrow> GasInfoType \<Rightarrow> SignType
    \<Rightarrow> hash option \<Rightarrow> contractCall \<Rightarrow> ('tx, hash option \<times> evm_error option) evm" where
  "evmRequest C E L cache gas scope fingerprint ccall =
     (case evmChain L scope of Inl e \<Rightarrow> ret (None, Some e)
      | Inr chainId \<Rightarrow>
        (case fingerprint of None \<Rightarrow> ret (None, Some ErrEncoding)
         | Some operation \<Rightarrow> evmOperation C E L cache (signTx E L gas scope chainId ccall) scope operation))"

text \<open>The same with the key manager asked for the operator address of the message.\<close>

definition evmKeyRequest :: "'tx signClient \<Rightarrow> 'tx evmEnv \<Rightarrow> 'tx requestLib \<Rightarrow> SignType \<Rightarrow> GasInfoType \<Rightarrow> SignType
    \<Rightarrow> (address \<Rightarrow> sdkMsg) \<Rightarrow> contractCall \<Rightarrow> ('tx, hash option \<times> evm_error option) evm" where
  "evmKeyRequest C E L cache gas scope msg ccall =
     (case l_keyAddr L scope of None \<Rightarrow> ret (None, Some ErrSignMsg)
      | Some addr \<Rightarrow> evmRequest C E L cache gas scope (evmOperationFingerprint C L (msg addr)) ccall)"

section \<open>The request in Cosmos form\<close>

text \<open>Transaction options: whether the broadcast mode is set, and the gas and fee entry, if any.\<close>

record txOption =
  x_ModeSync :: bool
  x_gasInfo :: "GasInfoType option"

definition broadcastTxOnce :: "'tx evmEnv \<Rightarrow> 'tx requestLib \<Rightarrow> SignType \<Rightarrow> sdkMsg \<Rightarrow> txOption \<Rightarrow> u64
    \<Rightarrow> ('tx, evm_error + string) evm" where
  "broadcastTxOnce E L scope msg txOpt nonce = do {
     a \<leftarrow> ask E (\<lambda>n. l_BroadcastTx L n scope msg (x_ModeSync txOpt) (x_gasInfo txOpt) nonce);
     ret (case a of
         BroadcastError err \<Rightarrow>
           if strings_Contains err ''account sequence mismatch'' then Inl ErrWrongSequence else Inl ErrBroadcast
       | BroadcastResponse code txHash \<Rightarrow>
           if code = l_WrongSequenceCode L then Inl ErrWrongSequence
           else if code \<noteq> 0 then Inl ErrBroadcast
           else Inr txHash) }"

text \<open>The last argument counts the attempts left, from \<open>BroadcastTxRetry\<close> down; the loop is never entered
  with none.\<close>

primrec broadcastTxWithSequenceRetry :: "'tx evmEnv \<Rightarrow> 'tx requestLib \<Rightarrow> SignType \<Rightarrow> sdkMsg \<Rightarrow> txOption \<Rightarrow> SignType
    \<Rightarrow> nat \<Rightarrow> ('tx, (evm_error + string) \<times> u64) evm" where
  "broadcastTxWithSequenceRetry E L scope msg txOpt cache 0 = do {
     w \<leftarrow> State_Monad.get; ret (Inl ErrBroadcast, w_nonce w cache) }"
| "broadcastTxWithSequenceRetry E L scope msg txOpt cache (Suc n) = do {
     w \<leftarrow> State_Monad.get;
     let nonce = w_nonce w cache;
     r \<leftarrow> broadcastTxOnce E L scope msg txOpt nonce;
     case r of
       Inr txHash \<Rightarrow> ret (Inr txHash, nonce)
     | Inl err \<Rightarrow>
         if err \<noteq> ErrWrongSequence \<or> n = 0 then ret (Inl err, nonce)
         else do {
           refreshed \<leftarrow> ask E (\<lambda>k. env_accountNonce E k scope);
           case refreshed of
             None \<Rightarrow> ret (Inl ErrRpc, nonce)
           | Some fresh \<Rightarrow> do { setNonceCache cache fresh; broadcastTxWithSequenceRetry E L scope msg txOpt cache n } } }"

definition cosmosRequest :: "'tx evmEnv \<Rightarrow> 'tx requestLib \<Rightarrow> SignType \<Rightarrow> txOption \<Rightarrow> SignType \<Rightarrow> sdkMsg
    \<Rightarrow> ('tx, evm_error + string) evm" where
  "cosmosRequest E L cache txOpt scope msg = do {
     r \<leftarrow> broadcastTxWithSequenceRetry E L scope msg txOpt cache BroadcastTxRetry;
     case r of (Inl err, nonce) \<Rightarrow> ret (Inl err)
     | (Inr txHash, nonce) \<Rightarrow> do { setNonceCache cache (nonce + 1); ret (Inr txHash) } }"

definition cosmosKeyRequest :: "'tx evmEnv \<Rightarrow> 'tx requestLib \<Rightarrow> SignType \<Rightarrow> txOption \<Rightarrow> SignType \<Rightarrow> (address \<Rightarrow> sdkMsg)
    \<Rightarrow> ('tx, evm_error + string) evm" where
  "cosmosKeyRequest E L cache txOpt scope msg =
     (case l_keyAddr L scope of None \<Rightarrow> ret (Inl ErrSignMsg)
      | Some addr \<Rightarrow> cosmosRequest E L cache txOpt scope (msg addr))"

end
