(* ===== verification/Signer_Module.thy ===== *)
theory Signer_Module
  imports Evm_Requests
begin

text \<open>
  Every request of the signer, each in its Cosmos and its EVM form (\<open>signer_client.go\<close>), and the module
  that checks and dispatches them (\<open>signer.go\<close>). A request takes the message by pointer; the model takes
  the fields it reads, and \<open>None\<close> for the nil pointer. \<open>DiscontinueBucket\<close> dereferences its pointer without
  a check and takes the fields only.
\<close>

section \<open>The requests of the client\<close>

text \<open>The approval a swap-out carries: the requests copy the height and the signature, not the family.\<close>

definition swapApproval :: "approval option \<Rightarrow> approval" where
  "swapApproval app = (case app of
     None \<Rightarrow> \<lparr>ap_ExpiredHeight = 0, ap_FamilyId = 0, ap_Sig = []\<rparr>
   | Some a \<Rightarrow> \<lparr>ap_ExpiredHeight = ap_ExpiredHeight a, ap_FamilyId = 0, ap_Sig = ap_Sig a\<rparr>)"

definition SealObject :: "'tx evmEnv \<Rightarrow> 'tx requestLib \<Rightarrow> SignType \<Rightarrow> (string \<times> string \<times> u32 \<times> bytes) option
    \<Rightarrow> ('tx, evm_error + string) evm" where
  "SealObject E L scope msg =
     (case msg of None \<Rightarrow> ret (Inl ErrDanglingPointer)
      | Some (bucket, object, gvg, sigs) \<Rightarrow>
          cosmosKeyRequest E L SignSeal \<lparr>x_ModeSync = True, x_gasInfo = Some ''Seal''\<rparr> scope
            (\<lambda>addr. MsgSealObject addr bucket object gvg sigs))"

definition SealObjectEvm :: "'tx signClient \<Rightarrow> 'tx evmEnv \<Rightarrow> 'tx requestLib \<Rightarrow> SignType \<Rightarrow> (string \<times> string \<times> u32 \<times> bytes) option
    \<Rightarrow> ('tx, hash option \<times> evm_error option) evm" where
  "SealObjectEvm C E L scope msg =
     (case msg of None \<Rightarrow> ret (None, Some ErrDanglingPointer)
      | Some (bucket, object, gvg, sigs) \<Rightarrow>
          evmKeyRequest C E L SignSeal ''Seal'' scope
            (\<lambda>addr. MsgSealObject addr bucket object gvg sigs)
            (CallSealObject bucket object gvg (base64 sigs)))"

definition RejectUnSealObject :: "'tx evmEnv \<Rightarrow> 'tx requestLib \<Rightarrow> SignType \<Rightarrow> (string \<times> string) option
    \<Rightarrow> ('tx, evm_error + string) evm" where
  "RejectUnSealObject E L scope msg =
     (case msg of None \<Rightarrow> ret (Inl ErrDanglingPointer)
      | Some (bucket, object) \<Rightarrow>
          cosmosKeyRequest E L SignSeal \<lparr>x_ModeSync = True, x_gasInfo = Some ''RejectSeal''\<rparr> scope
            (\<lambda>addr. MsgRejectSealObject addr bucket object))"

definition RejectUnSealObjectEvm :: "'tx signClient \<Rightarrow> 'tx evmEnv \<Rightarrow> 'tx requestLib \<Rightarrow> SignType \<Rightarrow> (string \<times> string) option
    \<Rightarrow> ('tx, hash option \<times> evm_error option) evm" where
  "RejectUnSealObjectEvm C E L scope msg =
     (case msg of None \<Rightarrow> ret (None, Some ErrDanglingPointer)
      | Some (bucket, object) \<Rightarrow>
          evmKeyRequest C E L SignSeal ''RejectSeal'' scope
            (\<lambda>addr. MsgRejectSealObject addr bucket object)
            (CallRejectSealObject bucket object))"

definition DiscontinueBucket :: "'tx evmEnv \<Rightarrow> 'tx requestLib \<Rightarrow> SignType \<Rightarrow> string \<times> string
    \<Rightarrow> ('tx, evm_error + string) evm" where
  "DiscontinueBucket E L scope msg =
     (case msg of (bucket, reason) \<Rightarrow>
          cosmosKeyRequest E L SignGc \<lparr>x_ModeSync = True, x_gasInfo = None\<rparr> scope
            (\<lambda>addr. MsgDiscontinueBucket addr bucket reason))"

definition DiscontinueBucketEvm :: "'tx signClient \<Rightarrow> 'tx evmEnv \<Rightarrow> 'tx requestLib \<Rightarrow> SignType \<Rightarrow> string \<times> string
    \<Rightarrow> ('tx, hash option \<times> evm_error option) evm" where
  "DiscontinueBucketEvm C E L scope msg =
     (case msg of (bucket, reason) \<Rightarrow>
          evmKeyRequest C E L SignGc ''DiscontinueBucket'' scope
            (\<lambda>addr. MsgDiscontinueBucket addr bucket reason)
            (CallDiscontinueBucket bucket reason))"

definition CreateGlobalVirtualGroup :: "'tx evmEnv \<Rightarrow> 'tx requestLib \<Rightarrow> SignType \<Rightarrow> (u32 \<times> u32 list \<times> coin) option
    \<Rightarrow> ('tx, evm_error + string) evm" where
  "CreateGlobalVirtualGroup E L scope msg =
     (case msg of None \<Rightarrow> ret (Inl ErrDanglingPointer)
      | Some (family, sps, deposit) \<Rightarrow>
          cosmosKeyRequest E L SignOperator \<lparr>x_ModeSync = True, x_gasInfo = Some ''CreateGlobalVirtualGroup''\<rparr> scope
            (\<lambda>addr. MsgCreateGlobalVirtualGroup addr family sps deposit))"

definition CreateGlobalVirtualGroupEvm :: "'tx signClient \<Rightarrow> 'tx evmEnv \<Rightarrow> 'tx requestLib \<Rightarrow> SignType \<Rightarrow> (u32 \<times> u32 list \<times> coin) option
    \<Rightarrow> ('tx, hash option \<times> evm_error option) evm" where
  "CreateGlobalVirtualGroupEvm C E L scope msg =
     (case msg of None \<Rightarrow> ret (None, Some ErrDanglingPointer)
      | Some (family, sps, deposit) \<Rightarrow>
          evmKeyRequest C E L SignOperator ''CreateGlobalVirtualGroup'' scope
            (\<lambda>addr. MsgCreateGlobalVirtualGroup addr family sps deposit)
            (CallCreateGlobalVirtualGroup family sps deposit))"

definition CompleteMigrateBucket :: "'tx evmEnv \<Rightarrow> 'tx requestLib \<Rightarrow> SignType \<Rightarrow> (string \<times> u32 \<times> (u32 \<times> u32 \<times> bytes) list) option
    \<Rightarrow> ('tx, evm_error + string) evm" where
  "CompleteMigrateBucket E L scope msg =
     (case msg of None \<Rightarrow> ret (Inl ErrDanglingPointer)
      | Some (bucket, family, mappings) \<Rightarrow>
          cosmosKeyRequest E L SignOperator \<lparr>x_ModeSync = True, x_gasInfo = None\<rparr> scope
            (\<lambda>addr. MsgCompleteMigrateBucket addr bucket family mappings))"

definition CompleteMigrateBucketEvm :: "'tx signClient \<Rightarrow> 'tx evmEnv \<Rightarrow> 'tx requestLib \<Rightarrow> SignType \<Rightarrow> (string \<times> u32 \<times> (u32 \<times> u32 \<times> bytes) list) option
    \<Rightarrow> ('tx, hash option \<times> evm_error option) evm" where
  "CompleteMigrateBucketEvm C E L scope msg =
     (case msg of None \<Rightarrow> ret (None, Some ErrDanglingPointer)
      | Some (bucket, family, mappings) \<Rightarrow>
          evmKeyRequest C E L SignOperator ''CompleteMigrateBucket'' scope
            (\<lambda>addr. MsgCompleteMigrateBucket addr bucket family mappings)
            (CallCompleteMigrateBucket bucket family mappings))"

definition UpdateSPPrice :: "'tx evmEnv \<Rightarrow> 'tx requestLib \<Rightarrow> SignType \<Rightarrow> (int \<times> u64 \<times> int) option
    \<Rightarrow> ('tx, evm_error + string) evm" where
  "UpdateSPPrice E L scope msg =
     (case msg of None \<Rightarrow> ret (Inl ErrDanglingPointer)
      | Some (readPrice, quota, storePrice) \<Rightarrow>
          cosmosKeyRequest E L SignOperator \<lparr>x_ModeSync = True, x_gasInfo = Some ''UpdateSPPrice''\<rparr> scope
            (\<lambda>addr. MsgUpdateSpStoragePrice addr readPrice quota storePrice))"

definition UpdateSPPriceEvm :: "'tx signClient \<Rightarrow> 'tx evmEnv \<Rightarrow> 'tx requestLib \<Rightarrow> SignType \<Rightarrow> (int \<times> u64 \<times> int) option
    \<Rightarrow> ('tx, hash option \<times> evm_error option) evm" where
  "UpdateSPPriceEvm C E L scope msg =
     (case msg of None \<Rightarrow> ret (None, Some ErrDanglingPointer)
      | Some (readPrice, quota, storePrice) \<Rightarrow>
          evmKeyRequest C E L SignOperator ''UpdateSPPrice'' scope
            (\<lambda>addr. MsgUpdateSpStoragePrice addr readPrice quota storePrice)
            (CallUpdateSPPrice readPrice quota storePrice))"

definition SwapOut :: "'tx evmEnv \<Rightarrow> 'tx requestLib \<Rightarrow> SignType \<Rightarrow> (u32 \<times> u32 list \<times> u32 \<times> approval option) option
    \<Rightarrow> ('tx, evm_error + string) evm" where
  "SwapOut E L scope msg =
     (case msg of None \<Rightarrow> ret (Inl ErrDanglingPointer)
      | Some (family, gvgs, successor, app) \<Rightarrow>
          cosmosKeyRequest E L SignOperator \<lparr>x_ModeSync = True, x_gasInfo = Some ''SwapOut''\<rparr> scope
            (\<lambda>addr. MsgSwapOut addr family gvgs successor (swapApproval app)))"

definition SwapOutEvm :: "'tx signClient \<Rightarrow> 'tx evmEnv \<Rightarrow> 'tx requestLib \<Rightarrow> SignType \<Rightarrow> (u32 \<times> u32 list \<times> u32 \<times> approval option) option
    \<Rightarrow> ('tx, hash option \<times> evm_error option) evm" where
  "SwapOutEvm C E L scope msg =
     (case msg of None \<Rightarrow> ret (None, Some ErrDanglingPointer)
      | Some (family, gvgs, successor, app) \<Rightarrow>
          evmKeyRequest C E L SignOperator ''SwapOut'' scope
            (\<lambda>addr. MsgSwapOut addr family gvgs successor (swapApproval app))
            (CallSwapOut family gvgs successor (swapApproval app)))"

definition CompleteSwapOut :: "'tx evmEnv \<Rightarrow> 'tx requestLib \<Rightarrow> SignType \<Rightarrow> (u32 \<times> u32 list) option
    \<Rightarrow> ('tx, evm_error + string) evm" where
  "CompleteSwapOut E L scope msg =
     (case msg of None \<Rightarrow> ret (Inl ErrDanglingPointer)
      | Some (family, gvgs) \<Rightarrow>
          cosmosKeyRequest E L SignOperator \<lparr>x_ModeSync = True, x_gasInfo = Some ''CompleteSwapOut''\<rparr> scope
            (\<lambda>addr. MsgCompleteSwapOut addr family gvgs))"

definition CompleteSwapOutEvm :: "'tx signClient \<Rightarrow> 'tx evmEnv \<Rightarrow> 'tx requestLib \<Rightarrow> SignType \<Rightarrow> (u32 \<times> u32 list) option
    \<Rightarrow> ('tx, hash option \<times> evm_error option) evm" where
  "CompleteSwapOutEvm C E L scope msg =
     (case msg of None \<Rightarrow> ret (None, Some ErrDanglingPointer)
      | Some (family, gvgs) \<Rightarrow>
          evmKeyRequest C E L SignOperator ''CompleteSwapOut'' scope
            (\<lambda>addr. MsgCompleteSwapOut addr family gvgs)
            (CallCompleteSwapOut family gvgs))"

definition SPExit :: "'tx evmEnv \<Rightarrow> 'tx requestLib \<Rightarrow> SignType \<Rightarrow> (unit) option
    \<Rightarrow> ('tx, evm_error + string) evm" where
  "SPExit E L scope msg =
     (case msg of None \<Rightarrow> ret (Inl ErrDanglingPointer)
      | Some _ \<Rightarrow>
          cosmosKeyRequest E L SignOperator \<lparr>x_ModeSync = True, x_gasInfo = Some ''SPExit''\<rparr> scope
            (\<lambda>addr. MsgStorageProviderExit addr))"

definition SPExitEvm :: "'tx signClient \<Rightarrow> 'tx evmEnv \<Rightarrow> 'tx requestLib \<Rightarrow> SignType \<Rightarrow> (unit) option
    \<Rightarrow> ('tx, hash option \<times> evm_error option) evm" where
  "SPExitEvm C E L scope msg =
     (case msg of None \<Rightarrow> ret (None, Some ErrDanglingPointer)
      | Some _ \<Rightarrow>
          evmKeyRequest C E L SignOperator ''SPExit'' scope
            (\<lambda>addr. MsgStorageProviderExit addr)
            (CallSpExit))"

definition CompleteSPExit :: "'tx evmEnv \<Rightarrow> 'tx requestLib \<Rightarrow> SignType \<Rightarrow> (string \<times> string) option
    \<Rightarrow> ('tx, evm_error + string) evm" where
  "CompleteSPExit E L scope msg =
     (case msg of None \<Rightarrow> ret (Inl ErrDanglingPointer)
      | Some (provider, operator) \<Rightarrow>
          cosmosRequest E L SignOperator \<lparr>x_ModeSync = True, x_gasInfo = Some ''CompleteSPExit''\<rparr> scope
            (MsgCompleteStorageProviderExit provider operator))"

definition CompleteSPExitEvm :: "'tx signClient \<Rightarrow> 'tx evmEnv \<Rightarrow> 'tx requestLib \<Rightarrow> SignType \<Rightarrow> (string \<times> string) option
    \<Rightarrow> ('tx, hash option \<times> evm_error option) evm" where
  "CompleteSPExitEvm C E L scope msg =
     (case msg of None \<Rightarrow> ret (None, Some ErrDanglingPointer)
      | Some (provider, operator) \<Rightarrow>
          evmRequest C E L SignOperator ''CompleteSPExit'' scope
            (completeSPExitEvmFingerprint C L operator)
            (CallCompleteSPExit operator))"

definition RejectMigrateBucket :: "'tx evmEnv \<Rightarrow> 'tx requestLib \<Rightarrow> SignType \<Rightarrow> (string) option
    \<Rightarrow> ('tx, evm_error + string) evm" where
  "RejectMigrateBucket E L scope msg =
     (case msg of None \<Rightarrow> ret (Inl ErrDanglingPointer)
      | Some bucket \<Rightarrow>
          cosmosKeyRequest E L SignOperator \<lparr>x_ModeSync = False, x_gasInfo = None\<rparr> scope
            (\<lambda>addr. MsgRejectMigrateBucket addr bucket))"

definition RejectMigrateBucketEvm :: "'tx signClient \<Rightarrow> 'tx evmEnv \<Rightarrow> 'tx requestLib \<Rightarrow> SignType \<Rightarrow> (string) option
    \<Rightarrow> ('tx, hash option \<times> evm_error option) evm" where
  "RejectMigrateBucketEvm C E L scope msg =
     (case msg of None \<Rightarrow> ret (None, Some ErrDanglingPointer)
      | Some bucket \<Rightarrow>
          evmKeyRequest C E L SignOperator ''RejectMigrateBucket'' scope
            (\<lambda>addr. MsgRejectMigrateBucket addr bucket)
            (CallRejectMigrateBucket bucket))"

definition Deposit :: "'tx evmEnv \<Rightarrow> 'tx requestLib \<Rightarrow> SignType \<Rightarrow> (u32 \<times> coin) option
    \<Rightarrow> ('tx, evm_error + string) evm" where
  "Deposit E L scope msg =
     (case msg of None \<Rightarrow> ret (Inl ErrDanglingPointer)
      | Some (gvg, deposit) \<Rightarrow>
          cosmosKeyRequest E L SignOperator \<lparr>x_ModeSync = False, x_gasInfo = None\<rparr> scope
            (\<lambda>addr. MsgDeposit addr gvg deposit))"

definition DepositEvm :: "'tx signClient \<Rightarrow> 'tx evmEnv \<Rightarrow> 'tx requestLib \<Rightarrow> SignType \<Rightarrow> (u32 \<times> coin) option
    \<Rightarrow> ('tx, hash option \<times> evm_error option) evm" where
  "DepositEvm C E L scope msg =
     (case msg of None \<Rightarrow> ret (None, Some ErrDanglingPointer)
      | Some (gvg, deposit) \<Rightarrow>
          evmKeyRequest C E L SignOperator ''Deposit'' scope
            (\<lambda>addr. MsgDeposit addr gvg deposit)
            (CallDeposit gvg deposit))"

definition DeleteGlobalVirtualGroup :: "'tx evmEnv \<Rightarrow> 'tx requestLib \<Rightarrow> SignType \<Rightarrow> (u32) option
    \<Rightarrow> ('tx, evm_error + string) evm" where
  "DeleteGlobalVirtualGroup E L scope msg =
     (case msg of None \<Rightarrow> ret (Inl ErrDanglingPointer)
      | Some gvg \<Rightarrow>
          cosmosKeyRequest E L SignOperator \<lparr>x_ModeSync = False, x_gasInfo = None\<rparr> scope
            (\<lambda>addr. MsgDeleteGlobalVirtualGroup addr gvg))"

definition DeleteGlobalVirtualGroupEvm :: "'tx signClient \<Rightarrow> 'tx evmEnv \<Rightarrow> 'tx requestLib \<Rightarrow> SignType \<Rightarrow> (u32) option
    \<Rightarrow> ('tx, hash option \<times> evm_error option) evm" where
  "DeleteGlobalVirtualGroupEvm C E L scope msg =
     (case msg of None \<Rightarrow> ret (None, Some ErrDanglingPointer)
      | Some gvg \<Rightarrow>
          evmKeyRequest C E L SignOperator ''DeleteGlobalVirtualGroup'' scope
            (\<lambda>addr. MsgDeleteGlobalVirtualGroup addr gvg)
            (CallDeleteGlobalVirtualGroup gvg))"

definition DelegateCreateObject :: "'tx evmEnv \<Rightarrow> 'tx requestLib \<Rightarrow> SignType \<Rightarrow> (string \<times> string \<times> string \<times> u64 \<times> string \<times> int \<times> bytes list \<times> int) option
    \<Rightarrow> ('tx, evm_error + string) evm" where
  "DelegateCreateObject E L scope msg =
     (case msg of None \<Rightarrow> ret (Inl ErrDanglingPointer)
      | Some (creator, bucket, object, payloadSize, contentType, visibility, checksums, redundancy) \<Rightarrow>
          cosmosKeyRequest E L SignOperator \<lparr>x_ModeSync = False, x_gasInfo = None\<rparr> scope
            (\<lambda>addr. MsgDelegateCreateObject addr creator bucket object payloadSize contentType visibility checksums redundancy))"

definition DelegateCreateObjectEvm :: "'tx signClient \<Rightarrow> 'tx evmEnv \<Rightarrow> 'tx requestLib \<Rightarrow> SignType \<Rightarrow> (string \<times> string \<times> string \<times> u64 \<times> string \<times> int \<times> bytes list \<times> int) option
    \<Rightarrow> ('tx, hash option \<times> evm_error option) evm" where
  "DelegateCreateObjectEvm C E L scope msg =
     (case msg of None \<Rightarrow> ret (None, Some ErrDanglingPointer)
      | Some (creator, bucket, object, payloadSize, contentType, visibility, checksums, redundancy) \<Rightarrow>
          evmKeyRequest C E L SignOperator ''DelegateCreateObject'' scope
            (\<lambda>addr. MsgDelegateCreateObject addr creator bucket object payloadSize contentType visibility checksums redundancy)
            (CallDelegateCreateObject creator bucket object payloadSize contentType (of_int visibility) (map base64 checksums) (of_int redundancy)))"

definition DelegateUpdateObjectContent :: "'tx evmEnv \<Rightarrow> 'tx requestLib \<Rightarrow> SignType \<Rightarrow> (string \<times> string \<times> string \<times> u64 \<times> string \<times> bytes list) option
    \<Rightarrow> ('tx, evm_error + string) evm" where
  "DelegateUpdateObjectContent E L scope msg =
     (case msg of None \<Rightarrow> ret (Inl ErrDanglingPointer)
      | Some (updater, bucket, object, payloadSize, contentType, checksums) \<Rightarrow>
          cosmosKeyRequest E L SignOperator \<lparr>x_ModeSync = False, x_gasInfo = None\<rparr> scope
            (\<lambda>addr. MsgDelegateUpdateObjectContent addr updater bucket object payloadSize contentType checksums))"

definition DelegateUpdateObjectContentEvm :: "'tx signClient \<Rightarrow> 'tx evmEnv \<Rightarrow> 'tx requestLib \<Rightarrow> SignType \<Rightarrow> (string \<times> string \<times> string \<times> u64 \<times> string \<times> bytes list) option
    \<Rightarrow> ('tx, hash option \<times> evm_error option) evm" where
  "DelegateUpdateObjectContentEvm C E L scope msg =
     (case msg of None \<Rightarrow> ret (None, Some ErrDanglingPointer)
      | Some (updater, bucket, object, payloadSize, contentType, checksums) \<Rightarrow>
          evmKeyRequest C E L SignOperator ''DelegateUpdateObjectContent'' scope
            (\<lambda>addr. MsgDelegateUpdateObjectContent addr updater bucket object payloadSize contentType checksums)
            (CallDelegateUpdateObjectContent updater bucket object payloadSize contentType (map base64 checksums)))"

definition ReserveSwapIn :: "'tx evmEnv \<Rightarrow> 'tx requestLib \<Rightarrow> SignType \<Rightarrow> (u32 \<times> u32 \<times> u32) option
    \<Rightarrow> ('tx, evm_error + string) evm" where
  "ReserveSwapIn E L scope msg =
     (case msg of None \<Rightarrow> ret (Inl ErrDanglingPointer)
      | Some (targetSp, family, gvg) \<Rightarrow>
          cosmosKeyRequest E L SignOperator \<lparr>x_ModeSync = False, x_gasInfo = None\<rparr> scope
            (\<lambda>addr. MsgReserveSwapIn addr targetSp family gvg))"

definition ReserveSwapInEvm :: "'tx signClient \<Rightarrow> 'tx evmEnv \<Rightarrow> 'tx requestLib \<Rightarrow> SignType \<Rightarrow> (u32 \<times> u32 \<times> u32) option
    \<Rightarrow> ('tx, hash option \<times> evm_error option) evm" where
  "ReserveSwapInEvm C E L scope msg =
     (case msg of None \<Rightarrow> ret (None, Some ErrDanglingPointer)
      | Some (targetSp, family, gvg) \<Rightarrow>
          evmKeyRequest C E L SignOperator ''ReserveSwapIn'' scope
            (\<lambda>addr. MsgReserveSwapIn addr targetSp family gvg)
            (CallReserveSwapIn targetSp family gvg))"

definition CompleteSwapIn :: "'tx evmEnv \<Rightarrow> 'tx requestLib \<Rightarrow> SignType \<Rightarrow> (u32 \<times> u32) option
    \<Rightarrow> ('tx, evm_error + string) evm" where
  "CompleteSwapIn E L scope msg =
     (case msg of None \<Rightarrow> ret (Inl ErrDanglingPointer)
      | Some (family, gvg) \<Rightarrow>
          cosmosKeyRequest E L SignOperator \<lparr>x_ModeSync = False, x_gasInfo = None\<rparr> scope
            (\<lambda>addr. MsgCompleteSwapIn addr family gvg))"

definition CompleteSwapInEvm :: "'tx signClient \<Rightarrow> 'tx evmEnv \<Rightarrow> 'tx requestLib \<Rightarrow> SignType \<Rightarrow> (u32 \<times> u32) option
    \<Rightarrow> ('tx, hash option \<times> evm_error option) evm" where
  "CompleteSwapInEvm C E L scope msg =
     (case msg of None \<Rightarrow> ret (None, Some ErrDanglingPointer)
      | Some (family, gvg) \<Rightarrow>
          evmKeyRequest C E L SignOperator ''CompleteSwapIn'' scope
            (\<lambda>addr. MsgCompleteSwapIn addr family gvg)
            (CallCompleteSwapIn family gvg))"

definition CancelSwapIn :: "'tx evmEnv \<Rightarrow> 'tx requestLib \<Rightarrow> SignType \<Rightarrow> (u32 \<times> u32) option
    \<Rightarrow> ('tx, evm_error + string) evm" where
  "CancelSwapIn E L scope msg =
     (case msg of None \<Rightarrow> ret (Inl ErrDanglingPointer)
      | Some (family, gvg) \<Rightarrow>
          cosmosKeyRequest E L SignOperator \<lparr>x_ModeSync = False, x_gasInfo = None\<rparr> scope
            (\<lambda>addr. MsgCancelSwapIn addr family gvg))"

definition CancelSwapInEvm :: "'tx signClient \<Rightarrow> 'tx evmEnv \<Rightarrow> 'tx requestLib \<Rightarrow> SignType \<Rightarrow> (u32 \<times> u32) option
    \<Rightarrow> ('tx, hash option \<times> evm_error option) evm" where
  "CancelSwapInEvm C E L scope msg =
     (case msg of None \<Rightarrow> ret (None, Some ErrDanglingPointer)
      | Some (family, gvg) \<Rightarrow>
          evmKeyRequest C E L SignOperator ''CancelSwapIn'' scope
            (\<lambda>addr. MsgCancelSwapIn addr family gvg)
            (CallCancelSwapIn family gvg))"

definition SealObjectV2 :: "'tx evmEnv \<Rightarrow> 'tx requestLib \<Rightarrow> SignType \<Rightarrow> (string \<times> string \<times> u32 \<times> bytes \<times> bytes list) option
    \<Rightarrow> ('tx, evm_error + string) evm" where
  "SealObjectV2 E L scope msg =
     (case msg of None \<Rightarrow> ret (Inl ErrDanglingPointer)
      | Some (bucket, object, gvg, sigs, checksums) \<Rightarrow>
          cosmosKeyRequest E L SignSeal \<lparr>x_ModeSync = True, x_gasInfo = Some ''Seal''\<rparr> scope
            (\<lambda>addr. MsgSealObjectV2 addr bucket object gvg sigs checksums))"

definition SealObjectV2Evm :: "'tx signClient \<Rightarrow> 'tx evmEnv \<Rightarrow> 'tx requestLib \<Rightarrow> SignType \<Rightarrow> (string \<times> string \<times> u32 \<times> bytes \<times> bytes list) option
    \<Rightarrow> ('tx, hash option \<times> evm_error option) evm" where
  "SealObjectV2Evm C E L scope msg =
     (case msg of None \<Rightarrow> ret (None, Some ErrDanglingPointer)
      | Some (bucket, object, gvg, sigs, checksums) \<Rightarrow>
          evmKeyRequest C E L SignSeal ''Seal'' scope
            (\<lambda>addr. MsgSealObjectV2 addr bucket object gvg sigs checksums)
            (CallSealObjectV2 bucket object gvg (base64 sigs) (map base64 checksums)))"

section \<open>The module\<close>

text \<open>\<open>sdkmath.Int\<close> is exact here; its multiplication panics above 256 bits.\<close>

definition validateGVGDeposit :: "'tx evmEnv \<Rightarrow> 'tx requestLib \<Rightarrow> coin \<Rightarrow> ('tx, evm_error option) evm" where
  "validateGVGDeposit E L deposit =
     (case Amount deposit of None \<Rightarrow> ret (Some ErrUnexpectedFundDeposit)
      | Some amount \<Rightarrow>
        if amount \<le> 0 then ret (Some ErrUnexpectedFundDeposit)
        else do {
          p \<leftarrow> ask E (l_VirtualGroupParams L);
          ret (case p of None \<Rightarrow> Some ErrRpc
            | Some params \<Rightarrow>
              if Denom deposit \<noteq> DepositDenom params then Some ErrUnexpectedFundDeposit
              else (case GvgStakingPerBytes params of None \<Rightarrow> None
                | Some stakingPerBytes \<Rightarrow>
                  if stakingPerBytes \<le> 0 \<or> MaxStoreSizePerFamily params = 0 then None
                  else let maxDeposit = stakingPerBytes * uint (MaxStoreSizePerFamily params) in
                    if amount > maxDeposit then Some ErrUnexpectedFundDeposit else None)) })"

text \<open>A request to the module, with the pointer it is given.\<close>

datatype moduleRequest =
    ReqSealObject "(string \<times> string \<times> u32 \<times> bytes) option"
  | ReqRejectUnSealObject "(string \<times> string) option"
  | ReqDiscontinueBucket "string \<times> string"
  | ReqCreateGlobalVirtualGroup "(u32 \<times> u32 list \<times> coin) option"
  | ReqCompleteMigrateBucket "(string \<times> u32 \<times> (u32 \<times> u32 \<times> bytes) list) option"
  | ReqUpdateSPPrice "(int \<times> u64 \<times> int) option"
  | ReqSwapOut "(u32 \<times> u32 list \<times> u32 \<times> approval option) option"
  | ReqCompleteSwapOut "(u32 \<times> u32 list) option"
  | ReqSPExit "(unit) option"
  | ReqCompleteSPExit "(string \<times> string) option"
  | ReqRejectMigrateBucket "(string) option"
  | ReqDeposit "(u32 \<times> coin) option"
  | ReqDeleteGlobalVirtualGroup "(u32) option"
  | ReqDelegateCreateObject "(string \<times> string \<times> string \<times> u64 \<times> string \<times> int \<times> bytes list \<times> int) option"
  | ReqDelegateUpdateObjectContent "(string \<times> string \<times> string \<times> u64 \<times> string \<times> bytes list) option"
  | ReqReserveSwapIn "(u32 \<times> u32 \<times> u32) option"
  | ReqCompleteSwapIn "(u32 \<times> u32) option"
  | ReqCancelSwapIn "(u32 \<times> u32) option"
  | ReqSealObjectV2 "(string \<times> string \<times> u32 \<times> bytes \<times> bytes list) option"

fun SignModularEvm :: "'tx signClient \<Rightarrow> 'tx evmEnv \<Rightarrow> 'tx requestLib \<Rightarrow> moduleRequest
    \<Rightarrow> ('tx, hash option \<times> evm_error option) evm" where
  "SignModularEvm C E L (ReqSealObject m) =
     SealObjectEvm C E L SignSeal m"
| "SignModularEvm C E L (ReqRejectUnSealObject m) =
     RejectUnSealObjectEvm C E L SignSeal m"
| "SignModularEvm C E L (ReqDiscontinueBucket m) =
     DiscontinueBucketEvm C E L SignGc m"
| "SignModularEvm C E L (ReqCreateGlobalVirtualGroup m) =
     (case m of None \<Rightarrow> CreateGlobalVirtualGroupEvm C E L SignOperator m
      | Some (_, _, deposit) \<Rightarrow> do {
          v \<leftarrow> validateGVGDeposit E L deposit;
          case v of Some e \<Rightarrow> ret (None, Some e) | None \<Rightarrow> CreateGlobalVirtualGroupEvm C E L SignOperator m })"
| "SignModularEvm C E L (ReqCompleteMigrateBucket m) =
     CompleteMigrateBucketEvm C E L SignOperator m"
| "SignModularEvm C E L (ReqUpdateSPPrice m) =
     UpdateSPPriceEvm C E L SignOperator m"
| "SignModularEvm C E L (ReqSwapOut m) =
     SwapOutEvm C E L SignOperator m"
| "SignModularEvm C E L (ReqCompleteSwapOut m) =
     CompleteSwapOutEvm C E L SignOperator m"
| "SignModularEvm C E L (ReqSPExit m) =
     SPExitEvm C E L SignOperator m"
| "SignModularEvm C E L (ReqCompleteSPExit m) =
     CompleteSPExitEvm C E L SignOperator m"
| "SignModularEvm C E L (ReqRejectMigrateBucket m) =
     RejectMigrateBucketEvm C E L SignOperator m"
| "SignModularEvm C E L (ReqDeposit m) =
     (case m of None \<Rightarrow> DepositEvm C E L SignOperator m
      | Some (_, deposit) \<Rightarrow> do {
          v \<leftarrow> validateGVGDeposit E L deposit;
          case v of Some e \<Rightarrow> ret (None, Some e) | None \<Rightarrow> DepositEvm C E L SignOperator m })"
| "SignModularEvm C E L (ReqDeleteGlobalVirtualGroup m) =
     DeleteGlobalVirtualGroupEvm C E L SignOperator m"
| "SignModularEvm C E L (ReqDelegateCreateObject m) =
     DelegateCreateObjectEvm C E L SignOperator m"
| "SignModularEvm C E L (ReqDelegateUpdateObjectContent m) =
     DelegateUpdateObjectContentEvm C E L SignOperator m"
| "SignModularEvm C E L (ReqReserveSwapIn m) =
     ReserveSwapInEvm C E L SignOperator m"
| "SignModularEvm C E L (ReqCompleteSwapIn m) =
     CompleteSwapInEvm C E L SignOperator m"
| "SignModularEvm C E L (ReqCancelSwapIn m) =
     CancelSwapInEvm C E L SignOperator m"
| "SignModularEvm C E L (ReqSealObjectV2 m) =
     SealObjectV2Evm C E L SignSeal m"

fun SignModularCosmos :: "'tx evmEnv \<Rightarrow> 'tx requestLib \<Rightarrow> moduleRequest
    \<Rightarrow> ('tx, evm_error + string) evm" where
  "SignModularCosmos E L (ReqSealObject m) =
     SealObject E L SignSeal m"
| "SignModularCosmos E L (ReqRejectUnSealObject m) =
     RejectUnSealObject E L SignSeal m"
| "SignModularCosmos E L (ReqDiscontinueBucket m) =
     DiscontinueBucket E L SignGc m"
| "SignModularCosmos E L (ReqCreateGlobalVirtualGroup m) =
     (case m of None \<Rightarrow> CreateGlobalVirtualGroup E L SignOperator m
      | Some (_, _, deposit) \<Rightarrow> do {
          v \<leftarrow> validateGVGDeposit E L deposit;
          case v of Some e \<Rightarrow> ret (Inl e) | None \<Rightarrow> CreateGlobalVirtualGroup E L SignOperator m })"
| "SignModularCosmos E L (ReqCompleteMigrateBucket m) =
     CompleteMigrateBucket E L SignOperator m"
| "SignModularCosmos E L (ReqUpdateSPPrice m) =
     UpdateSPPrice E L SignOperator m"
| "SignModularCosmos E L (ReqSwapOut m) =
     SwapOut E L SignOperator m"
| "SignModularCosmos E L (ReqCompleteSwapOut m) =
     CompleteSwapOut E L SignOperator m"
| "SignModularCosmos E L (ReqSPExit m) =
     SPExit E L SignOperator m"
| "SignModularCosmos E L (ReqCompleteSPExit m) =
     CompleteSPExit E L SignOperator m"
| "SignModularCosmos E L (ReqRejectMigrateBucket m) =
     RejectMigrateBucket E L SignOperator m"
| "SignModularCosmos E L (ReqDeposit m) =
     (case m of None \<Rightarrow> Deposit E L SignOperator m
      | Some (_, deposit) \<Rightarrow> do {
          v \<leftarrow> validateGVGDeposit E L deposit;
          case v of Some e \<Rightarrow> ret (Inl e) | None \<Rightarrow> Deposit E L SignOperator m })"
| "SignModularCosmos E L (ReqDeleteGlobalVirtualGroup m) =
     DeleteGlobalVirtualGroup E L SignOperator m"
| "SignModularCosmos E L (ReqDelegateCreateObject m) =
     DelegateCreateObject E L SignOperator m"
| "SignModularCosmos E L (ReqDelegateUpdateObjectContent m) =
     DelegateUpdateObjectContent E L SignOperator m"
| "SignModularCosmos E L (ReqReserveSwapIn m) =
     ReserveSwapIn E L SignOperator m"
| "SignModularCosmos E L (ReqCompleteSwapIn m) =
     CompleteSwapIn E L SignOperator m"
| "SignModularCosmos E L (ReqCancelSwapIn m) =
     CancelSwapIn E L SignOperator m"
| "SignModularCosmos E L (ReqSealObjectV2 m) =
     SealObjectV2 E L SignSeal m"

section \<open>The account of a request\<close>

text \<open>Which account a request is specified to sign with.\<close>

fun requestAccount :: "moduleRequest \<Rightarrow> SignType" where
  "requestAccount (ReqSealObject m) = SignSeal"
| "requestAccount (ReqRejectUnSealObject m) = SignSeal"
| "requestAccount (ReqDiscontinueBucket m) = SignGc"
| "requestAccount (ReqCreateGlobalVirtualGroup m) = SignOperator"
| "requestAccount (ReqCompleteMigrateBucket m) = SignOperator"
| "requestAccount (ReqUpdateSPPrice m) = SignOperator"
| "requestAccount (ReqSwapOut m) = SignOperator"
| "requestAccount (ReqCompleteSwapOut m) = SignOperator"
| "requestAccount (ReqSPExit m) = SignOperator"
| "requestAccount (ReqCompleteSPExit m) = SignOperator"
| "requestAccount (ReqRejectMigrateBucket m) = SignOperator"
| "requestAccount (ReqDeposit m) = SignOperator"
| "requestAccount (ReqDeleteGlobalVirtualGroup m) = SignOperator"
| "requestAccount (ReqDelegateCreateObject m) = SignOperator"
| "requestAccount (ReqDelegateUpdateObjectContent m) = SignOperator"
| "requestAccount (ReqReserveSwapIn m) = SignOperator"
| "requestAccount (ReqCompleteSwapIn m) = SignOperator"
| "requestAccount (ReqCancelSwapIn m) = SignOperator"
| "requestAccount (ReqSealObjectV2 m) = SignSeal"

lemmas evm_requests = SealObjectEvm_def RejectUnSealObjectEvm_def DiscontinueBucketEvm_def CreateGlobalVirtualGroupEvm_def
  CompleteMigrateBucketEvm_def UpdateSPPriceEvm_def SwapOutEvm_def CompleteSwapOutEvm_def SPExitEvm_def CompleteSPExitEvm_def
  RejectMigrateBucketEvm_def DepositEvm_def DeleteGlobalVirtualGroupEvm_def DelegateCreateObjectEvm_def
  DelegateUpdateObjectContentEvm_def ReserveSwapInEvm_def CompleteSwapInEvm_def CancelSwapInEvm_def SealObjectV2Evm_def

lemmas cosmos_requests = SealObject_def RejectUnSealObject_def DiscontinueBucket_def CreateGlobalVirtualGroup_def
  CompleteMigrateBucket_def UpdateSPPrice_def SwapOut_def CompleteSwapOut_def SPExit_def CompleteSPExit_def
  RejectMigrateBucket_def Deposit_def DeleteGlobalVirtualGroup_def DelegateCreateObject_def
  DelegateUpdateObjectContent_def ReserveSwapIn_def CompleteSwapIn_def CancelSwapIn_def SealObjectV2_def

end
