(* ===== verification/Signer_Module_Safety.thy ===== *)
theory Signer_Module_Safety
  imports Evm_Manager_Safety Signer_Module
begin

text \<open>
  The requests of the module in the program logic: whatever a request does, in EVM or in Cosmos form,
  it keeps the invariants of the process and writes the database only through the transactions of the store.
\<close>

lemma safe_CreateTxOpts [evm_safe]: "env_ok E \<Longrightarrow> safe C F (CreateTxOpts E L s chain mx margin nonce) (\<lambda>_. {})"
  unfolding CreateTxOpts_def by (intro evm_safe safe_bind0) simp_all

lemma safe_estimateGasLimit [evm_safe]: "env_ok E \<Longrightarrow> safe C F (estimateGasLimit E L tx mx margin) (\<lambda>_. {})"
  unfolding estimateGasLimit_def by (intro evm_safe safe_bind0) simp_all

lemma safe_optsSigner [evm_safe]: "env_ok E \<Longrightarrow> safe C F (optsSigner E L opts tx) (\<lambda>_. {})"
  unfolding optsSigner_def by (intro evm_safe safe_bind0) simp_all

lemma safe_signTx [evm_safe]: "env_ok E \<Longrightarrow> safe C F (signTx E L gas s chain ccall nonce) (\<lambda>_. {})"
  unfolding signTx_def by (intro evm_safe safe_bind0) simp_all

lemma safe_waitNextBlockAndGetNonce [evm_safe]: "env_ok E \<Longrightarrow> safe C F (waitNextBlockAndGetNonce E L s) (\<lambda>_. {})"
  unfolding waitNextBlockAndGetNonce_def by (intro evm_safe safe_bind0) simp_all

lemma safe_submitLoop [evm_safe]:
  assumes "env_ok E" "\<And>F nonce. safe C F (sign nonce) (\<lambda>_. {})"
  shows "safe C F (submitLoop C E L cache sign s operation n) (\<lambda>_. {})"
proof (induction n arbitrary: F)
  case (Suc n)
  then show ?case unfolding submitLoop.simps Let_def using assms
    by (intro safe_bind0 [OF safe_get] safe_bind0 [OF assms(2)] safe_sum safe_option safe_ret safe_bind [OF safe_submitEvmTx]
          safe_prod safe_if safe_bind0 [OF safe_waitNextBlockAndGetNonce] safe_bind0 [OF safe_setNonceCache]) simp_all
qed (simp add: safe_ret)

lemma safe_evmRequest [evm_safe]:
  "env_ok E \<Longrightarrow> safe C F (evmRequest C E L cache gas s fingerprint ccall) (\<lambda>_. {})"
  unfolding evmRequest_def evmOperation_def by (intro evm_safe safe_bind0) simp_all

lemma safe_evmKeyRequest [evm_safe]:
  "env_ok E \<Longrightarrow> safe C F (evmKeyRequest C E L cache gas s msg ccall) (\<lambda>_. {})"
  unfolding evmKeyRequest_def by (intro evm_safe) simp_all

lemma safe_validateGVGDeposit [evm_safe]: "env_ok E \<Longrightarrow> safe C F (validateGVGDeposit E L deposit) (\<lambda>_. {})"
  unfolding validateGVGDeposit_def by (intro evm_safe safe_bind0) simp_all

lemma safe_SignModularEvm: "env_ok E \<Longrightarrow> safe C F (SignModularEvm C E L req) (\<lambda>_. {})"
  by (cases req; simp only: SignModularEvm.simps evm_requests; intro evm_safe safe_bind0; simp)

lemma safe_broadcastTxOnce [evm_safe]: "env_ok E \<Longrightarrow> safe C F (broadcastTxOnce E L s msg txOpt nonce) (\<lambda>_. {})"
  unfolding broadcastTxOnce_def by (intro evm_safe safe_bind0) simp_all

lemma safe_broadcastTxWithSequenceRetry [evm_safe]:
  assumes "env_ok E"
  shows "safe C F (broadcastTxWithSequenceRetry E L s msg txOpt cache n) (\<lambda>_. {})"
proof (induction n arbitrary: F)
  case 0
  then show ?case unfolding broadcastTxWithSequenceRetry.simps by (intro safe_bind0 [OF safe_get] safe_ret) simp_all
next
  case (Suc n)
  then show ?case unfolding broadcastTxWithSequenceRetry.simps Let_def using assms
    by (intro safe_bind0 [OF safe_get] safe_bind0 [OF safe_broadcastTxOnce] safe_sum safe_option safe_ret safe_if
          safe_bind0 [OF safe_ask] safe_bind0 [OF safe_setNonceCache]) simp_all
qed

lemma safe_cosmosRequest [evm_safe]: "env_ok E \<Longrightarrow> safe C F (cosmosRequest E L cache txOpt s msg) (\<lambda>_. {})"
  unfolding cosmosRequest_def by (intro evm_safe safe_bind0) simp_all

lemma safe_cosmosKeyRequest [evm_safe]: "env_ok E \<Longrightarrow> safe C F (cosmosKeyRequest E L cache txOpt s msg) (\<lambda>_. {})"
  unfolding cosmosKeyRequest_def by (intro evm_safe) simp_all

lemma safe_SignModularCosmos: "env_ok E \<Longrightarrow> safe C F (SignModularCosmos E L req) (\<lambda>_. {})"
  by (cases req; simp only: SignModularCosmos.simps cosmos_requests; intro evm_safe safe_bind0; simp)

end
