(* ===== verification/Evm_Signer.thy ===== *)
theory Evm_Signer
  imports Signer_Module_Safety
begin

text \<open>
  A signer process as a whole: the requests, the lease keeper, recovery and the background jobs as steps
  of one process (\<open>signer_step\<close>) that shares the database with others and may restart at any moment, with
  the properties of every state it can reach.
\<close>

section \<open>Runs of a process\<close>

text \<open>A restart loses the memory of the process; the database, the number of calls and what was sent stay.\<close>

definition restart :: "'tx evmWorld \<Rightarrow> 'tx evmWorld" where
  "restart w = (newEvmState (w_db w))\<lparr>w_tick := w_tick w, w_sent := w_sent w\<rparr>"

inductive signer_step :: "'tx signClient \<Rightarrow> 'tx evmEnv \<Rightarrow> 'tx evmWorld \<Rightarrow> 'tx evmWorld \<Rightarrow> bool" for C E where
  g_start: "signer_step C E w (snd (run_state (checkEvmStateOnStart C E) w))"
| g_tick: "signer_step C E w (snd (run_state (lease_tick C E) w))"
| g_recover: "signer_step C E w (snd (run_state (recoverEvmState C E fence) w))"
| g_resolve: "signer_step C E w (snd (run_state (backgroundResolveEvm C E scope) w))"
| g_settle: "signer_step C E w (snd (run_state (backgroundSettleOutcomes C E fence) w))"
| g_request: "signer_step C E w (snd (run_state (SignModularEvm C E L req) w))"
| g_cosmos: "signer_step C E w (snd (run_state (SignModularCosmos E L req) w))"
| g_stop: "signer_step C E w (snd (run_state (lease_stop C E) w))"
| g_restart: "signer_step C E w (restart w)"

abbreviation signer_steps :: "'tx signClient \<Rightarrow> 'tx evmEnv \<Rightarrow> 'tx evmWorld \<Rightarrow> 'tx evmWorld \<Rightarrow> bool" where
  "signer_steps C E \<equiv> (signer_step C E)\<^sup>*\<^sup>*"

lemma safe_run: "safe C {} m Q \<Longrightarrow> winv C w \<Longrightarrow> winv C (snd (run_state m w)) \<and> store_steps (w_db w) (w_db (snd (run_state m w)))"
  using safeD(1,2) [of C "{}" m Q w "fst (run_state m w)" "snd (run_state m w)"] by simp

lemmas signer_runs = safe_run [OF safe_checkEvmStateOnStart] safe_run [OF safe_lease_tick] safe_run [OF safe_recoverEvmState]
  safe_run [OF safe_backgroundResolveEvm] safe_run [OF safe_backgroundSettleOutcomes] safe_run [OF safe_SignModularEvm]
  safe_run [OF safe_SignModularCosmos]  safe_run [OF safe_lease_stop]

lemma memory_facts_new [simp]: "memory_facts newScopeMemory = {}"
  by (simp add: memory_facts_def newScopeMemory_def)

lemma winv_new: "db_inv db \<Longrightarrow> winv C (newEvmState db)"
  by (simp add: winv_def newEvmState_def)

lemma winv_restart: "winv C w \<Longrightarrow> winv C (restart w)"
  by (simp add: winv_def restart_def newEvmState_def)

lemma restart_db [simp]: "w_db (restart w) = w_db w"
  by (simp add: restart_def newEvmState_def)

lemma signer_step_safe:
  assumes "signer_step C E w w'" "env_ok E" "winv C w"
  shows "winv C w' \<and> store_steps (w_db w) (w_db w')"
  using assms(1)
proof cases
  case g_restart
  then show ?thesis using winv_restart [OF assms(3)] by simp
qed (use assms(2,3) in \<open>simp_all add: signer_runs\<close>)

lemma signer_steps_safe:
  assumes "signer_steps C E w w'" "env_ok E" "winv C w"
  shows "winv C w' \<and> store_steps (w_db w) (w_db w')"
  using assms(1)
proof (induction rule: rtranclp_induct)
  case (step y z)
  then show ?case using signer_step_safe [OF step.hyps(2) assms(2)] by (meson rtranclp_trans)
qed (use assms(3) in simp)

lemma signer_reach:
  assumes "store_steps empty_db db" "env_ok E" "signer_steps C E (newEvmState db) w"
  shows "winv C w" "store_steps empty_db (w_db w)"
proof -
  have "winv C w \<and> store_steps (w_db (newEvmState db :: 'a evmWorld)) (w_db w)"
    by (rule signer_steps_safe [OF assms(3,2) winv_new [OF store_reach_inv [OF assms(1)]]])
  then show "winv C w" "store_steps empty_db (w_db w)" using assms(1) by (auto simp: newEvmState_def intro: rtranclp_trans)
qed

section \<open>A concrete run\<close>

text \<open>Transactions are their own bytes, the other processes are idle and the nodes accept: the process takes
  the lease and seals an object.\<close>

definition ex_eth :: "bytes ethLib" where
  "ex_eth = \<lparr>UnmarshalBinary = Some, MarshalBinary = Some, tx_Hash = (\<lambda>raw. of_nat (length raw)), Keccak256Hash = (\<lambda>raw. if length raw = 3 then 3 else 77),
     tx_ChainId = (\<lambda>_. Some 5151), tx_Sender = (\<lambda>_ _. Some 9), tx_Nonce = (\<lambda>_. 4)\<rparr>"

definition ex_client :: "bytes signClient" where
  "ex_client = \<lparr>c_eth = ex_eth, c_evm = True, c_chainID = ex_chain, c_evmChainID = 5151, c_owner = ''A'', c_ttl = 30000000000,
     c_keyAddress = (\<lambda>_. Some 9), c_mocaClients = (\<lambda>_. True), c_autoEvm = True, c_autoCosmos = False, c_failedTxRollsBack = False\<rparr>"

definition ex_env :: "sendError option \<Rightarrow> bytes evmEnv" where
  "ex_env answer = \<lparr>env_dbCall = (\<lambda>_. ex_call), env_readFails = (\<lambda>_. False), env_others = (\<lambda>_ db. db), env_time = int,
     env_ctxDone = (\<lambda>_. False), env_send = (\<lambda>_ _. answer), env_receipt = (\<lambda>_ _. ReceiptNotFound),
     env_waitReceipt = (\<lambda>_ _. Some \<lparr>rc_Status = 1, rc_BlockNumber = Some 101\<rparr>), env_accountNonce = (\<lambda>_ _. Some 4),
     env_blockNumber = (\<lambda>_. Some 100), env_evmChainID = (\<lambda>_. Some 5151), env_nonceAt = (\<lambda>_ _ _. Some 4),
     env_pendingNonceAt = (\<lambda>_ _. Some 4), env_network = (\<lambda>_. None), env_searchEthereumTx = (\<lambda>_ _ _. IndexDisabled)\<rparr>"

definition ex_low :: sendError where
  "ex_low = \<lparr>se_context = False, se_http = False, se_rpc = Some (-32000, ''nonce too low''), se_text = ''nonce too low''\<rparr>"

lemma ex_env_ok: "env_ok (ex_env answer)"
  by (simp add: env_ok_def ex_env_def)

definition ex_held :: "bytes evmWorld" where
  "ex_held = snd (run_state (lease_tick ex_client (ex_env None)) (newEvmState empty_db))"

definition ex_lib :: "bytes requestLib" where
  "ex_lib = \<lparr>l_keyAddr = (\<lambda>_. Some 9), l_GetChainID = (\<lambda>_. Some ex_chain), l_ParseChainID = (\<lambda>_. Some 5151),
     l_Marshal = (\<lambda>_. Some []), l_hasPrivateKey = (\<lambda>_. True), l_maxEvmGasPrice = Some 10, l_gasLimit = (\<lambda>_. 30000),
     l_evmGasMarginPercent = 30, l_bind = (\<lambda>opts c. Some \<lparr>ut_Type = 0, ut_Nonce = word_of_int (to_Nonce opts),
       ut_GasPrice = to_GasPrice opts, ut_Gas = to_GasLimit opts, ut_Call = c\<rparr>),
     l_signWithKey = (\<lambda>_ _ _. Some [1, 2, 3]), l_SuggestGasPrice = (\<lambda>_. Some 5), l_EstimateGas = (\<lambda>_ _. Some 21000),
     l_WaitForNextBlock = (\<lambda>_. True), l_BroadcastTx = (\<lambda>_ _ _ _ _ _. BroadcastResponse 0 ''AB''), l_WrongSequenceCode = 32,
     l_VirtualGroupParams = (\<lambda>_. Some \<lparr>DepositDenom = ''amoca'', GvgStakingPerBytes = Some 2, MaxStoreSizePerFamily = 100\<rparr>)\<rparr>"

definition ex_req :: moduleRequest where
  "ex_req = ReqSealObject (Some (''bucket'', ''object'', 7, [1, 2]))"

definition ex_sealed :: "bytes evmWorld" where
  "ex_sealed = snd (run_state (SignModularEvm ex_client (ex_env None) ex_lib ex_req) ex_held)"

lemma ex_held_reach: "signer_steps ex_client (ex_env None) (newEvmState empty_db) ex_held"
  unfolding ex_held_def by (intro r_into_rtranclp g_tick)

lemma ex_sealed_reach: "signer_steps ex_client (ex_env None) (newEvmState empty_db) ex_sealed"
  unfolding ex_sealed_def by (rule rtranclp.rtrancl_into_rtrancl [OF ex_held_reach g_request])

text \<open>Symbolic execution by rewriting: a computation is unfolded only as far as its next call.\<close>

lemma run_bind: "run_state (State_Monad.bind m k) w = (case run_state m w of (a, w') \<Rightarrow> run_state (k a) w')"
  by (simp add: State_Monad.bind_def)

lemma run_ret: "run_state (ret a) w = (a, w)"
  by (simp add: State_Monad.return_def)

lemma run_get: "run_state State_Monad.get w = (w, w)"
  by (simp add: State_Monad.get_def)

lemma run_ask: "run_state (ask E f) w = (f (w_tick w), w\<lparr>w_tick := w_tick w + 1, w_db := env_others E (w_tick w) (w_db w)\<rparr>)"
  by (simp add: ask_def call_def run_bind run_ret)

lemma run_read: "run_state (db_read E f) w = (if env_readFails E (w_tick w) then Inl ErrDatabase else Inr (f (env_others E (w_tick w) (w_db w))),
    w\<lparr>w_tick := w_tick w + 1, w_db := env_others E (w_tick w) (w_db w)\<rparr>)"
  by (simp add: db_read_def call_def run_bind run_ret run_get)

lemma run_write: "run_state (db_write E f) w = (case f (env_dbCall E (w_tick w)) (env_others E (w_tick w) (w_db w)) of
    (r, db) \<Rightarrow> (r, w\<lparr>w_tick := w_tick w + 1, w_db := db\<rparr>))"
  by (simp add: db_write_def call_def run_bind split: prod.split)

lemma run_send: "run_state (sendEvmTx E tx) w = (env_send E (w_tick w) tx,
    w\<lparr>w_tick := w_tick w + 1, w_db := env_others E (w_tick w) (w_db w), w_sent := w_sent w @ [tx]\<rparr>)"
  by (simp add: sendEvmTx_def call_def run_bind)

lemma run_upd: "run_state (upd f) w = ((), f w)"
  by (simp add: upd_def)

lemma run_memory: "run_state (evm_memory s) w = (w_scopes w s, w)"
  by (simp add: evm_memory_def)

lemmas run_calls = run_bind run_ret run_get run_ask run_read run_write run_send run_upd run_memory

lemma lazy:
  "m = m' \<Longrightarrow> State_Monad.bind m k = State_Monad.bind m' k"
  "db_read E f = db_read E f" "db_write E g = db_write E g" "ask E h = ask E h" "upd u = upd u"
  by simp_all

lemmas ex_defs = ex_client_def ex_env_def ex_eth_def ex_call_def ex_chain_def newEvmState_def newScopeMemory_def empty_db_def

lemma ex_held_eval: "ex_held = (newEvmState ex_leased)\<lparr>w_lease := \<lparr>le_held = True, le_epoch = 1, le_lastRenew = 1\<rparr>, w_tick := 2\<rparr>"
proof -
  have a: "AcquireLease ex_call ex_chain ''A'' 30000000 empty_db = (Inr (1, True), ex_leased)"
    unfolding ex_leased_def by (rule prod_eqI) (simp_all, code_simp)
  have b: "go_div (leaseTTL 30000000000) 1000 = 30000000" by code_simp
  show ?thesis
    unfolding ex_held_def lease_tick_def
    by (simp add: run_calls Let_def newEvmState_def ex_client_def ex_env_def a b cong: lazy)
qed

lemma ex_client_sel:
  "c_eth ex_client = ex_eth" "c_evm ex_client" "c_chainID ex_client = ex_chain" "c_evmChainID ex_client = 5151" "c_owner ex_client = ''A''"
  "c_ttl ex_client = 30000000000" "c_keyAddress ex_client s = Some 9" "c_mocaClients ex_client s"
  by (simp_all add: ex_client_def)

lemma ex_env_sel:
  "env_dbCall (ex_env a) n = ex_call" "\<not> env_readFails (ex_env a) n" "env_others (ex_env a) n db = db" "env_time (ex_env a) n = int n"
  "\<not> env_ctxDone (ex_env a) n" "env_send (ex_env a) n tx = a" "env_accountNonce (ex_env a) n s = Some 4" "env_blockNumber (ex_env a) n = Some 100"
  "env_waitReceipt (ex_env a) n h = Some \<lparr>rc_Status = 1, rc_BlockNumber = Some 101\<rparr>"
  by (simp_all add: ex_env_def)

lemma ex_eth_sel:
  "MarshalBinary ex_eth raw = Some raw" "tx_Hash ex_eth raw = of_nat (length raw)" "tx_ChainId ex_eth raw = Some 5151"
  "tx_Sender ex_eth cid raw = Some 9" "tx_Nonce ex_eth raw = 4"
  by (simp_all add: ex_eth_def)

lemma ex_leased_reads: "GetPending ex_chain SignSeal ex_leased = None" "GetOutcome ex_chain SignSeal 77 ex_leased = None"
  by code_simp+

lemma ex_ttl: "go_div (leaseTTL 30000000000) 2 = 15000000000"
  by code_simp

lemmas ex_run = run_calls ex_client_sel ex_env_sel ex_eth_sel ex_leased_reads ex_ttl lease_fence_def resolvePendingEvmTx_def
  syncEvmScopeEpoch_def resolveEvmState.simps evmResolveMaxDepth_def retryEvmMemory_def takeAwaiting_def updMemory_def resolvePendingRow_def
  setLastSeen_def setNonceCache_def clearLastSeen_def hasNonceCache_def submitEvmTx_def recordPendingEvmTx_def newEvidence_def newPending_def awaitReceipt_def
  finishPendingEvmTx_def applyTerminal_def receiptTerminal_def

lemma ex_lib_sel:
  "l_keyAddr ex_lib s = Some 9" "l_GetChainID ex_lib s = Some ex_chain" "l_ParseChainID ex_lib c = Some 5151" "l_Marshal ex_lib msg = Some []"
  "l_hasPrivateKey ex_lib s" "l_maxEvmGasPrice ex_lib = Some 10" "l_gasLimit ex_lib g = 30000" "l_evmGasMarginPercent ex_lib = 30"
  "l_bind ex_lib opts cc = Some \<lparr>ut_Type = 0, ut_Nonce = word_of_int (to_Nonce opts), ut_GasPrice = to_GasPrice opts,
     ut_Gas = to_GasLimit opts, ut_Call = cc\<rparr>"
  "l_signWithKey ex_lib s cid tx = Some [1, 2, 3]" "l_SuggestGasPrice ex_lib n = Some 5" "l_EstimateGas ex_lib n cc = Some 21000"
  by (simp_all add: ex_lib_def)

lemma ex_operation: "evmOperationFingerprint ex_client ex_lib msg = Some 77"
proof -
  have "length (goTypeName msg) > 2" by (cases msg) simp_all
  then show ?thesis by (simp add: evmOperationFingerprint_def ex_lib_sel ex_client_sel ex_eth_def)
qed

lemmas ex_request_run = ex_req_def SignModularEvm.simps SealObjectEvm_def evmKeyRequest_def evmRequest_def evmChain_def evmOperation_def
  ex_lib_sel ex_operation submitLoop.simps signTx_def CreateTxOpts_def optsSigner_def estimateGasLimit_def gasLimitFor_def withGasLimit_def

text \<open>The two transactions of the request: \<open>Record\<close> and the \<open>ResolvePending\<close> of the receipt.\<close>

definition ex_sealing :: pendingRecord where
  "ex_sealing = ex_row\<lparr>p_Scope := SignSeal, p_TxHash := 3\<rparr>"

definition ex_sealing_db :: evm_db where
  "ex_sealing_db = snd (Record ex_call ex_fence (ex_ev\<lparr>e_Scope := SignSeal, e_TxHash := 3\<rparr>)
     (ex_pending\<lparr>p_Scope := SignSeal, p_TxHash := 3\<rparr>) ex_leased)"

definition ex_receipt :: pendingTerminal where
  "ex_receipt = \<lparr>pt_Kind = TerminalSuccessConsume, pt_ReceiptStatus = Some 1, pt_ReceiptBlock = 101, pt_Source = SourceSubmit\<rparr>"

definition ex_sealed_db :: evm_db where
  "ex_sealed_db = snd (ResolvePending ex_call ex_fence ex_sealing ex_receipt ex_sealing_db)"

lemma ex_record: "Record ex_call ex_fence (ex_ev\<lparr>e_Scope := SignSeal, e_TxHash := 3\<rparr>)
     (ex_pending\<lparr>p_Scope := SignSeal, p_TxHash := 3\<rparr>) ex_leased = (Inr ex_sealing, ex_sealing_db)"
  unfolding ex_sealing_db_def by (rule prod_eqI) (simp_all, code_simp)

lemma ex_resolve: "ResolvePending ex_call ex_fence ex_sealing ex_receipt ex_sealing_db = (Inr None, ex_sealed_db)"
  unfolding ex_sealed_db_def by (rule prod_eqI) (simp_all, code_simp)

lemmas ex_writes = ex_record [unfolded ex_fence_def ex_ev_def ex_pending_def ex_sealing_def ex_row_def, simplified]
  ex_resolve [unfolded ex_fence_def ex_sealing_def ex_row_def ex_pending_def ex_receipt_def, simplified]

lemma ex_submitted:
  "run_state (submitEvmTx ex_client (ex_env None) SignSeal 77 [1, 2, 3]) ex_held =
     ((Some 3, None), ex_held\<lparr>w_db := ex_sealed_db, w_tick := 10, w_sent := [[1, 2, 3]],
        w_scopes := (\<lambda>_. newScopeMemory)\<rparr>)"
  unfolding ex_held_eval
  by (simp add: ex_run ex_writes Let_def newEvmState_def newScopeMemory_def IsUint64_def classifyEvmSendError_def fun_upd_idem cong: lazy)

lemma ex_request:
  "fst (run_state (SignModularEvm ex_client (ex_env None) ex_lib ex_req) ex_held) = (Some 3, None)"
  "w_db ex_sealed = ex_sealed_db" "w_sent ex_sealed = [[1, 2, 3]]"
  unfolding ex_sealed_def ex_held_eval
  by (simp_all add: ex_request_run ex_run ex_writes Let_def newEvmState_def newScopeMemory_def IsUint64_def BroadcastTxRetry_def numeral_3_eq_3
      classifyEvmSendError_def cong: lazy)

text \<open>The evidence a landed \<open>Record\<close> refers to.\<close>

lemma recordPending_SignedTxID: "recordPending X fence p db = (Inr q, db') \<Longrightarrow> p_SignedTxID q = p_SignedTxID p \<and> pending_ref q = pending_ref p"
  by (auto simp: recordPending_def Let_def pending_ref_def split: sum.splits prod.splits)

lemma Record_evidence:
  assumes "describes ev p" "Record X fence ev p db = (Inr q, db')"
  obtains e where "e \<in> set (db_signed db')" "e_ID e = p_SignedTxID q" "sameEvidence e ev" "mismatched e (pending_ref q) = []"
proof -
  obtain e db1 where r: "recordPending X fence (p\<lparr>p_SignedTxID := e_ID e\<rparr>) db1 = (Inr q, db')" "e \<in> set (db_signed db1)" "sameEvidence e ev"
  proof (cases "filter (\<lambda>e. e_ChainID e = e_ChainID ev \<and> e_TxHash e = e_TxHash ev) (db_signed db)")
    case Nil
    let ?e = "ev\<lparr>e_LeaseEpoch := f_Epoch fence, e_ID := db_nextSigned db\<rparr>"
    have "recordPending X fence (p\<lparr>p_SignedTxID := e_ID ?e\<rparr>) (db\<lparr>db_signed := db_signed db @ [?e], db_nextSigned := db_nextSigned db + 1\<rparr>) = (Inr q, db')"
      using Nil txn_InrD [OF assms(2) [unfolded Record_def]] by (auto simp: Record_txn_def createSigned_def Let_def split: if_splits)
    then show ?thesis by (rule that) (simp_all add: sameEvidence_def)
  next
    case (Cons e es)
    then have "e \<in> set (db_signed db)" using Cons_eq_filterD [OF Cons [symmetric]] by auto
    then show ?thesis using Cons txn_InrD [OF assms(2) [unfolded Record_def]] that [of e db]
      by (auto simp: Record_txn_def split: if_splits)
  qed
  have "mismatched e (pending_ref q) = []"
    using recordPending_SignedTxID [OF r(1)] r(3) assms(1) by (simp add: mismatched_def pending_ref_def sameEvidence_def describes_def)
  then show ?thesis using that [of e] r recordPending_SignedTxID [OF r(1)] recordPending_Inr(3) [OF r(1)] by simp
qed

section \<open>Properties\<close>



text \<open>C5: The running signer refines the store. Whatever a signer process does (requests, lease keeping,
  recovery, background jobs, stopping, restarting), it changes the database only by the store's steps, so
  an operation it works on was recorded for signing exactly as often as it was closed, plus one if it
  is active now.\<close>

theorem signer_refines_store:
  assumes "store_steps empty_db db" "env_ok E" "signer_steps C E (newEvmState db) w"
  shows "store_steps empty_db (w_db w)
    \<and> recordings (chain, scope, operation) (w_db w) = closings (chain, scope, operation) (w_db w) + active (chain, scope, operation) (w_db w)
    \<and> active (chain, scope, operation) (w_db w) \<le> 1"
  using signer_reach(2) [OF assms] store_reach_ledger active_le_1 [OF store_reach_inv] by (auto simp: ledger_def)

theorem signer_refines_store_witness:
  "recordings (ex_chain, SignSeal, 77) (w_db ex_sealed) = 1 \<and> closings (ex_chain, SignSeal, 77) (w_db ex_sealed) = 1"
proof -
  have "recordings (ex_chain, SignSeal, 77) ex_sealed_db = 1 \<and> active (ex_chain, SignSeal, 77) ex_sealed_db = 0" by code_simp
  then show ?thesis
    using signer_refines_store [OF rtranclp.rtrancl_refl ex_env_ok ex_sealed_reach, of ex_chain SignSeal 77] by (simp add: ex_request)
qed

text \<open>C6: What a submission's answer means. When \<open>submitEvmTx\<close> returns a hash and no error, it is the
  hash of this transaction and the consumption of its operation is in the audit; when it returns one of the
  two refusal errors, on which the caller signs anew, a refusal of exactly this transaction is in the
  audit.\<close>

theorem submit_answer_audited:
  assumes "store_steps empty_db db" "env_ok E" "signer_steps C E (newEvmState db) w"
    and "run_state (submitEvmTx C E scope operation tx) w = (r, w')"
  shows "(r = (Some h, None) \<longrightarrow> h = tx_Hash (c_eth C) tx \<and> HasAudit (c_chainID C) AuditOutcomeConsumed h 0 (w_db w'))
    \<and> (r = (None, Some EvmNonceRejectedError) \<or> r = (None, Some ErrRejectedByNode) \<longrightarrow>
        HasAudit (c_chainID C) AuditNotAdmittedNonceLow (tx_Hash (c_eth C) tx) 0 (w_db w')
      \<or> HasAudit (c_chainID C) AuditNotAdmittedNonceHigh (tx_Hash (c_eth C) tx) 0 (w_db w')
      \<or> HasAudit (c_chainID C) AuditNotAdmittedRejected (tx_Hash (c_eth C) tx) 0 (w_db w'))"
proof -
  have "facts (c_chainID C) (w_db w') (submit_facts (tx_Hash (c_eth C) tx) r)"
    by (rule safeD(3) [OF safe_submitEvmTx [OF assms(2), where F = "{}"] signer_reach(1) [OF assms(1,2,3)] _ assms(4)]) simp
  then show ?thesis by (auto simp: store_error_def)
qed

theorem submit_answer_audited_witness:
  "fst (run_state (submitEvmTx ex_client (ex_env None) SignSeal 77 [1, 2, 3]) ex_held) = (Some 3, None)
    \<and> HasAudit ex_chain AuditOutcomeConsumed 3 0 ex_sealed_db"
  using submit_answer_audited [OF rtranclp.rtrancl_refl ex_env_ok ex_held_reach ex_submitted, of 3] by (simp add: ex_submitted ex_client_sel)

text \<open>C7: A terminal that was applied stays applied. When \<open>applyTerminal\<close> returns no error for the pending
  row the signer has read, also when the COMMIT's result was unknown and was read back, the row is pending
  no more, now and in every later database, and the audit has its closing event.\<close>

theorem applied_terminal_final:
  assumes "store_steps empty_db db" "env_ok E" "signer_steps C E (newEvmState db) w"
    and "GetPending (c_chainID C) scope (w_db w) = Some p" "run_state (applyTerminal C E fence p t) w = (None, w')"
    and "store_steps (w_db w') db'"
  shows "filter (\<lambda>r. sr_ID r = p_ID p \<and> sr_State r = RowPending) (db_state db') = [] \<and> HasAudit (c_chainID C) (doneEvent (pt_Kind t)) (p_TxHash p) 0 db'"
proof -
  note w = signer_reach(1) [OF assms(1,2,3)]
  obtain r where r: "r \<in> set (db_state (w_db w))" "sr_ChainID r = c_chainID C" "p = pendingFromRow r" using assms(4) by (rule GetPending_SomeE)
  have row: "facts (c_chainID C) (w_db w) {Row (p_ID p) (pending_ref p)}"
    using row_fact [of "w_db w" r "c_chainID C"] r w pendingFromRow_facts [of r] by (simp add: winv_def pending_facts_def)
  note s = safeD [OF safe_applyTerminal [OF assms(2) singletonI] w row assms(5)]
  have "facts (c_chainID C) db' (ended_facts p (pt_Kind t))"
    using facts_mono [OF s(1) assms(6)] s(3) by simp
  then show ?thesis by (auto simp: ended_facts_def filter_empty_conv)
qed

theorem applied_terminal_final_witness:
  "filter (\<lambda>r. sr_ID r = 1 \<and> sr_State r = RowPending) (db_state ex_sealed_db) = [] \<and> HasAudit ex_chain AuditOutcomeConsumed 3 0 ex_sealed_db"
proof -
  let ?w = "newEvmState ex_sealing_db :: bytes evmWorld"
  have s: "store_steps empty_db ex_sealing_db"
    unfolding ex_sealing_db_def
    by (rule rtranclp.rtrancl_into_rtrancl [OF ex_leased_reach s_record]) (simp add: describes_def ex_ev_def ex_pending_def)
  have g: "GetPending (c_chainID ex_client) SignSeal (w_db ?w) = Some ex_sealing"
    unfolding ex_client_sel newEvmState_def by code_simp
  have r: "run_state (applyTerminal ex_client (ex_env None) ex_fence ex_sealing ex_receipt) ?w = (None, ?w\<lparr>w_db := ex_sealed_db, w_tick := 1\<rparr>)"
    by (simp add: ex_run ex_resolve newEvmState_def newScopeMemory_def fun_upd_idem cong: lazy)
  have "p_ID ex_sealing = 1 \<and> p_TxHash ex_sealing = 3" by code_simp
  then show ?thesis
    using applied_terminal_final [OF s ex_env_ok rtranclp.rtrancl_refl g r rtranclp.rtrancl_refl]
    by (simp add: ex_client_sel ex_receipt_def)
qed

text \<open>C8: Evidence round trip. A transaction that the signer recorded can be loaded again for ever: from
  every later database, however many processes wrote to it and whoever restarts, the evidence of the
  recorded row passes the check against the row and decodes to the very same transaction. What is used
  of go-ethereum: decoding undoes encoding, and the hash of a transaction is the Keccak hash of its bytes.\<close>

theorem evidence_roundtrip:
  assumes "store_steps empty_db db"
    and "MarshalBinary (c_eth C) tx = Some raw" "UnmarshalBinary (c_eth C) raw = Some tx" "Keccak256Hash (c_eth C) raw = tx_Hash (c_eth C) tx"
    and "tx_ChainId (c_eth C) tx = Some cid" "IsUint64 cid" "word_of_int cid = c_evmChainID C" "tx_Sender (c_eth C) cid tx = Some sender"
    and "Record X fence (newEvidence C scope operation tx raw cid sender block) (newPending C scope operation tx sender) db = (Inr q, db1)"
    and "store_steps db1 db2"
  shows "st_verify C (GetSignedTx (p_SignedTxID q) db2) (pending_ref q) = Inr tx"
proof -
  let ?ev = "newEvidence C scope operation tx raw cid sender block" and ?p = "newPending C scope operation tx sender"
  have d: "describes ?ev ?p" by (simp add: describes_def newEvidence_def newPending_def)
  have r1: "store_steps empty_db db1" using rtranclp.rtrancl_into_rtrancl [OF assms(1) s_record [OF d, of db X fence]] assms(9) by simp
  note inv1 = store_reach_inv [OF r1]
  have inv2: "db_inv db2" by (rule store_steps_inv [OF assms(10) inv1])
  obtain e where e: "e \<in> set (db_signed db1)" "e_ID e = p_SignedTxID q" "sameEvidence e ?ev" "mismatched e (pending_ref q) = []"
    using Record_evidence [OF d assms(9)] by blast
  have "prefix (db_signed db1) (db_signed db2)" using store_steps_grow [OF assms(10) inv1] by (simp add: db_grows_def)
  then have "e \<in> set (db_signed db2)" using e(1) set_mono_prefix by blast
  then have "GetSignedTx (p_SignedTxID q) db2 = Some e" using GetSignedTx_mem [OF inv2] e(2) by fastforce
  moreover have "evidence_valid (c_eth C) e (pending_ref q) tx" "e_EvmChainID e = c_evmChainID C"
    using e(3,4) assms(3-8) by (auto simp: evidence_valid_def sameEvidence_def newEvidence_def)
  ultimately show ?thesis by (simp add: st_verify_def verifySignedTxEvidence_iff [THEN iffD2])
qed

theorem evidence_roundtrip_witness:
  "st_verify ex_client (GetSignedTx 1 (snd (AcquireLease ex_late ex_chain ''B'' 30000000 ex_sealing_db))) (pending_ref ex_sealing) = Inr [1, 2, 3]"
proof -
  let ?db = "snd (AcquireLease ex_late ex_chain ''B'' 30000000 ex_sealing_db)"
  have r: "Record ex_call ex_fence (newEvidence ex_client SignSeal 77 [1, 2, 3] [1, 2, 3] 5151 9 100) (newPending ex_client SignSeal 77 [1, 2, 3] 9)
      ex_leased = (Inr ex_sealing, ex_sealing_db)"
    using ex_record by (simp add: newEvidence_def newPending_def ex_client_sel ex_eth_sel ex_ev_def ex_pending_def)
  have s: "store_steps ex_sealing_db ?db" by (intro r_into_rtranclp s_acquire)
  have "p_SignedTxID ex_sealing = 1" by code_simp
  then show ?thesis
    using evidence_roundtrip [OF ex_leased_reach _ _ _ _ _ _ _ r s] by (simp add: ex_client_sel ex_eth_sel ex_eth_def IsUint64_def)
qed

end
