(* ===== verification/Evm_Costs.thy ===== *)
theory Evm_Costs
  imports Signer_Module
begin

text \<open>
  What a request costs at most: calls to the database and the nodes, and transactions handed to a node.
  Both are meters of the state, and the locale \<open>meter\<close> is what a meter promises: a call adds at most
  \<open>a\<close>, a send \<open>b\<close> more, and nothing else moves it but the nonce caches of accounts other than \<open>s\<close>. The bound
  of an operation of account \<open>s\<close> is proved once for every meter; the number of calls (\<open>a = 1\<close>, \<open>b = 0\<close>), the
  number of sends (\<open>a = 0\<close>, \<open>b = 1\<close>) and the change of another account's nonce (\<open>a = b = 0\<close>) are its
  interpretations.
\<close>

section \<open>Costs of a computation\<close>

definition costs :: "('tx evmWorld \<Rightarrow> nat) \<Rightarrow> nat \<Rightarrow> ('tx, 'a) evm \<Rightarrow> bool" where
  "costs f k m \<longleftrightarrow> (\<forall>w. f (snd (run_state m w)) \<le> f w + k)"

named_theorems cost

lemma costs_le: "costs f k m \<Longrightarrow> k \<le> n \<Longrightarrow> costs f n m"
  unfolding costs_def by (meson add_left_mono order_trans)

lemma costs_max: "costs f k m \<Longrightarrow> costs f (max k l) m" "costs f l m \<Longrightarrow> costs f (max k l) m"
  by (auto elim: costs_le)

lemma costs_ret [cost]: "costs f 0 (ret a)"
  by (simp add: costs_def State_Monad.return_def)

lemma costs_get [cost]: "costs f 0 State_Monad.get"
  by (simp add: costs_def State_Monad.get_def)

lemma costs_memory [cost]: "costs f 0 (evm_memory s)"
  by (simp add: costs_def evm_memory_def)

lemma costs_bind_post:
  assumes "costs f k m" "\<And>w. P (fst (run_state m w))" "\<And>x. P x \<Longrightarrow> costs f l (g x)"
  shows "costs f (k + l) (State_Monad.bind m g)"
  unfolding costs_def
proof
  fix w
  obtain x v where m: "run_state m w = (x, v)" by force
  have "f v \<le> f w + k" using assms(1) m unfolding costs_def by (metis snd_conv)
  moreover have "f (snd (run_state (g x) v)) \<le> f v + l" using assms(3) [of x] assms(2) [of w] m by (simp add: costs_def)
  ultimately show "f (snd (run_state (State_Monad.bind m g) w)) \<le> f w + (k + l)" using m by (simp add: State_Monad.bind_def)
qed

lemma costs_bind [cost]: "costs f k m \<Longrightarrow> (\<And>x. costs f l (g x)) \<Longrightarrow> costs f (k + l) (State_Monad.bind m g)"
  by (rule costs_bind_post [where P = "\<lambda>_. True"]) simp_all

lemma costs_if [cost]: "costs f k m \<Longrightarrow> costs f l n \<Longrightarrow> costs f (max k l) (if c then m else n)"
  by (auto intro: costs_max)

lemma costs_sum [cost]: "(\<And>x. costs f k (m x)) \<Longrightarrow> (\<And>x. costs f l (n x)) \<Longrightarrow> costs f (max k l) (case s of Inl x \<Rightarrow> m x | Inr x \<Rightarrow> n x)"
  by (cases s) (auto intro: costs_max)

lemma costs_option [cost]: "costs f k m \<Longrightarrow> (\<And>x. costs f l (n x)) \<Longrightarrow> costs f (max k l) (case s of None \<Rightarrow> m | Some x \<Rightarrow> n x)"
  by (cases s) (auto intro: costs_max)

lemma costs_prod [cost]: "(\<And>x y. costs f k (m x y)) \<Longrightarrow> costs f k (case s of (x, y) \<Rightarrow> m x y)"
  by (cases s) simp

lemma costs_bool [cost]: "costs f k m \<Longrightarrow> costs f l n \<Longrightarrow> costs f (max k l) (case c of True \<Rightarrow> m | False \<Rightarrow> n)"
  by (cases c) (auto intro: costs_max)

lemma costs_search [cost]:
  "costs f k m \<Longrightarrow> costs f l n \<Longrightarrow> (\<And>x. costs f j (q x)) \<Longrightarrow>
     costs f (max k (max l j)) (case s of IndexDisabled \<Rightarrow> m | SearchError \<Rightarrow> n | SearchFound x \<Rightarrow> q x)"
  by (cases s) (auto intro: costs_max)

lemma costs_receipt [cost]:
  "costs f k m \<Longrightarrow> costs f l n \<Longrightarrow> costs f i p \<Longrightarrow> (\<And>x. costs f j (q x)) \<Longrightarrow>
     costs f (max (max k l) (max i j)) (case s of ReceiptNotFound \<Rightarrow> m | ReceiptError \<Rightarrow> n | ReceiptNil \<Rightarrow> p | ReceiptIs x \<Rightarrow> q x)"
  by (cases s) (auto intro: costs_max)

lemma costs_kind [cost]:
  "costs f k1 m1 \<Longrightarrow> costs f k2 m2 \<Longrightarrow> costs f k3 m3 \<Longrightarrow> costs f k4 m4 \<Longrightarrow> costs f k5 m5 \<Longrightarrow> costs f k6 m6 \<Longrightarrow>
     costs f (max (max k1 (max k2 k3)) (max k4 (max k5 k6))) (case s of TerminalSuccessConsume \<Rightarrow> m1 | TerminalSuccessKeep \<Rightarrow> m2
       | TerminalFailed \<Rightarrow> m3 | TerminalNotAdmittedNonceLow \<Rightarrow> m4 | TerminalNotAdmittedNonceHigh \<Rightarrow> m5 | TerminalNotAdmittedRejected \<Rightarrow> m6)"
  by (cases s) (auto intro: costs_max)

lemma costs_sendOutcome [cost]:
  "costs f k1 m1 \<Longrightarrow> costs f k2 m2 \<Longrightarrow> costs f k3 m3 \<Longrightarrow> costs f k4 m4 \<Longrightarrow>
     costs f (max (max k1 k2) (max k3 k4)) (case s of EvmSendAccepted \<Rightarrow> m1 | EvmSendAmbiguous \<Rightarrow> m2 | EvmSendNonceRejected \<Rightarrow> m3
       | EvmSendRejected \<Rightarrow> m4)"
  by (cases s) (auto intro: costs_max)

lemma costs_rowState [cost]:
  "costs f k1 m1 \<Longrightarrow> costs f k2 m2 \<Longrightarrow> costs f k3 m3 \<Longrightarrow> costs f k4 m4 \<Longrightarrow> (\<And>x. costs f k5 (q x)) \<Longrightarrow>
     costs f (max (max k1 k2) (max k3 (max k4 k5))) (case s of RowPending \<Rightarrow> m1 | OutcomeSucceeded \<Rightarrow> m2 | OutcomeExecutedElsewhere \<Rightarrow> m3
       | OutcomeBlockedUnknown \<Rightarrow> m4 | RowOtherState x \<Rightarrow> q x)"
  by (cases s) (auto intro: costs_max)

text \<open>A property of every result, for the lists whose length bounds a loop.\<close>

definition returns :: "('a \<Rightarrow> bool) \<Rightarrow> ('tx, 'a) evm \<Rightarrow> bool" where
  "returns P m \<longleftrightarrow> (\<forall>w. P (fst (run_state m w)))"

lemma returns_ret: "P a \<Longrightarrow> returns P (ret a)"
  by (simp add: returns_def State_Monad.return_def)

lemma returns_bind: "(\<And>x. returns P (g x)) \<Longrightarrow> returns P (State_Monad.bind m g)"
  by (simp add: returns_def State_Monad.bind_def split: prod.split)

lemma costs_bind_returns:
  "costs f k m \<Longrightarrow> returns P m \<Longrightarrow> (\<And>x. P x \<Longrightarrow> costs f l (g x)) \<Longrightarrow> costs f (k + l) (State_Monad.bind m g)"
  by (rule costs_bind_post [where P = P]) (simp_all add: returns_def)

lemma returns_ListSignedTxAtNonce:
  "returns (\<lambda>r. case r of Inl _ \<Rightarrow> True | Inr rows \<Rightarrow> length rows \<le> n) (db_read E (ListSignedTxAtNonce c from nonce i n))"
  unfolding db_read_def by (intro returns_bind returns_ret) (simp add: ListSignedTxAtNonce_def)

lemma returns_settleByReceipts:
  "length others + length rows \<le> n \<Longrightarrow>
     returns (\<lambda>r. case r of Inl _ \<Rightarrow> True | Inr (others', _) \<Rightarrow> length others' \<le> n) (settleByReceipts C E fence out base height rows others e)"
proof (induction rows arbitrary: others e)
  case (Cons row rows)
  then have "length others + length rows \<le> n" "length (others @ [row]) + length rows \<le> n" by simp_all
  note IH = this [THEN Cons.IH]
  show ?case
    unfolding settleByReceipts.simps
    by (auto split: sum.split bool.split intro!: returns_bind returns_ret IH)
qed (simp add: returns_ret)

section \<open>Meters\<close>

locale meter =
  fixes f :: "'tx evmWorld \<Rightarrow> nat" and a b :: nat and s :: SignType
  assumes counts_call: "f (w\<lparr>w_tick := w_tick w + 1, w_db := db\<rparr>) \<le> f w + a"
    and counts_send: "f (w\<lparr>w_sent := w_sent w @ [tx]\<rparr>) \<le> f w + b"
    and frame: "w_tick w' = w_tick w \<Longrightarrow> w_sent w' = w_sent w \<Longrightarrow> (w_nonce w')(s := 0) = (w_nonce w)(s := 0) \<Longrightarrow> f w' = f w"
begin

lemma frame_simps [simp]: "f (w\<lparr>w_db := db\<rparr>) = f w" "f (w\<lparr>w_outcomeChecked := g\<rparr>) = f w"
  by (rule frame; simp)+

lemma costs_call: "costs f a (call E)"
  using counts_call by (simp add: costs_def call_def)

lemma costs_ask [cost]: "costs f a (ask E g)"
  unfolding ask_def by (rule costs_le, (rule costs_call cost)+) simp

lemma costs_read [cost]: "costs f a (db_read E g)"
  unfolding db_read_def by (rule costs_le, (rule costs_call cost)+) simp

lemma costs_write [cost]: "costs f a (db_write E g)"
proof -
  have "costs f 0 (State (\<lambda>w. case g (env_dbCall E n) (w_db w) of (r, db) \<Rightarrow> (r, w\<lparr>w_db := db\<rparr>)))" for n
    by (auto simp: costs_def split: prod.split)
  then show ?thesis unfolding db_write_def by (intro costs_le [OF costs_bind [OF costs_call]]) (assumption, simp)
qed

lemma costs_send [cost]: "costs f (a + b) (sendEvmTx E tx)"
  unfolding sendEvmTx_def by (rule costs_bind [OF costs_call]) (simp add: costs_def counts_send)

lemma costs_upd:
  assumes "\<And>w. w_tick (g w) = w_tick w" "\<And>w. w_sent (g w) = w_sent w" "\<And>w. (w_nonce (g w))(s := 0) = (w_nonce w)(s := 0)"
  shows "costs f 0 (upd g)"
proof -
  have "f (g w) = f w" for w by (rule frame) (rule assms)+
  then show ?thesis by (simp add: costs_def upd_def)
qed

lemma costs_updMemory [cost]: "costs f 0 (updMemory s' g)"
  unfolding updMemory_def by (rule costs_upd) simp_all

lemma costs_small [cost]:
  "costs f 0 (setLastSeen s' i)" "costs f 0 (clearLastSeen s' i)" "costs f 0 (stashTerminal fence s' p t)" "costs f 0 (forgetObservation s')"
  "costs f 0 (setNonceCache s n)" "costs f 0 (upd (\<lambda>w. w\<lparr>w_audited := g w\<rparr>))" "costs f 0 (upd (\<lambda>w. w\<lparr>w_outcomeChecked := h w\<rparr>))"
  unfolding setLastSeen_def clearLastSeen_def stashTerminal_def forgetObservation_def setNonceCache_def
  by (intro costs_updMemory costs_upd; simp)+

lemma costs_due [cost]: "costs f 0 (outcomeCheckDue i now)"
  by (auto simp: costs_def outcomeCheckDue_def split: option.split)

lemma costs_observe [cost]: "costs f 0 (observe s' h reason height)"
  unfolding observe_def by (rule costs_le, (rule cost)+) simp

lemma costs_refreshNonce [cost]: "costs f a (refreshNonceFromChain E s)"
  unfolding refreshNonceFromChain_def by (rule costs_le, (rule cost)+) simp

lemma costs_fence [cost]: "costs f a (lease_fence C E)"
  unfolding lease_fence_def by (rule costs_le, (rule cost)+) simp

lemma costs_loadEvidence [cost]: "costs f (2 * a) (loadEvidence C E fence kind i ref ev)"
  unfolding loadEvidence_def by (rule costs_le, (rule cost)+) simp

lemma costs_sync [cost]: "costs f (2 * a) (syncEvmScopeEpoch C E fence s kp)"
  unfolding syncEvmScopeEpoch_def by (rule costs_le, (rule cost)+) simp

lemma costs_readBackResolved [cost]: "costs f (2 * a) (readBackResolved C E p t)"
  unfolding readBackResolved_def by (rule costs_le, (rule cost)+) simp

lemma costs_applyTerminal [cost]: "costs f (3 * a) (applyTerminal C E fence p t)"
  unfolding applyTerminal_def by (rule costs_le, (rule cost)+) simp

lemma costs_firstLanded: "costs f (length ks * a) (firstLanded C E p ks)"
proof (induction ks)
  case (Cons k ks)
  show ?case unfolding firstLanded.simps by (rule costs_le, (rule cost Cons.IH)+) simp
qed (simp add: costs_ret)

lemma costs_landedTerminal [cost]: "costs f (2 * a) (landedTerminal C E p k)"
  unfolding landedTerminal_def landedKinds_def by (rule costs_le [OF costs_firstLanded]) simp

lemma costs_retryTerminal [cost]: "costs f (6 * a) (retryTerminal C E fence s operation rt)"
  unfolding retryTerminal_def Let_def by (rule costs_le, (rule cost)+) simp

lemma costs_retryConsume [cost]: "costs f (2 * a) (retryConsume C E s out)"
  unfolding retryConsume_def by (rule costs_le, (rule cost)+) simp

lemma costs_retryEvmMemory [cost]: "costs f (8 * a) (retryEvmMemory C E fence s operation)"
  unfolding retryEvmMemory_def takeAwaiting_def Let_def by (rule costs_le, (rule cost)+) simp

lemma costs_checks [cost]: "costs f a (checkEvm C E)" "costs f a (checkCosmos C E)" "costs f a (receiptAtOrBelow E h height)"
  unfolding checkEvm_def checkCosmos_def receiptAtOrBelow_def by (rule costs_le, (rule cost)+, simp)+

lemma costs_applyAutoPending [cost]: "costs f (3 * a) (applyAutoPending C E fence s p res ev n)"
  unfolding applyAutoPending_def Let_def by (rule costs_le, (rule cost)+) simp

lemma costs_autoNonceUsed [cost]: "costs f (5 * a) (autoNonceUsed C E fence s p base height n)"
  unfolding autoNonceUsed_def by (rule costs_le, (rule cost)+) simp

lemma costs_autoDisposePending [cost]: "costs f (9 * a + b) (autoDisposePending C E fence s p tx)"
  unfolding autoDisposePending_def Let_def by (rule costs_le, (rule cost)+) simp

lemma costs_applyAutoOutcome [cost]: "costs f (2 * a) (applyAutoOutcome C E fence out to ev)"
  unfolding applyAutoOutcome_def Let_def by (rule costs_le, (rule cost)+) simp

lemma costs_settleByReceipts: "costs f (length rows * a + 2 * a) (settleByReceipts C E fence out base height rows others e)"
proof (induction rows arbitrary: others e)
  case (Cons row rows)
  show ?case unfolding settleByReceipts.simps by (rule costs_le, (rule cost Cons.IH)+) simp
qed (auto intro: costs_le [OF costs_ret])

lemma costs_settleByIndex: "costs f (length rows * a + 2 * a) (settleByIndex C E fence out base height rows e)"
proof (induction rows arbitrary: e)
  case (Cons row rows)
  show ?case unfolding settleByIndex.simps by (rule costs_le, (rule cost Cons.IH)+) simp
qed (auto intro: costs_le [OF costs_ret])

lemma costs_settleFromIndex:
  assumes "length others \<le> evmSupersedeWindow"
  shows "costs f (1004 * a) (settleFromIndex C E fence out base height others e)"
proof -
  have idx: "costs f (1002 * a) (settleByIndex C E fence out base height others e')" for e'
    by (rule costs_le [OF costs_settleByIndex]) (use assms in \<open>simp add: evmSupersedeWindow_def add_mult_distrib [symmetric]\<close>)
  show ?thesis unfolding settleFromIndex_def by (rule costs_le, (rule cost idx)+) simp
qed

lemma costs_settleFromOthers [cost]: "costs f (2007 * a) (settleFromOthers C E fence out base height e)"
proof -
  let ?P = "\<lambda>r :: evm_error + signedTxEvidence list. case r of Inl _ \<Rightarrow> True | Inr rows \<Rightarrow> length rows \<le> evmSupersedeWindow"
  have rcp: "costs f (1002 * a) (settleByReceipts C E fence out base height rows [] e)" if "?P (Inr rows)" for rows
    by (rule costs_le [OF costs_settleByReceipts]) (use that in \<open>simp add: evmSupersedeWindow_def add_mult_distrib [symmetric]\<close>)
  have "costs f (1002 * a + 1004 * a) (settleByReceipts C E fence out base height rows [] e \<bind>
      (\<lambda>r. case r of Inl s \<Rightarrow> ret s | Inr (others, readErr) \<Rightarrow> settleFromIndex C E fence out base height others readErr))"
    if "?P (Inr rows)" for rows
    by (rule costs_bind_returns [OF rcp [OF that] returns_settleByReceipts [where n = evmSupersedeWindow]])
       (use that in \<open>auto split: sum.splits intro: costs_settleFromIndex costs_le [OF costs_ret]\<close>)
  then have "costs f (a + (1002 * a + 1004 * a)) (settleFromOthers C E fence out base height e)"
    unfolding settleFromOthers_def
    by (intro costs_bind_returns [OF costs_read returns_ListSignedTxAtNonce])
       (auto split: sum.splits intro: costs_le [OF costs_ret])
  then show ?thesis by (rule costs_le) simp
qed

lemma costs_autoSettleOutcome [cost]: "costs f (2011 * a) (autoSettleOutcome C E fence out)"
  unfolding autoSettleOutcome_def Let_def by (rule costs_le, (rule cost)+) simp

section \<open>A request\<close>

lemma costs_consumeOutcome: "costs f k again \<Longrightarrow> costs f (3 * a + k) (consumeOutcome C E fence s out again)"
  unfolding consumeOutcome_def readBackConsumed_def by (rule costs_le, (rule cost | assumption)+) simp

lemma costs_resolvePendingRow: "costs f k again \<Longrightarrow> costs f (15 * a + 2 * b + (k - b)) (resolvePendingRow C E fence s operation again)"
  unfolding resolvePendingRow_def rebroadcastPendingEvmTx_def Let_def by (rule costs_le, (rule cost | assumption)+) simp

lemma costs_resolveEvmState: "costs f ((5 - depth) * (2022 * a + b) + b) (resolveEvmState C E fence s operation depth)"
proof (induction "5 - depth" arbitrary: depth)
  case 0
  then show ?case unfolding resolveEvmState.simps [of C E fence s operation depth]
    by (auto simp: evmResolveMaxDepth_def intro: costs_le [OF costs_ret])
next
  case (Suc n)
  let ?again = "resolveEvmState C E fence s operation (depth + 1)"
  have n: "n = 5 - (depth + 1)" using Suc.hyps(2) by simp
  have again: "costs f (n * (2022 * a + b) + b) ?again" using Suc.hyps(1) [OF n] n by simp
  have "costs f (Suc n * (2022 * a + b) + b) (resolveEvmState C E fence s operation depth)"
    unfolding resolveEvmState.simps [of C E fence s operation depth]
    by (rule costs_le, (rule cost costs_consumeOutcome costs_resolvePendingRow again)+) (simp add: algebra_simps)
  then show ?case using Suc.hyps(2) by simp
qed

lemma costs_resolvePendingEvmTx [cost]: "costs f (10113 * a + 6 * b) (resolvePendingEvmTx C E s operation)"
  unfolding resolvePendingEvmTx_def by (rule costs_le, (rule cost costs_resolveEvmState)+) (simp add: algebra_simps)

lemma costs_resend: "costs f (n * (3 * a + b)) (resend E tx n)"
proof (induction n)
  case (Suc n)
  show ?case unfolding resend.simps by (rule costs_le, (rule cost Suc.IH)+) (simp add: algebra_simps)
qed (simp add: costs_ret)

lemma costs_submitEvmTx [cost]: "costs f (18 * a + 3 * b) (submitEvmTx C E s operation tx)"
  unfolding submitEvmTx_def recordPendingEvmTx_def awaitReceipt_def finishPendingEvmTx_def markPendingEvmTxAmbiguous_def Let_def
  by (rule costs_le, (rule cost costs_resend)+) (simp add: BroadcastTxRetry_def algebra_simps)

lemma costs_signTx [cost]: "costs f (2 * a) (signTx E L gas s chain ccall nonce)"
  unfolding signTx_def CreateTxOpts_def optsSigner_def estimateGasLimit_def
  by (rule costs_le, (rule cost)+) simp

lemma costs_waitNextBlockAndGetNonce [cost]: "costs f (2 * a) (waitNextBlockAndGetNonce E L s)"
  unfolding waitNextBlockAndGetNonce_def by (rule costs_le, (rule cost)+) simp

lemma costs_submitLoop:
  assumes "\<And>nonce. costs f (2 * a) (sign nonce)"
  shows "costs f (n * (22 * a + 3 * b)) (submitLoop C E L s sign s operation n)"
proof (induction n)
  case (Suc n)
  show ?case unfolding submitLoop.simps Let_def by (rule costs_le, (rule cost assms Suc.IH)+) (simp add: algebra_simps)
qed (simp add: costs_ret)

lemma costs_evmRequest [cost]: "t = s \<Longrightarrow> costs f (10179 * a + 15 * b) (evmRequest C E L t gas t fingerprint ccall)"
  unfolding evmRequest_def evmOperation_def
  by (hypsubst, rule costs_le, (rule cost costs_submitLoop)+) (simp add: BroadcastTxRetry_def algebra_simps)

lemma costs_evmKeyRequest [cost]: "t = s \<Longrightarrow> costs f (10179 * a + 15 * b) (evmKeyRequest C E L t gas t msg ccall)"
  unfolding evmKeyRequest_def by (rule costs_le, (rule cost | assumption)+) simp

lemma costs_validateGVGDeposit [cost]: "costs f a (validateGVGDeposit E L deposit)"
  unfolding validateGVGDeposit_def by (rule costs_le, (rule cost)+) simp

lemma costs_SignModularEvm: "requestAccount req = s \<Longrightarrow> costs f (10180 * a + 15 * b) (SignModularEvm C E L req)"
  by (cases req; simp only: requestAccount.simps SignModularEvm.simps evm_requests; rule costs_le, (rule cost | assumption)+, simp)

text \<open>The Cosmos form.\<close>

lemma costs_broadcastTxWithSequenceRetry: "costs f (n * (2 * a)) (broadcastTxWithSequenceRetry E L s msg txOpt s n)"
proof (induction n)
  case (Suc n)
  show ?case unfolding broadcastTxWithSequenceRetry.simps broadcastTxOnce_def Let_def by (rule costs_le, (rule cost Suc.IH)+) simp
qed (auto intro: costs_le [OF costs_bind [OF costs_get costs_ret]])

lemma costs_cosmosRequest [cost]: "t = s \<Longrightarrow> costs f (6 * a) (cosmosRequest E L t txOpt t msg)"
  unfolding cosmosRequest_def by (hypsubst, rule costs_le, (rule cost costs_broadcastTxWithSequenceRetry)+) (simp add: BroadcastTxRetry_def)

lemma costs_cosmosKeyRequest [cost]: "t = s \<Longrightarrow> costs f (6 * a) (cosmosKeyRequest E L t txOpt t msg)"
  unfolding cosmosKeyRequest_def by (rule costs_le, (rule cost | assumption)+) simp

lemma costs_SignModularCosmos: "requestAccount req = s \<Longrightarrow> costs f (7 * a) (SignModularCosmos E L req)"
  by (cases req; simp only: requestAccount.simps SignModularCosmos.simps cosmos_requests; rule costs_le, (rule cost | assumption)+, simp)

end

text \<open>The three meters.\<close>

interpretation calls: meter w_tick 1 0 s for s
  by unfold_locales simp_all

interpretation sends: meter "\<lambda>w. length (w_sent w)" 0 1 s for s
  by unfold_locales simp_all

interpretation nonces: meter "\<lambda>w. if (w_nonce w)(s := 0) = v then 0 else 1" 0 0 s for s v
  by unfold_locales simp_all

section \<open>Properties\<close>

text \<open>C9: A request ends. Whatever the database and the nodes answer, and whatever other processes do
  meanwhile, every request of the module in EVM form makes at most 10180 calls out of the process (the check
  of a deposit, five rounds of the decision, each with at most 1000 other transactions looked up twice, and
  three submissions) and hands a transaction to a node at most 15 times; one submission hands it over at
  most \<open>BroadcastTxRetry\<close> times.\<close>

theorem request_bounded:
  "w_tick (snd (run_state (SignModularEvm C E L req) w)) \<le> w_tick w + 10180
   \<and> length (w_sent (snd (run_state (SignModularEvm C E L req) w))) \<le> length (w_sent w) + 15
   \<and> length (w_sent (snd (run_state (submitEvmTx C E scope operation tx) w))) \<le> length (w_sent w) + BroadcastTxRetry"
  using calls.costs_SignModularEvm [OF refl, of C E L req] sends.costs_SignModularEvm [OF refl, of C E L req]
    sends.costs_submitEvmTx [of C E scope operation tx]
  by (simp add: costs_def BroadcastTxRetry_def)

text \<open>C17: Requests keep to their account. A request of the module, in EVM or in Cosmos form, changes at most
  the nonce cache of the account that signs it (the seal account for sealing, the gc account for
  discontinuing a bucket, the operator account otherwise), whatever happens on the way: resolution of an
  earlier transaction, a refused nonce, a lost lease, an error.\<close>

theorem request_keeps_other_nonces:
  "(w_nonce (snd (run_state (SignModularEvm C E L req) w)))(requestAccount req := 0) = (w_nonce w)(requestAccount req := 0)
   \<and> (w_nonce (snd (run_state (SignModularCosmos E L req) w)))(requestAccount req := 0) = (w_nonce w)(requestAccount req := 0)"
proof -
  let ?v = "(w_nonce w)(requestAccount req := 0)"
  note evm = nonces.costs_SignModularEvm [OF refl, where v = ?v and C = C and E = E and L = L and req = req]
    and cosmos = nonces.costs_SignModularCosmos [OF refl, where v = ?v and E = E and L = L and req = req]
  show ?thesis
    using evm [unfolded costs_def, THEN spec, of w] cosmos [unfolded costs_def, THEN spec, of w] by (simp split: if_splits)
qed

end
