(* ===== verification/Signer_Properties.thy ===== *)
theory Signer_Properties
  imports Evm_Signer
begin

text \<open>
  Properties of the requests of the signer module: which call a request signs, what a signed transaction may
  cost, which deposits pass, and what an accepted Cosmos broadcast leaves behind.
\<close>

section \<open>The call of a message\<close>










section \<open>Gas\<close>

lemma gasLimitFor_bounds:
  assumes "gasLimitFor estimate mx margin = Inr g"
  shows "mx = 0 \<or> (estimate \<le> mx \<and> g \<le> mx)"
    and "unat estimate * unat margin + unat estimate < 2 ^ 64 \<Longrightarrow> estimate \<le> g"
proof -
  show "mx = 0 \<or> (estimate \<le> mx \<and> g \<le> mx)"
    using assms by (auto simp: gasLimitFor_def Let_def word_neq_0_conv not_less split: if_splits)
  assume small: "unat estimate * unat margin + unat estimate < 2 ^ 64"
  then have "unat (estimate * margin div 100) = unat estimate * unat margin div 100"
    by (simp add: unat_div_distrib unat_word_ariths(2))
  moreover have "unat estimate * unat margin div 100 \<le> unat estimate * unat margin" by simp
  ultimately have "estimate \<le> estimate + estimate * margin div 100"
    using small by (simp add: word_le_nat_alt unat_word_ariths(1))
  then show "estimate \<le> g"
    using assms by (auto simp: gasLimitFor_def Let_def word_neq_0_conv not_less split: if_splits)
qed

lemma withGasLimit_Inr: "withGasLimit t g = Inr u \<Longrightarrow> ut_Type t = 0 \<and> u = t\<lparr>ut_Gas := g\<rparr>"
  by (cases t) (auto simp: withGasLimit_def split: if_splits)

lemma run_CreateTxOpts:
  assumes "fst (run_state (CreateTxOpts E L scope chain limit margin nonce) w) = Inr opts"
  obtains mx where "l_maxEvmGasPrice L = Some mx" "to_GasPrice opts \<le> mx" "to_Scope opts = scope" "to_Chain opts = chain"
    "to_Nonce opts = sint nonce" "to_maxGasLimit opts = limit" "to_gasMarginPercent opts = margin"
  using assms unfolding CreateTxOpts_def by (auto simp: run_calls split: if_splits option.splits)

lemma run_optsSigner:
  assumes "fst (run_state (optsSigner E L opts t) w) = Inr tx"
  obtains g estimate n where "l_EstimateGas L n (ut_Call t) = Some estimate" "ut_Type t = 0"
    "gasLimitFor estimate (to_maxGasLimit opts) (to_gasMarginPercent opts) = Inr g"
    "l_signWithKey L (to_Scope opts) (to_Chain opts) (t\<lparr>ut_Gas := g\<rparr>) = Some tx"
  using assms unfolding optsSigner_def estimateGasLimit_def
  by (auto simp: run_calls split: option.splits sum.splits dest!: withGasLimit_Inr)

text \<open>C19: What a signed transaction may cost. When a request signs, the gas price offered to the binding is at
  most the configured maximum, the nonce is the cached one, and the transaction handed to the key carries a gas
  limit computed from the node's estimate of its very call: never above the configured limit of the request
  (\<open>0\<close> for none), estimates above it being refused, and not below the estimate as long as the margin does not
  overflow 64 bits.\<close>

theorem signed_gas_bounded:
  assumes "fst (run_state (signTx E L gas scope chain ccall nonce) w) = Inr tx"
  shows "\<exists>opts t g estimate mx n. l_bind L opts ccall = Some t \<and> to_Nonce opts = sint nonce
    \<and> l_maxEvmGasPrice L = Some mx \<and> to_GasPrice opts \<le> mx
    \<and> l_EstimateGas L n (ut_Call t) = Some estimate
    \<and> (l_gasLimit L gas = 0 \<or> (estimate \<le> l_gasLimit L gas \<and> g \<le> l_gasLimit L gas))
    \<and> (unat estimate * unat (l_evmGasMarginPercent L) + unat estimate < 2 ^ 64 \<longrightarrow> estimate \<le> g)
    \<and> l_signWithKey L scope chain (t\<lparr>ut_Gas := g\<rparr>) = Some tx"
proof -
  obtain opts w1 where o: "run_state (CreateTxOpts E L scope chain (l_gasLimit L gas) (l_evmGasMarginPercent L) nonce) w = (Inr opts, w1)"
    using assms by (auto simp: signTx_def run_calls split: sum.splits prod.splits)
  then obtain t where t: "l_bind L opts ccall = Some t" "fst (run_state (optsSigner E L opts t) w1) = Inr tx"
    using assms by (auto simp: signTx_def run_calls split: option.splits)
  obtain mx where m: "l_maxEvmGasPrice L = Some mx" "to_GasPrice opts \<le> mx" "to_Scope opts = scope" "to_Chain opts = chain"
      "to_Nonce opts = sint nonce" "to_maxGasLimit opts = l_gasLimit L gas" "to_gasMarginPercent opts = l_evmGasMarginPercent L"
    using run_CreateTxOpts [of E L scope chain "l_gasLimit L gas" "l_evmGasMarginPercent L" nonce w opts] o by auto
  obtain g estimate n where g: "l_EstimateGas L n (ut_Call t) = Some estimate"
      "gasLimitFor estimate (l_gasLimit L gas) (l_evmGasMarginPercent L) = Inr g"
      "l_signWithKey L scope chain (t\<lparr>ut_Gas := g\<rparr>) = Some tx"
    using run_optsSigner [OF t(2)] m by metis
  show ?thesis using t(1) m g gasLimitFor_bounds [OF g(2)] by blast
qed

lemma ex_signTx: "fst (run_state (signTx (ex_env None) ex_lib ''Seal'' SignSeal 5151 CallSpExit 4) (newEvmState empty_db)) = Inr [1, 2, 3]"
  by (simp add: ex_request_run run_calls newEvmState_def)

theorem signed_gas_bounded_witness:
  "\<exists>opts t g. l_bind ex_lib opts CallSpExit = Some t \<and> to_Nonce opts = 4 \<and> to_GasPrice opts \<le> 10 \<and> 21000 \<le> g \<and> g \<le> 30000
     \<and> l_signWithKey ex_lib SignSeal 5151 (t\<lparr>ut_Gas := g\<rparr>) = Some [1, 2, 3]"
  using signed_gas_bounded [OF ex_signTx] by (auto simp: ex_lib_sel)

section \<open>Deposits\<close>

text \<open>C20: Deposits are checked before anything is signed. When the check of a deposit refuses, creating a group
  and topping one up, in both forms, end with that very error and leave the caches, the memory and what was
  sent as they were; when it passes, the amount is positive, in the chain's deposit denomination and, where the
  chain's parameters give one, at most the stake of a full family.\<close>

theorem deposit_checked:
  "case fst (run_state (validateGVGDeposit E L deposit) w) of
     Some e \<Rightarrow> \<exists>w'. w_sent w' = w_sent w \<and> w_nonce w' = w_nonce w \<and> w_scopes w' = w_scopes w
       \<and> run_state (SignModularEvm C E L (ReqDeposit (Some (gvg, deposit)))) w = ((None, Some e), w')
       \<and> run_state (SignModularEvm C E L (ReqCreateGlobalVirtualGroup (Some (family, sps, deposit)))) w = ((None, Some e), w')
       \<and> run_state (SignModularCosmos E L (ReqDeposit (Some (gvg, deposit)))) w = (Inl e, w')
       \<and> run_state (SignModularCosmos E L (ReqCreateGlobalVirtualGroup (Some (family, sps, deposit)))) w = (Inl e, w')
   | None \<Rightarrow> \<exists>amount params. Amount deposit = Some amount \<and> 0 < amount
       \<and> l_VirtualGroupParams L (w_tick w) = Some params \<and> Denom deposit = DepositDenom params
       \<and> (case GvgStakingPerBytes params of None \<Rightarrow> True
          | Some stake \<Rightarrow> stake \<le> 0 \<or> MaxStoreSizePerFamily params = 0 \<or> amount \<le> stake * uint (MaxStoreSizePerFamily params))"
proof (cases "fst (run_state (validateGVGDeposit E L deposit) w)")
  case None
  then show ?thesis
    by (auto simp: validateGVGDeposit_def run_calls Let_def not_le split: option.splits if_splits)
next
  case (Some e)
  obtain w' where v: "run_state (validateGVGDeposit E L deposit) w = (Some e, w')" using Some by (metis prod.collapse)
  then have "w_sent w' = w_sent w \<and> w_nonce w' = w_nonce w \<and> w_scopes w' = w_scopes w"
    by (auto simp: validateGVGDeposit_def run_calls split: option.splits if_splits)
  then show ?thesis unfolding Some by (auto simp: run_calls v)
qed

section \<open>Cosmos broadcasts\<close>

text \<open>A hash was accepted for account \<open>s\<close>: some broadcast of the account got code \<open>0\<close> and the hash, and the cache is
  one past the nonce of that broadcast.\<close>

definition accepted :: "'tx requestLib \<Rightarrow> SignType \<Rightarrow> string \<Rightarrow> 'tx evmWorld \<Rightarrow> bool" where
  "accepted L s h w \<longleftrightarrow> (\<exists>n msg mode gas nonce.
     l_BroadcastTx L n s msg mode gas nonce = BroadcastResponse 0 h \<and> w_nonce w s = nonce + 1)"

lemma run_broadcastTxOnce:
  assumes "run_state (broadcastTxOnce E L s msg txOpt nonce) w = (Inr h, w')"
  shows "\<exists>n. l_BroadcastTx L n s msg (x_ModeSync txOpt) (x_gasInfo txOpt) nonce = BroadcastResponse 0 h"
  using assms by (auto simp: broadcastTxOnce_def run_calls split: broadcastAnswer.splits if_splits)

lemma run_broadcastTxWithSequenceRetry:
  "run_state (broadcastTxWithSequenceRetry E L s msg txOpt s n) w = ((Inr h, nonce), w') \<Longrightarrow>
     \<exists>k. l_BroadcastTx L k s msg (x_ModeSync txOpt) (x_gasInfo txOpt) nonce = BroadcastResponse 0 h"
proof (induction n arbitrary: w)
  case (Suc n)
  then show ?case
    by (auto simp: run_calls Let_def dest: run_broadcastTxOnce split: prod.splits sum.splits if_splits option.splits)
qed (simp add: run_calls)

lemma run_cosmosRequest: "run_state (cosmosRequest E L s txOpt s msg) w = (Inr h, w') \<Longrightarrow> accepted L s h w'"
  by (auto simp: cosmosRequest_def run_calls setNonceCache_def accepted_def dest!: run_broadcastTxWithSequenceRetry
      split: prod.splits sum.splits) blast

lemma run_cosmosKeyRequest: "run_state (cosmosKeyRequest E L s txOpt s msg) w = (Inr h, w') \<Longrightarrow> accepted L s h w'"
  by (auto simp: cosmosKeyRequest_def run_calls dest: run_cosmosRequest split: option.splits)

text \<open>C21: An accepted Cosmos broadcast advances its account. When a request in Cosmos form answers with a hash, a
  node accepted (code \<open>0\<close>) a broadcast of the account with that hash at some nonce, and the account's cache is one
  past that nonce: a refreshed nonce after a sequence mismatch is neither lost nor counted twice.\<close>

theorem cosmos_nonce_advanced:
  assumes "run_state (SignModularCosmos E L req) w = (Inr h, w')"
  shows "accepted L (requestAccount req) h w'"
  using assms
  by (cases req) (auto simp: cosmos_requests run_calls split: option.splits prod.splits
      dest: run_cosmosKeyRequest run_cosmosRequest)

theorem cosmos_nonce_advanced_witness:
  "accepted ex_lib SignSeal ''AB'' (snd (run_state (SignModularCosmos (ex_env None) ex_lib ex_req) (newEvmState empty_db)))"
proof -
  have "fst (run_state (SignModularCosmos (ex_env None) ex_lib ex_req) (newEvmState empty_db)) = Inr ''AB''"
    by (simp add: ex_req_def cosmos_requests cosmosKeyRequest_def cosmosRequest_def BroadcastTxRetry_def numeral_3_eq_3 broadcastTxOnce_def
        run_calls ex_lib_def setNonceCache_def newEvmState_def)
  then show ?thesis
    using cosmos_nonce_advanced [of "ex_env None" ex_lib ex_req "newEvmState empty_db" "''AB''"] by (simp add: ex_req_def prod_eq_iff)
qed

end
