(* ===== verification/Evm_Disposition.thy ===== *)
theory Evm_Disposition
  imports Evm_Requests
begin

text \<open>
  Manual disposition, \<open>modular/signer/evm_disposition.go\<close>: the command line tool that resolves a pending row or
  settles an outcome from what the chain proves, or, for \<open>release\<close> and \<open>dispose-outcome\<close>, on an operator's
  decision. It is a process of its own, connects to the database directly and holds no lease.

  The disposer's report and caches are passed explicitly (\<open>evmDisposer\<close>). Texts (notes, error and action
  texts, actor) are left out; what was or would be done is the value \<open>disposeAction\<close>. The answers of the nodes
  that the signer itself does not ask for are the fields of \<open>disposeChain\<close>.
\<close>

section \<open>Data\<close>

definition EvmDisposeExitOK :: nat where "EvmDisposeExitOK = 0"
definition EvmDisposeExitError :: nat where "EvmDisposeExitError = 1"
definition EvmDisposeExitNotProven :: nat where "EvmDisposeExitNotProven = 2"
definition EvmDisposeExitPrecondition :: nat where "EvmDisposeExitPrecondition = 3"
definition EvmDisposeExitEvidenceInvalid :: nat where "EvmDisposeExitEvidenceInvalid = 4"

definition EvmDisposeResolve :: string where "EvmDisposeResolve = ''resolve''"
definition EvmDisposeResolveOutcome :: string where "EvmDisposeResolveOutcome = ''resolve-outcome''"
definition EvmDisposeRelease :: string where "EvmDisposeRelease = ''release''"
definition EvmDisposeDisposeOutcome :: string where "EvmDisposeDisposeOutcome = ''dispose-outcome''"

definition EvmDisposeMaxScanBlocks :: u64 where "EvmDisposeMaxScanBlocks = 10000"

definition evmReasonOtherTxUnverified :: string where "evmReasonOtherTxUnverified = ''other_tx_unverified''"

datatype evmBranch =
    BranchNone
  | BranchOriginalSucceeded
  | BranchOriginalFailed
  | BranchNonceUnused
  | BranchNonceNotReached
  | BranchOtherTxFailed
  | BranchOwnOtherOp
  | BranchPlainTransfer
  | BranchSameCall
  | BranchCosmosSameOp
  | BranchUndetermined
  | BranchOccupierMissing
  | BranchNonceGap
  | BranchGapUnproven
  | BranchGapNotProbed

record EvmBlockTx =
  bt_Hash :: hash
  bt_From :: address
  bt_Nonce :: u64

record disposeTxView = CosmosTxView +
  v_AccSeqs :: "string list"
  v_Msgs :: "sdkMsg list"
  v_Decodes :: bool

record EvmDisposeRequest =
  rq_Command :: string
  rq_ChainID :: string
  rq_Scope :: string
  rq_TxHash :: hash
  rq_OutcomeID :: nat
  rq_Operator :: string
  rq_Reason :: string
  rq_BusinessEvidence :: string
  rq_DecisionRef :: string
  rq_EvidenceTx :: hash
  rq_EvidenceCosmosTx :: string
  rq_ScanBlocks :: u64
  rq_AcceptUnknown :: bool
  rq_AcceptGap :: bool
  rq_DryRun :: bool
  rq_BlockWait :: int
  rq_Poll :: int

record 'tx EvmDisposeOccupier =
  oc_Kind :: string
  oc_Hash :: string
  oc_Block :: u64
  oc_Succeeded :: bool
  oc_Operation :: "hash option"
  oc_tx :: "'tx option"
  oc_cosmos :: "disposeTxView option"

record 'tx EvmDisposeSample =
  sm_Height :: u64
  sm_ChainNonce :: u64
  sm_PendingNonce :: "u64 option"
  sm_Branch :: evmBranch
  sm_ReceiptBlock :: u64
  sm_Occupier :: "'tx EvmDisposeOccupier option"

definition newSample :: "u64 \<Rightarrow> 'tx EvmDisposeSample" where
  "newSample height = \<lparr>sm_Height = height, sm_ChainNonce = 0, sm_PendingNonce = None, sm_Branch = BranchNone, sm_ReceiptBlock = 0,
     sm_Occupier = None\<rparr>"

text \<open>What two samples must agree on. The code compares the text \<open>branch|occupier\<close>; no branch name has a bar,
  so this is the pair.\<close>

definition sample_key :: "'tx EvmDisposeSample \<Rightarrow> evmBranch \<times> string" where
  "sample_key s = (sm_Branch s,
     if sm_Branch s \<in> {BranchNonceGap, BranchGapUnproven, BranchGapNotProbed} then ''nonce '' @ decimal (unat (sm_ChainNonce s))
     else (case sm_Occupier s of None \<Rightarrow> [] | Some oc \<Rightarrow> oc_Kind oc @ '':'' @ oc_Hash oc))"

datatype disposeAction =
    ActionUnset
  | ActionNone
  | TurnIntoOutcome nat evmRowState string hash
  | DeletePending nat
  | UpdateOutcome nat evmRowState hash
  | DeleteOutcome nat

record 'tx EvmDisposeReport =
  rp_Scope :: string
  rp_OutcomeID :: nat
  rp_State :: "evmRowState option"
  rp_Reason :: string
  rp_From :: "address option"
  rp_Nonce :: u64
  rp_TxHash :: "hash option"
  rp_Operation :: "hash option"
  rp_Samples :: "'tx EvmDisposeSample list"
  rp_Branch :: evmBranch
  rp_Action :: disposeAction
  rp_Applied :: bool
  rp_Event :: "evmAuditName option"
  rp_ExitCode :: nat

record 'tx evmDisposer =
  d_report :: "'tx EvmDisposeReport"
  d_cosmosChecked :: bool
  d_blocks :: "u64 \<Rightarrow> EvmBlockTx list option"

datatype 'a lookupAnswer = LookupNotFound | LookupError | LookupFound 'a
datatype blockAnswer = BlockUnavailable | BlockError | BlockIs "EvmBlockTx list"
datatype viewAnswer = ViewsDisabled | ViewsError | ViewsFound "disposeTxView list"

text \<open>What else the tool asks the nodes (a lookup of one Cosmos transaction finds at most one), and what it
  uses of go-ethereum: the parts of a transaction and the texts of addresses and hashes.\<close>

record 'tx disposeChain =
  dj_txByHash :: "nat \<Rightarrow> hash \<Rightarrow> 'tx lookupAnswer"
  dj_codeAt :: "nat \<Rightarrow> address \<Rightarrow> u64 \<Rightarrow> bytes option"
  dj_blockTransactions :: "nat \<Rightarrow> u64 \<Rightarrow> blockAnswer"
  dj_hasCosmos :: bool
  dj_cosmosTx :: "nat \<Rightarrow> string \<Rightarrow> viewAnswer"
  dj_searchAccSeq :: "nat \<Rightarrow> string \<Rightarrow> u64 \<Rightarrow> viewAnswer"
  dj_txTo :: "'tx \<Rightarrow> address option"
  dj_txValue :: "'tx \<Rightarrow> int"
  dj_txData :: "'tx \<Rightarrow> bytes"
  dj_addressHex :: "address \<Rightarrow> string"
  dj_HexToHash :: "string \<Rightarrow> hash"

section \<open>Strings\<close>

text \<open>\<open>strings.TrimSpace(s) == ""\<close>, \<open>strings.EqualFold\<close>, \<open>strings.ToUpper\<close> and \<open>strings.TrimPrefix\<close>, on ASCII.\<close>

definition isBlank :: "string \<Rightarrow> bool" where
  "isBlank s = list_all (\<lambda>c. (of_char c :: nat) \<in> {9, 10, 11, 12, 13, 32}) s"

definition upperChar :: "char \<Rightarrow> char" where
  "upperChar c = (if 97 \<le> (of_char c :: nat) \<and> (of_char c :: nat) \<le> 122 then char_of ((of_char c :: nat) - 32) else c)"

definition strings_ToUpper :: "string \<Rightarrow> string" where
  "strings_ToUpper s = map upperChar s"

definition strings_EqualFold :: "string \<Rightarrow> string \<Rightarrow> bool" where
  "strings_EqualFold s t \<longleftrightarrow> strings_ToUpper s = strings_ToUpper t"

definition strings_TrimPrefix :: "string \<Rightarrow> string \<Rightarrow> string" where
  "strings_TrimPrefix s p = (if prefix p s then drop (length p) s else s)"

section \<open>The request\<close>

definition isEvmScope :: "string \<Rightarrow> bool" where
  "isEvmScope scope \<longleftrightarrow> scope = SignOperator \<or> scope = SignSeal \<or> scope = SignGc"

text \<open>Whether \<open>checkEvmDisposeRequest\<close> returns no error.\<close>

definition checkEvmDisposeRequest :: "EvmDisposeRequest \<Rightarrow> bool" where
  "checkEvmDisposeRequest req \<longleftrightarrow>
     \<not> (isBlank (rq_Operator req) \<or> isBlank (rq_Reason req))
   \<and> (if rq_Command req = EvmDisposeResolve then isEvmScope (rq_Scope req) \<and> rq_TxHash req \<noteq> 0
      else if rq_Command req \<in> {EvmDisposeResolveOutcome, EvmDisposeRelease, EvmDisposeDisposeOutcome}
      then rq_OutcomeID req \<noteq> 0 \<and> \<not> (rq_AcceptUnknown req \<or> rq_AcceptGap req)
      else False)
   \<and> (rq_Command req = EvmDisposeRelease \<longrightarrow> \<not> (isBlank (rq_DecisionRef req) \<or> isBlank (rq_BusinessEvidence req)))
   \<and> (rq_Command req = EvmDisposeRelease \<or> rq_Command req = EvmDisposeDisposeOutcome \<longrightarrow>
        \<not> (rq_EvidenceTx req \<noteq> 0 \<or> rq_EvidenceCosmosTx req \<noteq> [] \<or> rq_ScanBlocks req \<noteq> 0))
   \<and> \<not> rq_ScanBlocks req > EvmDisposeMaxScanBlocks"

section \<open>Ending a command\<close>

definition lastSample :: "'tx evmDisposer \<Rightarrow> 'tx EvmDisposeSample option" where
  "lastSample d = (if rp_Samples (d_report d) = [] then None else Some (last (rp_Samples (d_report d))))"

definition manualEvent :: "'tx evmDisposer \<Rightarrow> evmAuditEvent \<Rightarrow> evmAuditName \<Rightarrow> evmAuditEvent" where
  "manualEvent d base event =
     (case lastSample d of None \<Rightarrow> base\<lparr>a_Event := event\<rparr>
      | Some s \<Rightarrow> base\<lparr>a_Event := event, a_ChainNonce := Some (sm_ChainNonce s), a_ChainHeight := Some (sm_Height s)\<rparr>)"

definition updReport :: "('tx EvmDisposeReport \<Rightarrow> 'tx EvmDisposeReport) \<Rightarrow> 'tx evmDisposer \<Rightarrow> 'tx evmDisposer" where
  "updReport f d = d\<lparr>d_report := f (d_report d)\<rparr>"

definition d_fail :: "nat \<Rightarrow> 'tx evmDisposer \<Rightarrow> 'tx evmDisposer" where
  "d_fail code d = updReport (\<lambda>r. r\<lparr>rp_ExitCode := code\<rparr>) d"

definition d_reject :: "'tx evmEnv \<Rightarrow> EvmDisposeRequest \<Rightarrow> evmAuditEvent \<Rightarrow> nat \<Rightarrow> 'tx evmDisposer \<Rightarrow> ('tx, 'tx evmDisposer) evm" where
  "d_reject E req base code d = do {
     let d = updReport (\<lambda>r. r\<lparr>rp_Action := ActionNone\<rparr>) (d_fail code d);
     if rq_DryRun req then ret d
     else do {
       a \<leftarrow> db_write E (\<lambda>X. AppendAudit X None (rq_ChainID req) (manualEvent d base AuditManualRejected));
       ret (case a of Inl _ \<Rightarrow> d | Inr _ \<Rightarrow> updReport (\<lambda>r. r\<lparr>rp_Event := Some AuditManualRejected\<rparr>) d) } }"

definition checkEvidence :: "'tx signClient \<Rightarrow> 'tx evmEnv \<Rightarrow> EvmDisposeRequest \<Rightarrow> evidenceRef \<Rightarrow> evmAuditEvent \<Rightarrow> 'tx evmDisposer
    \<Rightarrow> ('tx, (signedTxEvidence \<times> 'tx) option \<times> 'tx evmDisposer) evm" where
  "checkEvidence C E req ref base d = do {
     r \<leftarrow> db_read E (GetSignedTx (r_SignedTxID ref));
     case r of
       Inl _ \<Rightarrow> ret (None, d_fail EvmDisposeExitError d)
     | Inr evidence \<Rightarrow>
       (case st_verify C evidence ref of
          Inr tx \<Rightarrow> ret (Some (the evidence, tx), d)
        | Inl _ \<Rightarrow> do {
            let d = d_fail EvmDisposeExitEvidenceInvalid d;
            if rq_DryRun req then ret (None, d)
            else do {
              a \<leftarrow> db_write E (\<lambda>X. AppendAudit X None (rq_ChainID req) (manualEvent d base AuditEvidenceInvalid));
              ret (None, case a of Inl _ \<Rightarrow> d | Inr _ \<Rightarrow> updReport (\<lambda>r. r\<lparr>rp_Event := Some AuditEvidenceInvalid\<rparr>) d) } }) }"

definition d_describe :: "signedTxEvidence \<Rightarrow> 'tx evmDisposer \<Rightarrow> 'tx evmDisposer" where
  "d_describe ev d = updReport (\<lambda>r. r\<lparr>rp_From := Some (e_From ev), rp_Nonce := e_Nonce ev, rp_TxHash := Some (e_TxHash ev),
     rp_Operation := Some (e_Operation ev)\<rparr>) d"

definition finishWrite :: "'tx evmEnv \<Rightarrow> EvmDisposeRequest \<Rightarrow> evmAuditEvent \<Rightarrow> evmAuditName \<Rightarrow> evm_error option \<Rightarrow> 'tx evmDisposer
    \<Rightarrow> ('tx, 'tx evmDisposer) evm" where
  "finishWrite E req base event err d =
     (case err of
        None \<Rightarrow> ret (updReport (\<lambda>r. r\<lparr>rp_Applied := True, rp_Event := Some event, rp_ExitCode := EvmDisposeExitOK\<rparr>) d)
      | Some e \<Rightarrow>
          if e = ErrEvmRowGone \<or> e = ErrEvmStateConflict then d_reject E req base EvmDisposeExitPrecondition d
          else ret (d_fail EvmDisposeExitError d))"

section \<open>Who used the nonce\<close>

record 'tx evmDisposeTarget =
  tg_evidence :: signedTxEvidence
  tg_tx :: 'tx
  tg_operation :: hash
  tg_probeGap :: bool
  tg_gapIsBranch :: bool

definition disposeCheckCosmos :: "'tx evmEnv \<Rightarrow> 'tx disposeChain \<Rightarrow> signedTxEvidence \<Rightarrow> 'tx evmDisposer
    \<Rightarrow> ('tx, evm_error option \<times> 'tx evmDisposer) evm" where
  "disposeCheckCosmos E D ev d =
     (if \<not> dj_hasCosmos D then ret (None, d)
      else if d_cosmosChecked d then ret (None, d)
      else do {
        r \<leftarrow> ask E (env_network E);
        ret (case r of
            None \<Rightarrow> (Some ErrRpc, d)
          | Some network \<Rightarrow> if network \<noteq> e_ChainID ev then (Some ErrRpc, d) else (None, d\<lparr>d_cosmosChecked := True\<rparr>)) })"

definition evmOccupier :: "'tx signClient \<Rightarrow> 'tx evmEnv \<Rightarrow> 'tx disposeChain \<Rightarrow> signedTxEvidence \<Rightarrow> hash \<Rightarrow> 'tx EvmDisposeSample
    \<Rightarrow> ('tx, evm_error + 'tx EvmDisposeOccupier option) evm" where
  "evmOccupier C E D ev hash sample =
     (if hash = e_TxHash ev then ret (Inr None)
      else do {
        t \<leftarrow> ask E (\<lambda>n. dj_txByHash D n hash);
        case t of
          LookupNotFound \<Rightarrow> ret (Inr None)
        | LookupError \<Rightarrow> ret (Inl ErrRpc)
        | LookupFound tx \<Rightarrow>
            if tx_Sender (c_eth C) (uint (e_EvmChainID ev)) tx \<noteq> Some (e_From ev) \<or> tx_Nonce (c_eth C) tx \<noteq> e_Nonce ev
               \<or> tx_Hash (c_eth C) tx \<noteq> hash
            then ret (Inr None)
            else do {
              rc \<leftarrow> ask E (\<lambda>n. env_receipt E n hash);
              ret (case rc of
                  ReceiptNotFound \<Rightarrow> Inr None
                | ReceiptNil \<Rightarrow> Inr None
                | ReceiptError \<Rightarrow> Inl ErrRpc
                | ReceiptIs receipt \<Rightarrow>
                    (case rc_BlockNumber receipt of
                       None \<Rightarrow> Inr None
                     | Some block \<Rightarrow>
                         if block > sm_Height sample then Inr None
                         else Inr (Some \<lparr>oc_Kind = evmEvidenceKindEVM, oc_Hash = hash_Hex hash, oc_Block = block,
                                oc_Succeeded = (rc_Status receipt = ReceiptStatusSuccessful), oc_Operation = None, oc_tx = Some tx,
                                oc_cosmos = None\<rparr>))) } })"

definition accSeqOf :: "'tx disposeChain \<Rightarrow> signedTxEvidence \<Rightarrow> string" where
  "accSeqOf D ev = dj_addressHex D (e_From ev) @ ''/'' @ decimal (unat (e_Nonce ev))"

definition cosmosOccupier :: "'tx disposeChain \<Rightarrow> signedTxEvidence \<Rightarrow> disposeTxView \<Rightarrow> 'tx EvmDisposeSample
    \<Rightarrow> 'tx EvmDisposeOccupier option" where
  "cosmosOccupier D ev view sample =
     (if \<not> list_ex (\<lambda>accSeq. strings_EqualFold accSeq (accSeqOf D ev)) (v_AccSeqs view) then None
      else if v_Height view = 0 \<or> v_Height view > sm_Height sample then None
      else Some \<lparr>oc_Kind = evmEvidenceKindCosmos, oc_Hash = strings_ToUpper (strings_TrimPrefix (v_Hash view) ''0x''),
             oc_Block = v_Height view, oc_Succeeded = (v_Code view = 0), oc_Operation = None, oc_tx = None, oc_cosmos = Some view\<rparr>)"

primrec firstCosmosOccupier :: "'tx disposeChain \<Rightarrow> signedTxEvidence \<Rightarrow> 'tx EvmDisposeSample \<Rightarrow> disposeTxView list
    \<Rightarrow> 'tx EvmDisposeOccupier option" where
  "firstCosmosOccupier D ev sample [] = None"
| "firstCosmosOccupier D ev sample (view # views) =
     (case cosmosOccupier D ev view sample of Some oc \<Rightarrow> Some oc | None \<Rightarrow> firstCosmosOccupier D ev sample views)"

primrec scanBlock :: "'tx signClient \<Rightarrow> 'tx evmEnv \<Rightarrow> 'tx disposeChain \<Rightarrow> signedTxEvidence \<Rightarrow> 'tx EvmDisposeSample \<Rightarrow> EvmBlockTx list
    \<Rightarrow> ('tx, evm_error + 'tx EvmDisposeOccupier option) evm" where
  "scanBlock C E D ev sample [] = ret (Inr None)"
| "scanBlock C E D ev sample (tx # txs) =
     (if bt_From tx \<noteq> e_From ev \<or> bt_Nonce tx \<noteq> e_Nonce ev \<or> bt_Hash tx = e_TxHash ev then scanBlock C E D ev sample txs
      else do {
        r \<leftarrow> evmOccupier C E D ev (bt_Hash tx) sample;
        case r of Inr None \<Rightarrow> scanBlock C E D ev sample txs | _ \<Rightarrow> ret r })"

primrec scanBlocks :: "'tx signClient \<Rightarrow> 'tx evmEnv \<Rightarrow> 'tx disposeChain \<Rightarrow> signedTxEvidence \<Rightarrow> 'tx EvmDisposeSample \<Rightarrow> u64 list
    \<Rightarrow> 'tx evmDisposer \<Rightarrow> ('tx, (evm_error + 'tx EvmDisposeOccupier option) \<times> 'tx evmDisposer) evm" where
  "scanBlocks C E D ev sample [] d = ret (Inr None, d)"
| "scanBlocks C E D ev sample (height # heights) d = do {
     b \<leftarrow> (case d_blocks d height of Some txs \<Rightarrow> ret (BlockIs txs) | None \<Rightarrow> ask E (\<lambda>n. dj_blockTransactions D n height));
     case b of
       BlockUnavailable \<Rightarrow> scanBlocks C E D ev sample heights d
     | BlockError \<Rightarrow> ret (Inl ErrRpc, d)
     | BlockIs txs \<Rightarrow> do {
         let d = d\<lparr>d_blocks := (d_blocks d)(height := Some txs)\<rparr>;
         r \<leftarrow> scanBlock C E D ev sample txs;
         case r of Inr None \<Rightarrow> scanBlocks C E D ev sample heights d | _ \<Rightarrow> ret (r, d) } }"

text \<open>The heights of the scan, in machine arithmetic. (A chain whose height is the largest uint64 aside, where
  the loop's counter would wrap.)\<close>

definition scanHeights :: "EvmDisposeRequest \<Rightarrow> signedTxEvidence \<Rightarrow> 'tx EvmDisposeSample \<Rightarrow> u64 list" where
  "scanHeights req ev sample =
     (let start = e_RecordedBlock ev;
          stop = start + rq_ScanBlocks req - 1;
          stop = (if stop > sm_Height sample then sm_Height sample else stop)
      in map of_nat [unat start ..< Suc (unat stop)])"

definition givenCosmosTx :: "'tx evmEnv \<Rightarrow> 'tx disposeChain \<Rightarrow> EvmDisposeRequest \<Rightarrow> signedTxEvidence \<Rightarrow> 'tx EvmDisposeSample
    \<Rightarrow> 'tx evmDisposer \<Rightarrow> ('tx, (evm_error + 'tx EvmDisposeOccupier option) \<times> 'tx evmDisposer) evm" where
  "givenCosmosTx E D req ev sample d =
     (if rq_EvidenceCosmosTx req = [] then ret (Inr None, d)
      else if \<not> dj_hasCosmos D then ret (Inl ErrRpc, d)
      else do {
        c \<leftarrow> disposeCheckCosmos E D ev d;
        case c of
          (Some e, d) \<Rightarrow> ret (Inl e, d)
        | (None, d) \<Rightarrow> do {
            v \<leftarrow> ask E (\<lambda>n. dj_cosmosTx D n (rq_EvidenceCosmosTx req));
            ret (case v of
                ViewsDisabled \<Rightarrow> Inr None
              | ViewsError \<Rightarrow> Inl ErrRpc
              | ViewsFound views \<Rightarrow> Inr (firstCosmosOccupier D ev sample (take 1 views)), d) } })"

definition searchCosmos :: "'tx evmEnv \<Rightarrow> 'tx disposeChain \<Rightarrow> signedTxEvidence \<Rightarrow> 'tx EvmDisposeSample
    \<Rightarrow> 'tx evmDisposer \<Rightarrow> ('tx, (evm_error + 'tx EvmDisposeOccupier option) \<times> 'tx evmDisposer) evm" where
  "searchCosmos E D ev sample d = do {
     c \<leftarrow> disposeCheckCosmos E D ev d;
     case c of
       (Some e, d) \<Rightarrow> ret (Inl e, d)
     | (None, d) \<Rightarrow>
         if \<not> dj_hasCosmos D then ret (Inr None, d)
         else do {
           v \<leftarrow> ask E (\<lambda>n. dj_searchAccSeq D n (accSeqOf D ev) (sm_Height sample));
           ret (case v of
               ViewsDisabled \<Rightarrow> Inr None
             | ViewsError \<Rightarrow> Inl ErrRpc
             | ViewsFound views \<Rightarrow> Inr (firstCosmosOccupier D ev sample views), d) } }"

definition findOccupier :: "'tx signClient \<Rightarrow> 'tx evmEnv \<Rightarrow> 'tx disposeChain \<Rightarrow> EvmDisposeRequest \<Rightarrow> signedTxEvidence
    \<Rightarrow> 'tx EvmDisposeSample \<Rightarrow> 'tx evmDisposer \<Rightarrow> ('tx, (evm_error + 'tx EvmDisposeOccupier option) \<times> 'tx evmDisposer) evm" where
  "findOccupier C E D req ev sample d = do {
     g \<leftarrow> (if rq_EvidenceTx req \<noteq> 0 then evmOccupier C E D ev (rq_EvidenceTx req) sample else ret (Inr None));
     if g \<noteq> Inr None then ret (g, d)
     else do {
       c \<leftarrow> givenCosmosTx E D req ev sample d;
       case c of (c, d) \<Rightarrow>
       if c \<noteq> Inr None then ret (c, d)
       else if rq_ScanBlocks req = 0 then ret (Inr None, d)
       else do {
         s \<leftarrow> scanBlocks C E D ev sample (scanHeights req ev sample) d;
         case s of (s, d) \<Rightarrow>
         if s \<noteq> Inr None then ret (s, d)
         else searchCosmos E D ev sample d } } }"

section \<open>What the nonce's user means for the operation\<close>

definition isPossiblePrecompile :: "address \<Rightarrow> bool" where
  "isPossiblePrecompile a \<longleftrightarrow> drop_bit 16 a = 0"

definition evmOperationOf :: "'tx signClient \<Rightarrow> 'tx requestLib \<Rightarrow> sdkMsg \<Rightarrow> hash option" where
  "evmOperationOf C L msg = (case msg of
     MsgCompleteStorageProviderExit provider operator \<Rightarrow> completeSPExitEvmFingerprint C L operator
   | _ \<Rightarrow> evmOperationFingerprint C L msg)"

definition sameCall :: "'tx disposeChain \<Rightarrow> 'tx \<Rightarrow> 'tx \<Rightarrow> bool" where
  "sameCall D tx original \<longleftrightarrow> dj_txTo D tx \<noteq> None \<and> dj_txTo D original \<noteq> None \<and> dj_txTo D tx = dj_txTo D original
     \<and> dj_txValue D tx = dj_txValue D original \<and> dj_txData D tx = dj_txData D original"

text \<open>The loop over the two heights at which the recipient must have no code.\<close>

primrec codeFree :: "'tx evmEnv \<Rightarrow> 'tx disposeChain \<Rightarrow> address \<Rightarrow> u64 list \<Rightarrow> ('tx, bool) evm" where
  "codeFree E D a [] = ret True"
| "codeFree E D a (at # ats) = do {
     code \<leftarrow> ask E (\<lambda>n. dj_codeAt D n a at);
     if code = Some [] then codeFree E D a ats else ret False }"

definition classifyUnknownTx :: "'tx evmEnv \<Rightarrow> 'tx disposeChain \<Rightarrow> 'tx evmDisposeTarget \<Rightarrow> 'tx EvmDisposeSample \<Rightarrow> 'tx EvmDisposeOccupier
    \<Rightarrow> 'tx \<Rightarrow> ('tx, 'tx EvmDisposeSample) evm" where
  "classifyUnknownTx E D target sample oc tx =
     (if sameCall D tx (tg_tx target) then ret (sample\<lparr>sm_Branch := BranchSameCall\<rparr>)
      else (case dj_txTo D tx of
          None \<Rightarrow> ret (sample\<lparr>sm_Branch := BranchUndetermined\<rparr>)
        | Some recipient \<Rightarrow>
            if dj_txData D tx \<noteq> [] \<or> isPossiblePrecompile recipient then ret (sample\<lparr>sm_Branch := BranchUndetermined\<rparr>)
            else if oc_Block oc = 0 then ret (sample\<lparr>sm_Branch := BranchUndetermined\<rparr>)
            else do {
              free \<leftarrow> codeFree E D recipient [oc_Block oc - 1, oc_Block oc];
              ret (sample\<lparr>sm_Branch := (if free then BranchPlainTransfer else BranchUndetermined)\<rparr>) }))"

definition classify :: "'tx signClient \<Rightarrow> 'tx evmEnv \<Rightarrow> 'tx requestLib \<Rightarrow> 'tx disposeChain \<Rightarrow> 'tx evmDisposeTarget
    \<Rightarrow> 'tx EvmDisposeSample \<Rightarrow> 'tx EvmDisposeOccupier \<Rightarrow> ('tx, evm_error option \<times> 'tx EvmDisposeSample) evm" where
  "classify C E L D target sample oc =
     (if \<not> oc_Succeeded oc then
        ret (None, sample\<lparr>sm_Branch := (if c_failedTxRollsBack C then BranchOtherTxFailed else BranchUndetermined)\<rparr>)
      else (case oc_cosmos oc of
          Some view \<Rightarrow>
            ret (None, sample\<lparr>sm_Branch :=
              (if \<not> v_Decodes view then BranchUndetermined
               else if list_ex (\<lambda>msg. evmOperationOf C L msg = Some (tg_operation target)) (v_Msgs view) then BranchCosmosSameOp
               else BranchUndetermined)\<rparr>)
        | None \<Rightarrow> do {
            let tx = the (oc_tx oc);
            r \<leftarrow> db_read E (GetSignedTxByHash (e_ChainID (tg_evidence target)) (tx_Hash (c_eth C) tx));
            case r of
              Inl e \<Rightarrow> ret (Some e, sample)
            | Inr (Some own) \<Rightarrow>
                (case st_verify C (Some own) \<lparr>r_SignedTxID = e_ID own, r_ChainID = e_ChainID own, r_Scope = e_Scope own,
                     r_Operation = e_Operation own, r_From = e_From own, r_Nonce = e_Nonce own, r_TxHash = e_TxHash own\<rparr> of
                   Inl _ \<Rightarrow> ret (None, sample\<lparr>sm_Branch := BranchUndetermined\<rparr>)
                 | Inr _ \<Rightarrow> ret (None, sample\<lparr>sm_Occupier := Some (oc\<lparr>oc_Operation := Some (e_Operation own)\<rparr>),
                       sm_Branch := (if e_Operation own = tg_operation target then BranchSameCall else BranchOwnOtherOp)\<rparr>))
            | Inr None \<Rightarrow> do { s \<leftarrow> classifyUnknownTx E D target sample oc tx; ret (None, s) } }))"

section \<open>The assessment at one height\<close>

definition assessGap :: "'tx evmEnv \<Rightarrow> 'tx evmDisposeTarget \<Rightarrow> 'tx EvmDisposeSample \<Rightarrow> ('tx, evm_error option \<times> 'tx EvmDisposeSample) evm" where
  "assessGap E target sample = do {
     p \<leftarrow> ask E (\<lambda>n. env_pendingNonceAt E n (e_From (tg_evidence target)));
     case p of
       None \<Rightarrow> ret (Some ErrRpc, sample)
     | Some pending \<Rightarrow> do {
         let sample = sample\<lparr>sm_PendingNonce := Some pending\<rparr>;
         if \<not> tg_probeGap target then ret (None, sample\<lparr>sm_Branch := BranchGapNotProbed\<rparr>)
         else if pending \<noteq> sm_ChainNonce sample then ret (None, sample\<lparr>sm_Branch := BranchGapUnproven\<rparr>)
         else do {
           sendErr \<leftarrow> sendEvmTx E (tg_tx target);
           case sendErr of
             None \<Rightarrow> ret (None, sample\<lparr>sm_Branch := BranchGapUnproven\<rparr>)
           | Some e \<Rightarrow> do {
               ended \<leftarrow> ask E (env_ctxDone E);
               ret (None, sample\<lparr>sm_Branch :=
                 (if classifyEvmSendError ended sendErr = EvmSendNonceRejected \<and> isEvmNonceHighError (se_text e)
                  then BranchNonceGap else BranchGapUnproven)\<rparr>) } } } }"

text \<open>The original may have failed without a receipt: the Cosmos transaction that carried it.\<close>

definition originalInCosmos :: "'tx signClient \<Rightarrow> 'tx evmEnv \<Rightarrow> 'tx disposeChain \<Rightarrow> signedTxEvidence \<Rightarrow> 'tx EvmDisposeSample
    \<Rightarrow> 'tx evmDisposer \<Rightarrow> ('tx, evm_error option \<times> 'tx EvmDisposeSample \<times> 'tx evmDisposer) evm" where
  "originalInCosmos C E D ev sample d =
     (if \<not> dj_hasCosmos D then ret (None, sample, d)
      else do {
        c \<leftarrow> disposeCheckCosmos E D ev d;
        case c of
          (Some e, d) \<Rightarrow> ret (Some e, sample, d)
        | (None, d) \<Rightarrow> do {
            v \<leftarrow> ask E (\<lambda>n. env_searchEthereumTx E n (e_TxHash ev) (sm_Height sample));
            ret (case v of
                IndexDisabled \<Rightarrow> (None, sample, d)
              | SearchError \<Rightarrow> (Some ErrRpc, sample, d)
              | SearchFound None \<Rightarrow> (None, sample, d)
              | SearchFound (Some view) \<Rightarrow>
                  if v_Code view \<noteq> 0 \<and> c_failedTxRollsBack C
                  then (None, sample\<lparr>sm_Branch := BranchOriginalFailed, sm_ReceiptBlock := v_Height view\<rparr>, d)
                  else (None, sample, d)) } })"

definition originalReceipt :: "receiptAnswer \<Rightarrow> 'tx EvmDisposeSample \<Rightarrow> 'tx EvmDisposeSample" where
  "originalReceipt answer sample = (case answer of
     ReceiptIs receipt \<Rightarrow>
       (case rc_BlockNumber receipt of
          None \<Rightarrow> sample
        | Some block \<Rightarrow>
            if block > sm_Height sample then sample
            else sample\<lparr>sm_ReceiptBlock := block,
                   sm_Branch := (if rc_Status receipt = ReceiptStatusSuccessful then BranchOriginalSucceeded else BranchOriginalFailed)\<rparr>)
   | _ \<Rightarrow> sample)"

text \<open>The nonce is used: by the original without a receipt, or by an occupier to be found.\<close>

definition assessUsed :: "'tx signClient \<Rightarrow> 'tx evmEnv \<Rightarrow> 'tx requestLib \<Rightarrow> 'tx disposeChain \<Rightarrow> EvmDisposeRequest \<Rightarrow> 'tx evmDisposeTarget
    \<Rightarrow> 'tx EvmDisposeSample \<Rightarrow> 'tx evmDisposer \<Rightarrow> ('tx, evm_error option \<times> 'tx EvmDisposeSample \<times> 'tx evmDisposer) evm" where
  "assessUsed C E L D req target sample d = do {
     r \<leftarrow> originalInCosmos C E D (tg_evidence target) sample d;
     case r of (err, sample, d) \<Rightarrow>
     if err \<noteq> None \<or> sm_Branch sample \<noteq> BranchNone then ret (err, sample, d)
     else do {
       f \<leftarrow> findOccupier C E D req (tg_evidence target) sample d;
       case f of
         (Inl e, d) \<Rightarrow> ret (Some e, sample, d)
       | (Inr None, d) \<Rightarrow> ret (None, sample\<lparr>sm_Branch := BranchOccupierMissing\<rparr>, d)
       | (Inr (Some oc), d) \<Rightarrow> do {
           c \<leftarrow> classify C E L D target (sample\<lparr>sm_Occupier := Some oc\<rparr>) oc;
           case c of (err, sample) \<Rightarrow> ret (err, sample, d) } } }"

definition assess :: "'tx signClient \<Rightarrow> 'tx evmEnv \<Rightarrow> 'tx requestLib \<Rightarrow> 'tx disposeChain \<Rightarrow> EvmDisposeRequest \<Rightarrow> 'tx evmDisposeTarget
    \<Rightarrow> u64 \<Rightarrow> 'tx evmDisposer \<Rightarrow> ('tx, evm_error option \<times> 'tx EvmDisposeSample \<times> 'tx evmDisposer) evm" where
  "assess C E L D req target height d = do {
     let ev = tg_evidence target;
     rc \<leftarrow> ask E (\<lambda>n. env_receipt E n (e_TxHash ev));
     if rc = ReceiptError then ret (Some ErrRpc, newSample height, d)
     else do {
       let sample = originalReceipt rc (newSample height);
       nn \<leftarrow> ask E (\<lambda>n. env_nonceAt E n (e_From ev) height);
       case nn of
         None \<Rightarrow> ret (Some ErrRpc, sample, d)
       | Some nonce \<Rightarrow> do {
           let sample = sample\<lparr>sm_ChainNonce := nonce\<rparr>;
           if sm_Branch sample \<noteq> BranchNone then ret (None, sample, d)
           else if nonce = e_Nonce ev then ret (None, sample\<lparr>sm_Branch := BranchNonceUnused\<rparr>, d)
           else if nonce < e_Nonce ev then
             if \<not> tg_gapIsBranch target then ret (None, sample\<lparr>sm_Branch := BranchNonceNotReached\<rparr>, d)
             else do { g \<leftarrow> assessGap E target sample; case g of (err, sample) \<Rightarrow> ret (err, sample, d) }
           else assessUsed C E L D req target sample d } } }"

section \<open>Two heights\<close>

text \<open>The wait for the second height. \<open>polls\<close> bounds the loop; polls are \<open>Poll\<close> apart, so \<open>pollBudget\<close> of them
  pass the deadline and \<open>WaitOutOfPolls\<close> is not an answer (\<open>waitHeight_enough\<close>).\<close>

datatype waitError = WaitRpc | WaitDeadline | WaitContext | WaitOutOfPolls

primrec waitPolls :: "'tx evmEnv \<Rightarrow> int \<Rightarrow> u64 \<Rightarrow> nat \<Rightarrow> ('tx, waitError + u64) evm" where
  "waitPolls E deadline want 0 = ret (Inl WaitOutOfPolls)"
| "waitPolls E deadline want (Suc polls) = do {
     h \<leftarrow> ask E (env_blockNumber E);
     case h of
       None \<Rightarrow> ret (Inl WaitRpc)
     | Some height \<Rightarrow>
         if height \<ge> want then ret (Inr height)
         else do {
           now \<leftarrow> ask E (env_time E);
           if now > deadline then ret (Inl WaitDeadline)
           else do {
             ended \<leftarrow> ask E (env_ctxDone E);
             if ended then ret (Inl WaitContext) else waitPolls E deadline want polls } } }"

definition blockWait :: "EvmDisposeRequest \<Rightarrow> int" where
  "blockWait req = (if rq_BlockWait req \<le> 0 then 120000000000 else rq_BlockWait req)"

definition pollOf :: "EvmDisposeRequest \<Rightarrow> int" where
  "pollOf req = (if rq_Poll req \<le> 0 then 1000000000 else rq_Poll req)"

definition pollBudget :: "EvmDisposeRequest \<Rightarrow> nat" where
  "pollBudget req = nat (blockWait req div pollOf req) + 2"

definition waitHeight :: "'tx evmEnv \<Rightarrow> EvmDisposeRequest \<Rightarrow> u64 \<Rightarrow> ('tx, waitError + u64) evm" where
  "waitHeight E req want = do {
     now \<leftarrow> ask E (env_time E);
     waitPolls E (now + blockWait req) want (pollBudget req) }"

definition addSample :: "'tx EvmDisposeSample \<Rightarrow> 'tx evmDisposer \<Rightarrow> 'tx evmDisposer" where
  "addSample s d = updReport (\<lambda>r. r\<lparr>rp_Samples := rp_Samples r @ [s]\<rparr>) d"

definition assessTwice :: "'tx signClient \<Rightarrow> 'tx evmEnv \<Rightarrow> 'tx requestLib \<Rightarrow> 'tx disposeChain \<Rightarrow> EvmDisposeRequest \<Rightarrow> 'tx evmDisposeTarget
    \<Rightarrow> evmAuditEvent \<Rightarrow> 'tx evmDisposer \<Rightarrow> ('tx, 'tx EvmDisposeSample option \<times> 'tx evmDisposer) evm" where
  "assessTwice C E L D req target base d = do {
     cid \<leftarrow> ask E (env_evmChainID E);
     if \<not> (case cid of None \<Rightarrow> False | Some c \<Rightarrow> IsUint64 c \<and> word_of_int c = e_EvmChainID (tg_evidence target))
     then do { d \<leftarrow> d_reject E req base EvmDisposeExitError d; ret (None, d) }
     else do {
       h \<leftarrow> ask E (env_blockNumber E);
       case h of
         None \<Rightarrow> do { d \<leftarrow> d_reject E req base EvmDisposeExitError d; ret (None, d) }
       | Some first \<Rightarrow> do {
           r1 \<leftarrow> assess C E L D req target first d;
           case r1 of (err, a, d) \<Rightarrow> do {
             let d = addSample a d;
             if err \<noteq> None then do { d \<leftarrow> d_reject E req base EvmDisposeExitError d; ret (None, d) }
             else do {
               h2 \<leftarrow> waitHeight E req (first + 1);
               case h2 of
                 Inl _ \<Rightarrow> do { d \<leftarrow> d_reject E req base EvmDisposeExitError d; ret (None, d) }
               | Inr height \<Rightarrow> do {
                   r2 \<leftarrow> assess C E L D req target height d;
                   case r2 of (err, b, d) \<Rightarrow> do {
                     let d = addSample b d;
                     if err \<noteq> None then do { d \<leftarrow> d_reject E req base EvmDisposeExitError d; ret (None, d) }
                     else if sample_key a \<noteq> sample_key b then do {
                       d \<leftarrow> d_reject E req base EvmDisposeExitNotProven (updReport (\<lambda>r. r\<lparr>rp_Branch := BranchNone\<rparr>) d);
                       ret (None, d) }
                     else ret (Some b, updReport (\<lambda>r. r\<lparr>rp_Branch := sm_Branch b\<rparr>) d) } } } } } } }"

section \<open>resolve\<close>

definition withOccupier :: "evmAuditEvent \<Rightarrow> 'tx EvmDisposeSample \<Rightarrow> evmAuditEvent" where
  "withOccupier base sample =
     (let base = (case sm_Occupier sample of None \<Rightarrow> base
        | Some oc \<Rightarrow> base\<lparr>a_EvidenceTxHash := oc_Hash oc, a_EvidenceKind := oc_Kind oc\<rparr>)
      in if sm_ReceiptBlock sample \<noteq> 0 then base\<lparr>a_ReceiptBlock := Some (sm_ReceiptBlock sample)\<rparr> else base)"

definition manualOutcome :: "evmRowState \<Rightarrow> string \<Rightarrow> hash \<Rightarrow> u64 \<Rightarrow> outcomeRecord" where
  "manualOutcome state reason resultHash block = \<lparr>o_ID = 0, o_SignedTxID = 0, o_ChainID = [], o_Scope = [], o_Operation = 0,
     o_From = 0, o_Nonce = 0, o_TxHash = 0, o_ResultTxHash = resultHash, o_State = state, o_EvidenceTxHash = [],
     o_EvidenceKind = [], o_Reason = reason, o_ReceiptBlock = block, o_Source = SourceManual\<rparr>"

definition keepOutcome :: "'tx EvmDisposeSample \<Rightarrow> evmRowState \<Rightarrow> string \<Rightarrow> hash \<Rightarrow> outcomeRecord" where
  "keepOutcome sample state reason resultHash =
     (let result = manualOutcome state reason resultHash (sm_ReceiptBlock sample)
      in case sm_Occupier sample of
           None \<Rightarrow> result
         | Some oc \<Rightarrow>
             let result = result\<lparr>o_EvidenceTxHash := oc_Hash oc, o_EvidenceKind := oc_Kind oc\<rparr>
             in if oc_Kind oc = evmEvidenceKindEVM then result\<lparr>o_ReceiptBlock := oc_Block oc\<rparr> else result)"

text \<open>The switch over the branch: what the pending row becomes and under which event, or no change.\<close>

definition resolveDecision :: "'tx disposeChain \<Rightarrow> EvmDisposeRequest \<Rightarrow> hash \<Rightarrow> 'tx EvmDisposeSample \<Rightarrow> (outcomeRecord option \<times> evmAuditName) option" where
  "resolveDecision D req txHash sample = (case sm_Branch sample of
     BranchOriginalSucceeded \<Rightarrow> Some (Some (keepOutcome sample OutcomeSucceeded [] txHash), AuditManualResolveSuccess)
   | BranchOriginalFailed \<Rightarrow> Some (None, AuditManualResolveFailed)
   | BranchOtherTxFailed \<Rightarrow> Some (None, AuditManualResolveOtherTxFailed)
   | BranchOwnOtherOp \<Rightarrow> Some (None, AuditManualResolveOtherUnrelated)
   | BranchPlainTransfer \<Rightarrow> Some (None, AuditManualResolveOtherUnrelated)
   | BranchSameCall \<Rightarrow> Some (Some (keepOutcome sample OutcomeSucceeded [] (dj_HexToHash D (oc_Hash (the (sm_Occupier sample))))),
         AuditManualResolveSameCall)
   | BranchCosmosSameOp \<Rightarrow> Some (Some (keepOutcome sample OutcomeExecutedElsewhere [] 0), AuditManualResolveElsewhere)
   | BranchUndetermined \<Rightarrow>
       if rq_AcceptUnknown req
       then Some (Some (keepOutcome sample OutcomeBlockedUnknown evmReasonOtherTxUnverified 0), AuditManualResolveUnknown) else None
   | BranchOccupierMissing \<Rightarrow>
       if rq_AcceptUnknown req
       then Some (Some (keepOutcome sample OutcomeBlockedUnknown evmReasonReceiptMissing 0), AuditManualResolveUnknown) else None
   | BranchNonceGap \<Rightarrow>
       if rq_AcceptGap req
       then Some (Some (keepOutcome sample OutcomeBlockedUnknown evmReasonNonceGap 0), AuditManualResolveNonceGap) else None
   | _ \<Rightarrow> None)"

definition resolveEvent :: "'tx evmDisposer \<Rightarrow> evmAuditEvent \<Rightarrow> evmAuditName \<Rightarrow> nat \<Rightarrow> outcomeRecord option \<Rightarrow> evmAuditEvent" where
  "resolveEvent d base event pendingID result = (case result of
     None \<Rightarrow> manualEvent d base event
   | Some out \<Rightarrow> (manualEvent d base event)\<lparr>a_OutcomeID := Some pendingID, a_OutcomeState := Some (o_State out),
       a_OutcomeReason := o_Reason out\<rparr>)"

definition resolveReport :: "nat \<Rightarrow> outcomeRecord option \<Rightarrow> 'tx evmDisposer \<Rightarrow> 'tx evmDisposer" where
  "resolveReport pendingID result d = updReport (\<lambda>r. case result of
     None \<Rightarrow> r\<lparr>rp_Action := DeletePending pendingID\<rparr>
   | Some out \<Rightarrow> r\<lparr>rp_Action := TurnIntoOutcome pendingID (o_State out) (o_Reason out) (o_ResultTxHash out),
       rp_OutcomeID := pendingID, rp_State := Some (o_State out), rp_Reason := o_Reason out\<rparr>) d"

definition writeResolve :: "'tx evmEnv \<Rightarrow> EvmDisposeRequest \<Rightarrow> pendingRecord \<Rightarrow> outcomeRecord option \<Rightarrow> evmAuditName \<Rightarrow> evmAuditEvent
    \<Rightarrow> ('tx, evm_error option) evm" where
  "writeResolve E req pending result event auditEvent = do {
     r \<leftarrow> db_write E (\<lambda>X. ManualResolvePending X pending result auditEvent);
     case r of
       Inr _ \<Rightarrow> ret None
     | Inl e \<Rightarrow> if isEvmCommitUnknown e then do {
           r \<leftarrow> db_read E (GetPending (rq_ChainID req) (rq_Scope req));
           case r of
             Inl _ \<Rightarrow> ret (Some e)
           | Inr current \<Rightarrow>
               if current = None \<or> p_ID (the current) \<noteq> p_ID pending then do {
                 done \<leftarrow> db_read E (HasAudit (rq_ChainID req) event (p_TxHash pending) 0);
                 ret (case done of Inr True \<Rightarrow> None | _ \<Rightarrow> Some e) }
               else ret (Some e) }
         else ret (Some e) }"

text \<open>From verified evidence on.\<close>

definition resolveChecked :: "'tx signClient \<Rightarrow> 'tx evmEnv \<Rightarrow> 'tx requestLib \<Rightarrow> 'tx disposeChain \<Rightarrow> EvmDisposeRequest \<Rightarrow> pendingRecord
    \<Rightarrow> signedTxEvidence \<Rightarrow> 'tx \<Rightarrow> 'tx evmDisposer \<Rightarrow> ('tx, 'tx evmDisposer) evm" where
  "resolveChecked C E L D req pending ev tx d = do {
     let base = pending_audit pending AuditNone;
     a \<leftarrow> assessTwice C E L D req \<lparr>tg_evidence = ev, tg_tx = tx, tg_operation = p_Operation pending,
         tg_probeGap = (\<not> rq_DryRun req), tg_gapIsBranch = True\<rparr> base (d_describe ev d);
     case a of
       (None, d) \<Rightarrow> ret d
     | (Some sample, d) \<Rightarrow> do {
         let base = withOccupier base sample;
         case resolveDecision D req (p_TxHash pending) sample of
           None \<Rightarrow> d_reject E req base EvmDisposeExitNotProven d
         | Some (result, event) \<Rightarrow> do {
             let auditEvent = resolveEvent d base event (p_ID pending) result;
             let d = resolveReport (p_ID pending) result d;
             if rq_DryRun req then ret d
             else do {
               err \<leftarrow> writeResolve E req pending result event auditEvent;
               finishWrite E req base event err d } } } }"

definition resolve :: "'tx signClient \<Rightarrow> 'tx evmEnv \<Rightarrow> 'tx requestLib \<Rightarrow> 'tx disposeChain \<Rightarrow> EvmDisposeRequest \<Rightarrow> 'tx evmDisposer
    \<Rightarrow> ('tx, 'tx evmDisposer) evm" where
  "resolve C E L D req d = do {
     r \<leftarrow> db_read E (GetPending (rq_ChainID req) (rq_Scope req));
     case r of
       Inl _ \<Rightarrow> ret (d_fail EvmDisposeExitError d)
     | Inr None \<Rightarrow> ret (d_fail EvmDisposeExitPrecondition d)
     | Inr (Some pending) \<Rightarrow>
         if p_TxHash pending \<noteq> rq_TxHash req then ret (d_fail EvmDisposeExitPrecondition d)
         else do {
           c \<leftarrow> checkEvidence C E req (pending_ref pending) (pending_audit pending AuditNone) d;
           case c of (None, d) \<Rightarrow> ret d | (Some (ev, tx), d) \<Rightarrow> resolveChecked C E L D req pending ev tx d } }"

section \<open>Outcomes\<close>

definition loadOutcome :: "'tx evmEnv \<Rightarrow> EvmDisposeRequest \<Rightarrow> evmRowState list \<Rightarrow> 'tx evmDisposer
    \<Rightarrow> ('tx, outcomeRecord option \<times> 'tx evmDisposer) evm" where
  "loadOutcome E req states d = do {
     r \<leftarrow> db_read E (GetOutcomeByID (rq_ChainID req) (rq_OutcomeID req));
     case r of
       Inl _ \<Rightarrow> ret (None, d_fail EvmDisposeExitError d)
     | Inr None \<Rightarrow> do {
         d \<leftarrow> d_reject E req ((emptyAudit AuditNone)\<lparr>a_OutcomeID := Some (rq_OutcomeID req)\<rparr>) EvmDisposeExitPrecondition d;
         ret (None, d) }
     | Inr (Some outcome) \<Rightarrow> do {
         let d = updReport (\<lambda>r. r\<lparr>rp_Scope := o_Scope outcome, rp_State := Some (o_State outcome), rp_Reason := o_Reason outcome,
             rp_TxHash := Some (o_TxHash outcome)\<rparr>) d;
         if o_State outcome \<in> set states then ret (Some outcome, d)
         else do {
           d \<leftarrow> d_reject E req (outcome_audit outcome AuditNone) EvmDisposeExitPrecondition d;
           ret (None, d) } } }"

definition writeSettle :: "'tx evmEnv \<Rightarrow> EvmDisposeRequest \<Rightarrow> outcomeRecord \<Rightarrow> evmRowState list \<Rightarrow> outcomeRecord option \<Rightarrow> evmAuditEvent
    \<Rightarrow> ('tx, evm_error option) evm" where
  "writeSettle E req outcome states to event = do {
     r \<leftarrow> db_write E (\<lambda>X. ManualSettleOutcome X outcome states to event);
     case r of
       Inr _ \<Rightarrow> ret None
     | Inl e \<Rightarrow> if isEvmCommitUnknown e then do {
           done \<leftarrow> db_read E (HasAudit (rq_ChainID req) (a_Event event) 0 (o_ID outcome));
           ret (case done of Inr True \<Rightarrow> None | _ \<Rightarrow> Some e) }
         else ret (Some e) }"

definition settle :: "'tx evmEnv \<Rightarrow> EvmDisposeRequest \<Rightarrow> outcomeRecord \<Rightarrow> evmRowState list \<Rightarrow> outcomeRecord option \<Rightarrow> evmAuditEvent
    \<Rightarrow> evmAuditEvent \<Rightarrow> 'tx evmDisposer \<Rightarrow> ('tx, 'tx evmDisposer) evm" where
  "settle E req outcome states to base event d =
     (if rq_DryRun req then ret d
      else do {
        err \<leftarrow> writeSettle E req outcome states to event;
        finishWrite E req base (a_Event event) err d })"

text \<open>The switch of \<open>resolve-outcome\<close>: what the blocked outcome becomes (\<open>Some None\<close>: it is deleted).\<close>

definition outcomeDecision :: "'tx disposeChain \<Rightarrow> hash \<Rightarrow> 'tx EvmDisposeSample \<Rightarrow> outcomeRecord option option" where
  "outcomeDecision D txHash sample =
     (let occupied = (\<lambda>to. case sm_Occupier sample of None \<Rightarrow> to
        | Some oc \<Rightarrow> to\<lparr>o_EvidenceTxHash := oc_Hash oc, o_EvidenceKind := oc_Kind oc\<rparr>)
      in case sm_Branch sample of
           BranchOriginalSucceeded \<Rightarrow> Some (Some (occupied (manualOutcome OutcomeSucceeded [] txHash (sm_ReceiptBlock sample))))
         | BranchSameCall \<Rightarrow> Some (Some (occupied (manualOutcome OutcomeSucceeded [] (dj_HexToHash D (oc_Hash (the (sm_Occupier sample))))
             (oc_Block (the (sm_Occupier sample))))))
         | BranchCosmosSameOp \<Rightarrow> Some (Some (occupied (manualOutcome OutcomeExecutedElsewhere [] 0 0)))
         | BranchOriginalFailed \<Rightarrow> Some None
         | BranchOtherTxFailed \<Rightarrow> Some None
         | BranchOwnOtherOp \<Rightarrow> Some None
         | BranchPlainTransfer \<Rightarrow> Some None
         | _ \<Rightarrow> None)"

definition outcomeEvent :: "'tx evmDisposer \<Rightarrow> evmAuditEvent \<Rightarrow> outcomeRecord option \<Rightarrow> evmAuditEvent" where
  "outcomeEvent d base to = (case to of
     None \<Rightarrow> manualEvent d base AuditManualOutcomeResolved
   | Some out \<Rightarrow> (manualEvent d base AuditManualOutcomeResolved)\<lparr>a_OutcomeState := Some (o_State out), a_OutcomeReason := []\<rparr>)"

definition outcomeReport :: "nat \<Rightarrow> outcomeRecord option \<Rightarrow> 'tx evmDisposer \<Rightarrow> 'tx evmDisposer" where
  "outcomeReport outcomeID to d = updReport (\<lambda>r. r\<lparr>rp_Action := (case to of
     None \<Rightarrow> DeleteOutcome outcomeID
   | Some out \<Rightarrow> UpdateOutcome outcomeID (o_State out) (o_ResultTxHash out))\<rparr>) d"

definition outcomeChecked :: "'tx signClient \<Rightarrow> 'tx evmEnv \<Rightarrow> 'tx requestLib \<Rightarrow> 'tx disposeChain \<Rightarrow> EvmDisposeRequest \<Rightarrow> outcomeRecord
    \<Rightarrow> signedTxEvidence \<Rightarrow> 'tx \<Rightarrow> 'tx evmDisposer \<Rightarrow> ('tx, 'tx evmDisposer) evm" where
  "outcomeChecked C E L D req outcome ev tx d = do {
     let base = outcome_audit outcome AuditNone;
     a \<leftarrow> assessTwice C E L D req \<lparr>tg_evidence = ev, tg_tx = tx, tg_operation = o_Operation outcome,
         tg_probeGap = False, tg_gapIsBranch = False\<rparr> base (d_describe ev d);
     case a of
       (None, d) \<Rightarrow> ret d
     | (Some sample, d) \<Rightarrow> do {
         let base = withOccupier base sample;
         case outcomeDecision D (o_TxHash outcome) sample of
           None \<Rightarrow> d_reject E req base EvmDisposeExitNotProven d
         | Some to \<Rightarrow>
             settle E req outcome [OutcomeBlockedUnknown] to base (outcomeEvent d base to) (outcomeReport (o_ID outcome) to d) } }"

definition resolveOutcome :: "'tx signClient \<Rightarrow> 'tx evmEnv \<Rightarrow> 'tx requestLib \<Rightarrow> 'tx disposeChain \<Rightarrow> EvmDisposeRequest \<Rightarrow> 'tx evmDisposer
    \<Rightarrow> ('tx, 'tx evmDisposer) evm" where
  "resolveOutcome C E L D req d = do {
     l \<leftarrow> loadOutcome E req [OutcomeBlockedUnknown] d;
     case l of
       (None, d) \<Rightarrow> ret d
     | (Some outcome, d) \<Rightarrow> do {
         c \<leftarrow> checkEvidence C E req (outcome_ref outcome) (outcome_audit outcome AuditNone) d;
         case c of (None, d) \<Rightarrow> ret d | (Some (ev, tx), d) \<Rightarrow> outcomeChecked C E L D req outcome ev tx d } }"

text \<open>\<open>release\<close> relies on the evidence; \<open>dispose-outcome\<close> only notes what is wrong with it.\<close>

definition decisionEvidence :: "'tx signClient \<Rightarrow> 'tx evmEnv \<Rightarrow> EvmDisposeRequest \<Rightarrow> outcomeRecord \<Rightarrow> evmAuditEvent \<Rightarrow> 'tx evmDisposer
    \<Rightarrow> ('tx, bool \<times> 'tx evmDisposer) evm" where
  "decisionEvidence C E req outcome base d =
     (if rq_Command req = EvmDisposeRelease then do {
        c \<leftarrow> checkEvidence C E req (outcome_ref outcome) base d;
        ret (case c of (None, d) \<Rightarrow> (False, d) | (Some (ev, tx), d) \<Rightarrow> (True, d_describe ev d)) }
      else do {
        _ \<leftarrow> db_read E (GetSignedTx (o_SignedTxID outcome));
        ret (True, updReport (\<lambda>r. r\<lparr>rp_From := Some (o_From outcome), rp_Nonce := o_Nonce outcome, rp_TxHash := Some (o_TxHash outcome),
          rp_Operation := Some (o_Operation outcome)\<rparr>) d) })"

definition settleByDecision :: "'tx signClient \<Rightarrow> 'tx evmEnv \<Rightarrow> EvmDisposeRequest \<Rightarrow> 'tx evmDisposer \<Rightarrow> ('tx, 'tx evmDisposer) evm" where
  "settleByDecision C E req d = do {
     let (states, eventName) = (if rq_Command req = EvmDisposeRelease then ([OutcomeBlockedUnknown], AuditManualReleaseUnknown)
       else ([OutcomeSucceeded, OutcomeExecutedElsewhere], AuditManualDisposeOutcome));
     l \<leftarrow> loadOutcome E req states d;
     case l of
       (None, d) \<Rightarrow> ret d
     | (Some outcome, d) \<Rightarrow> do {
         let base = outcome_audit outcome AuditNone;
         c \<leftarrow> decisionEvidence C E req outcome base d;
         case c of (ok, d) \<Rightarrow>
         if \<not> ok then ret d
         else settle E req outcome states None base (manualEvent d base eventName)
                (updReport (\<lambda>r. r\<lparr>rp_Action := DeleteOutcome (o_ID outcome)\<rparr>) d) } }"

section \<open>The command\<close>

definition newReport :: "EvmDisposeRequest \<Rightarrow> 'tx EvmDisposeReport" where
  "newReport req = \<lparr>rp_Scope = rq_Scope req, rp_OutcomeID = rq_OutcomeID req, rp_State = None, rp_Reason = [], rp_From = None,
     rp_Nonce = 0, rp_TxHash = (if rq_Command req = EvmDisposeResolve \<and> rq_TxHash req \<noteq> 0 then Some (rq_TxHash req) else None),
     rp_Operation = None, rp_Samples = [], rp_Branch = BranchNone, rp_Action = ActionUnset, rp_Applied = False, rp_Event = None,
     rp_ExitCode = EvmDisposeExitOK\<rparr>"

definition newDisposer :: "EvmDisposeRequest \<Rightarrow> 'tx evmDisposer" where
  "newDisposer req = \<lparr>d_report = newReport req, d_cosmosChecked = False, d_blocks = (\<lambda>_. None)\<rparr>"

text \<open>The state of the command serves the chain of the request.\<close>

definition disposeClient :: "'tx signClient \<Rightarrow> EvmDisposeRequest \<Rightarrow> int \<Rightarrow> 'tx signClient" where
  "disposeClient C req evmChainID = C\<lparr>c_chainID := rq_ChainID req, c_evmChainID := word_of_int evmChainID\<rparr>"

definition runCommand :: "'tx signClient \<Rightarrow> 'tx evmEnv \<Rightarrow> 'tx requestLib \<Rightarrow> 'tx disposeChain \<Rightarrow> EvmDisposeRequest \<Rightarrow> 'tx evmDisposer
    \<Rightarrow> ('tx, 'tx evmDisposer) evm" where
  "runCommand C E L D req d =
     (if rq_Command req = EvmDisposeResolve then resolve C E L D req d
      else if rq_Command req = EvmDisposeResolveOutcome then resolveOutcome C E L D req d
      else if rq_Command req = EvmDisposeRelease \<or> rq_Command req = EvmDisposeDisposeOutcome then settleByDecision C E req d
      else ret d)"

definition disposeEvmState :: "'tx signClient \<Rightarrow> 'tx evmEnv \<Rightarrow> 'tx requestLib \<Rightarrow> 'tx disposeChain \<Rightarrow> EvmDisposeRequest
    \<Rightarrow> ('tx, 'tx EvmDisposeReport) evm" where
  "disposeEvmState C E L D req =
     (if \<not> checkEvmDisposeRequest req then ret (d_report (d_fail EvmDisposeExitError (newDisposer req)))
      else (case l_ParseChainID L (rq_ChainID req) of
          None \<Rightarrow> ret (d_report (d_fail EvmDisposeExitError (newDisposer req)))
        | Some evmChainID \<Rightarrow>
            if \<not> IsUint64 evmChainID then ret (d_report (d_fail EvmDisposeExitError (newDisposer req)))
            else do {
              d \<leftarrow> runCommand (disposeClient C req evmChainID) E L D req (newDisposer req);
              ret (d_report d) }))"

end
