(* ===== verification/Evm_Disposition_Safety.thy ===== *)
theory Evm_Disposition_Safety
  imports Evm_Disposition Evm_Signer Evm_Costs
begin

text \<open>
  Safety of manual disposition: the command moves the database by store steps only, so it may run beside any
  number of signers; a dry run neither writes nor sends; and a row is deleted on the word of the chain only
  when the chain, read at two heights, shows that the recorded transaction had no effect.
\<close>

section \<open>The command makes store steps\<close>

lemma safe_ManualResolvePending [evm_safe]:
  "env_ok E \<Longrightarrow> Row (p_ID p) (pending_ref p) \<in> F \<Longrightarrow> event_fits (pending_ref p) res ev \<Longrightarrow>
     safe C F (db_write E (\<lambda>X. ManualResolvePending X p res ev)) (\<lambda>_. {})"
  by (intro safe_step s_manual_resolve Row_known)

lemma safe_ManualSettleOutcome [evm_safe]:
  "env_ok E \<Longrightarrow> Row (o_ID out) (outcome_ref out) \<in> F \<Longrightarrow> event_fits (outcome_ref out) res ev \<Longrightarrow>
     safe C F (db_write E (\<lambda>X. ManualSettleOutcome X out from res ev)) (\<lambda>_. {})"
  by (intro safe_step s_manual_settle Row_known)

lemma safe_lookup [evm_safe]:
  assumes "safe C F a Q" "safe C F b Q" "\<And>v. safe C F (f v) Q"
  shows "safe C F (case x of LookupNotFound \<Rightarrow> a | LookupError \<Rightarrow> b | LookupFound v \<Rightarrow> f v) Q"
  using assms by (cases x) simp_all

lemma safe_block [evm_safe]:
  assumes "safe C F a Q" "safe C F b Q" "\<And>v. safe C F (f v) Q"
  shows "safe C F (case x of BlockUnavailable \<Rightarrow> a | BlockError \<Rightarrow> b | BlockIs v \<Rightarrow> f v) Q"
  using assms by (cases x) simp_all

lemma manualEvent_sel [simp]:
  "a_Event (manualEvent d base n) = n" "a_OutcomeState (manualEvent d base n) = a_OutcomeState base"
  "a_Scope (manualEvent d base n) = a_Scope base" "a_Operation (manualEvent d base n) = a_Operation base"
  by (simp_all add: manualEvent_def split: option.split)

lemma withOccupier_sel [simp]:
  "a_OutcomeState (withOccupier base s) = a_OutcomeState base"
  "a_Scope (withOccupier base s) = a_Scope base" "a_Operation (withOccupier base s) = a_Operation base"
  by (simp_all add: withOccupier_def Let_def split: option.split)

lemma manual_neutral [simp]:
  "event_neutral (manualEvent d base AuditManualRejected)" "event_neutral (manualEvent d base AuditEvidenceInvalid)"
  by (simp_all add: event_defs)

lemma safe_d_reject [evm_safe]: "env_ok E \<Longrightarrow> safe C F (d_reject E req base code d) (\<lambda>_. {})"
  unfolding d_reject_def Let_def by (intro evm_safe safe_bind0) simp_all

lemma safe_finishWrite [evm_safe]: "env_ok E \<Longrightarrow> safe C F (finishWrite E req base event err d) (\<lambda>_. {})"
  unfolding finishWrite_def by (intro evm_safe safe_bind0) simp_all

lemma safe_disposeCheckCosmos [evm_safe]: "env_ok E \<Longrightarrow> safe C F (disposeCheckCosmos E D ev d) (\<lambda>_. {})"
  unfolding disposeCheckCosmos_def by (intro evm_safe safe_bind0) simp_all

lemma safe_evmOccupier [evm_safe]: "env_ok E \<Longrightarrow> safe C F (evmOccupier C' E D ev h s) (\<lambda>_. {})"
  unfolding evmOccupier_def by (intro evm_safe safe_bind0) simp_all

lemma safe_scanBlock [evm_safe]: "env_ok E \<Longrightarrow> safe C F (scanBlock C' E D ev s txs) (\<lambda>_. {})"
  by (induction txs) (simp_all only: scanBlock.simps, (intro evm_safe safe_bind0 | simp)+)

lemma safe_scanBlocks [evm_safe]: "env_ok E \<Longrightarrow> safe C F (scanBlocks C' E D ev s heights d) (\<lambda>_. {})"
  by (induction heights arbitrary: d) (simp_all only: scanBlocks.simps, (intro evm_safe safe_bind0 | simp)+)

lemma safe_givenCosmosTx [evm_safe]: "env_ok E \<Longrightarrow> safe C F (givenCosmosTx E D req ev s d) (\<lambda>_. {})"
  unfolding givenCosmosTx_def by (intro evm_safe safe_bind0) simp_all

lemma safe_searchCosmos [evm_safe]: "env_ok E \<Longrightarrow> safe C F (searchCosmos E D ev s d) (\<lambda>_. {})"
  unfolding searchCosmos_def by (intro evm_safe safe_bind0) simp_all

lemma safe_findOccupier [evm_safe]: "env_ok E \<Longrightarrow> safe C F (findOccupier C' E D req ev s d) (\<lambda>_. {})"
  unfolding findOccupier_def by (intro evm_safe safe_bind0) simp_all

lemma safe_codeFree [evm_safe]: "env_ok E \<Longrightarrow> safe C F (codeFree E D a ats) (\<lambda>_. {})"
  by (induction ats) (simp_all only: codeFree.simps, (intro evm_safe safe_bind0 | simp)+)

lemma safe_classifyUnknownTx [evm_safe]: "env_ok E \<Longrightarrow> safe C F (classifyUnknownTx E D tgt s oc tx) (\<lambda>_. {})"
  unfolding classifyUnknownTx_def by (intro evm_safe safe_bind0) simp_all

lemma safe_classify [evm_safe]: "env_ok E \<Longrightarrow> safe C F (classify C' E L D tgt s oc) (\<lambda>_. {})"
  unfolding classify_def Let_def by (intro evm_safe safe_bind0) simp_all

lemma safe_assessGap [evm_safe]:
  "env_ok E \<Longrightarrow> Signed (tx_Hash (c_eth C) (tg_tx tgt)) \<in> F \<Longrightarrow> safe C F (assessGap E tgt s) (\<lambda>_. {})"
  unfolding assessGap_def Let_def by (intro evm_safe safe_bind0) simp_all

lemma safe_originalInCosmos [evm_safe]: "env_ok E \<Longrightarrow> safe C F (originalInCosmos C' E D ev s d) (\<lambda>_. {})"
  unfolding originalInCosmos_def by (intro evm_safe safe_bind0) simp_all

lemma safe_assessUsed [evm_safe]: "env_ok E \<Longrightarrow> safe C F (assessUsed C' E L D req tgt s d) (\<lambda>_. {})"
  unfolding assessUsed_def by (intro evm_safe safe_bind0) simp_all

lemma safe_assess [evm_safe]:
  "env_ok E \<Longrightarrow> Signed (tx_Hash (c_eth C) (tg_tx tgt)) \<in> F \<Longrightarrow> safe C F (assess C' E L D req tgt h d) (\<lambda>_. {})"
  unfolding assess_def Let_def by (intro evm_safe safe_bind0) simp_all

lemma safe_waitPolls [evm_safe]: "env_ok E \<Longrightarrow> safe C F (waitPolls E deadline want n) (\<lambda>_. {})"
  by (induction n) (simp_all only: waitPolls.simps, (intro evm_safe safe_bind0 | simp)+)

lemma safe_waitHeight [evm_safe]: "env_ok E \<Longrightarrow> safe C F (waitHeight E req want) (\<lambda>_. {})"
  unfolding waitHeight_def by (intro evm_safe safe_bind0) simp_all

lemma safe_assessTwice [evm_safe]:
  "env_ok E \<Longrightarrow> Signed (tx_Hash (c_eth C) (tg_tx tgt)) \<in> F \<Longrightarrow> safe C F (assessTwice C' E L D req tgt base d) (\<lambda>_. {})"
  unfolding assessTwice_def Let_def by (intro evm_safe safe_bind0) simp_all

text \<open>A transaction whose evidence was verified is one that was recorded.\<close>

definition checked_facts :: "'tx signClient \<Rightarrow> (signedTxEvidence \<times> 'tx) option \<times> 'tx evmDisposer \<Rightarrow> fact set" where
  "checked_facts C r = (case fst r of None \<Rightarrow> {} | Some (ev, tx) \<Rightarrow> {Signed (tx_Hash (c_eth C) tx)})"

lemma checked_facts_simps [simp]:
  "checked_facts C (None, d) = {}" "checked_facts C (Some (ev, tx), d) = {Signed (tx_Hash (c_eth C) tx)}"
  by (simp_all add: checked_facts_def)

lemma safe_checkEvidence:
  assumes "env_ok E" "Row i ref \<in> F"
  shows "safe C F (checkEvidence C E req ref base d) (checked_facts C)"
  unfolding checkEvidence_def
proof (rule safe_Row [OF assms(2)], rule safe_bind [OF safe_GetSignedTx [OF assms(1)]], rule safe_sum)
  fix r :: "evm_error + signedTxEvidence option" and e
  assume c: "r_ChainID ref = c_chainID C" and r: "r = Inr e"
  have "checked_facts C (Some (the e, tx), d) \<subseteq> F \<union> opt_facts (\<lambda>ev. if e_ChainID ev = c_chainID C then {Signed (e_TxHash ev)} else {}) r"
    if "st_verify C e ref = Inr tx" for tx
    using that c r by (auto elim!: st_verify_InrD)
  then show "safe C (F \<union> opt_facts (\<lambda>ev. if e_ChainID ev = c_chainID C then {Signed (e_TxHash ev)} else {}) r)
      (case st_verify C e ref of
          Inl x \<Rightarrow> do {
            let d = d_fail EvmDisposeExitEvidenceInvalid d;
            if rq_DryRun req then ret (None, d)
            else do {
              a \<leftarrow> db_write E (\<lambda>X. AppendAudit X None (rq_ChainID req) (manualEvent d base AuditEvidenceInvalid));
              ret (None, case a of Inl _ \<Rightarrow> d | Inr _ \<Rightarrow> updReport (\<lambda>r. r\<lparr>rp_Event := Some AuditEvidenceInvalid\<rparr>) d) } }
        | Inr tx \<Rightarrow> ret (Some (the e, tx), d)) (checked_facts C)"
    using assms(1) unfolding Let_def by (intro evm_safe safe_bind0) simp_all
qed (simp add: safe_ret)

lemmas safe_checkEvidence_bind = safe_bind [OF safe_checkEvidence [where ref = "pending_ref p" and i = "p_ID p" for p]]
  safe_bind [OF safe_checkEvidence [where ref = "outcome_ref out" and i = "o_ID out" for out]]

lemma safe_writeResolve [evm_safe]:
  "env_ok E \<Longrightarrow> Row (p_ID p) (pending_ref p) \<in> F \<Longrightarrow> event_fits (pending_ref p) res ev \<Longrightarrow>
     safe C F (writeResolve E req p res n ev) (\<lambda>_. {})"
  unfolding writeResolve_def by (intro evm_safe safe_bind0) simp_all

lemma safe_settle [evm_safe]:
  "env_ok E \<Longrightarrow> Row (o_ID out) (outcome_ref out) \<in> F \<Longrightarrow> event_fits (outcome_ref out) res ev \<Longrightarrow>
     safe C F (settle E req out states res base ev d) (\<lambda>_. {})"
  unfolding settle_def writeSettle_def by (intro evm_safe safe_bind0) simp_all

lemma keepOutcome_state [simp]: "o_State (keepOutcome s st reason h) = st"
  by (simp add: keepOutcome_def manualOutcome_def Let_def split: option.split)

lemma resolve_fits:
  assumes "resolveDecision D req h s = Some (res, n)" "a_Scope base = r_Scope ref" "a_Operation base = r_Operation ref"
  shows "event_fits ref res (resolveEvent d base n i res)"
  using assms by (auto simp: resolveDecision_def event_fits_def resolveEvent_def event_defs split: evmBranch.splits if_splits)

lemma outcome_fits:
  assumes "outcomeDecision D h s = Some to" "a_Scope base = r_Scope ref" "a_Operation base = r_Operation ref"
    "a_OutcomeState base = Some OutcomeBlockedUnknown"
  shows "event_fits ref to (outcomeEvent d base to)"
  using assms by (auto simp: outcomeDecision_def event_fits_def outcomeEvent_def event_defs manualOutcome_def Let_def
      split: evmBranch.splits option.splits)

lemma decision_fits:
  "n = AuditManualReleaseUnknown \<or> n = AuditManualDisposeOutcome \<Longrightarrow> event_fits (outcome_ref out) None (manualEvent d (outcome_audit out AuditNone) n)"
  by (auto simp: event_fits_def event_defs outcome_ref_def)

lemma safe_resolveChecked [evm_safe]:
  assumes "env_ok E" "Row (p_ID p) (pending_ref p) \<in> F" "Signed (tx_Hash (c_eth C) tx) \<in> F"
  shows "safe C F (resolveChecked C E L D req p ev tx d) (\<lambda>_. {})"
  unfolding resolveChecked_def Let_def
  using assms by (intro evm_safe safe_bind0) (auto intro!: resolve_fits simp: pending_ref_def)

lemma safe_resolve [evm_safe]: "env_ok E \<Longrightarrow> c_chainID C = rq_ChainID req \<Longrightarrow> safe C F (resolve C E L D req d) (\<lambda>_. {})"
  unfolding resolve_def
  by (drule sym, simp only:, intro safe_checkEvidence_bind evm_safe safe_bind0) (simp_all add: pending_facts_def)

lemma GetOutcomeByID_SomeE:
  assumes "GetOutcomeByID c i db = Some out"
  obtains r where "r \<in> set (db_state db)" "sr_ChainID r = c" "out = outcomeFromRow r"
proof -
  obtain r rs where r: "filter (\<lambda>r. sr_State r \<noteq> RowPending \<and> sr_ChainID r = c \<and> sr_ID r = i) (db_state db) = r # rs"
      "out = outcomeFromRow r"
    using assms by (auto simp: GetOutcomeByID_def split: list.splits)
  have "r \<in> set (filter (\<lambda>r. sr_State r \<noteq> RowPending \<and> sr_ChainID r = c \<and> sr_ID r = i) (db_state db))"
    unfolding r(1) by simp
  then show ?thesis using that [of r] r(2) by simp
qed

lemma safe_GetOutcomeByID: "env_ok E \<Longrightarrow> safe C F (db_read E (GetOutcomeByID (c_chainID C) i)) (opt_facts outcome_facts)"
proof (rule safe_db_read)
  fix db assume inv: "db_inv db"
  show "facts (c_chainID C) db (opt_facts outcome_facts (Inr (GetOutcomeByID (c_chainID C) i db)))"
  proof (cases "GetOutcomeByID (c_chainID C) i db")
    case (Some p)
    then obtain r where "r \<in> set (db_state db)" "sr_ChainID r = c_chainID C" "p = outcomeFromRow r" by (rule GetOutcomeByID_SomeE)
    then show ?thesis using Some row_fact [OF inv] by (simp only: read_facts_simps outcomeFromRow_facts ball_simps)
  qed simp
qed simp_all

definition loaded_facts :: "evmRowState list \<Rightarrow> outcomeRecord option \<times> 'tx evmDisposer \<Rightarrow> fact set" where
  "loaded_facts states r = (case fst r of None \<Rightarrow> {} | Some out \<Rightarrow> {Row (o_ID out) (outcome_ref out), Holds (o_State out \<in> set states)})"

lemma loaded_facts_simps [simp]:
  "loaded_facts states (None, d) = {}"
  "loaded_facts states (Some out, d) = {Row (o_ID out) (outcome_ref out), Holds (o_State out \<in> set states)}"
  by (simp_all add: loaded_facts_def)

lemma safe_ret_facts: "(\<And>db. facts (c_chainID C) db F \<Longrightarrow> facts (c_chainID C) db (Q a)) \<Longrightarrow> safe C F (ret a) Q"
  by (simp add: safe_def State_Monad.return_def)

lemma safe_loadOutcome:
  assumes "env_ok E" "c_chainID C = rq_ChainID req"
  shows "safe C F (loadOutcome E req states d) (loaded_facts states)"
  unfolding loadOutcome_def assms(2) [symmetric] Let_def
proof (rule safe_bind [OF safe_GetOutcomeByID [OF assms(1)]], rule safe_sum, simp add: safe_ret, rule safe_option, goal_cases)
  case (2 r v out)
  show ?case
    using assms(1) by (intro safe_if safe_bind0 safe_d_reject safe_ret_facts) (auto simp: 2 outcome_facts_def)
qed (use assms(1) in \<open>intro evm_safe safe_bind0, simp_all\<close>)

lemmas safe_loadOutcome_bind = safe_bind [OF safe_loadOutcome]

lemma safe_outcomeChecked [evm_safe]:
  assumes "env_ok E" "Row (o_ID out) (outcome_ref out) \<in> F" "Signed (tx_Hash (c_eth C) tx) \<in> F"
    and "Holds (o_State out \<in> set [OutcomeBlockedUnknown]) \<in> F"
  shows "safe C F (outcomeChecked C E L D req out ev tx d) (\<lambda>_. {})"
  unfolding outcomeChecked_def Let_def
  using assms(1-3) by (rule_tac safe_Holds [OF assms(4)], intro evm_safe safe_bind0) (auto intro!: outcome_fits simp: outcome_ref_def)

lemma safe_resolveOutcome [evm_safe]:
  assumes "env_ok E" "c_chainID C = rq_ChainID req"
  shows "safe C F (resolveOutcome C E L D req d) (\<lambda>_. {})"
  unfolding resolveOutcome_def
  using assms by (intro safe_loadOutcome_bind safe_checkEvidence_bind evm_safe safe_bind0) simp_all

lemma safe_decisionEvidence [evm_safe]:
  assumes "env_ok E" "Row (o_ID out) (outcome_ref out) \<in> F"
  shows "safe C F (decisionEvidence C E req out base d) (\<lambda>_. {})"
  unfolding decisionEvidence_def using assms by (intro safe_checkEvidence_bind evm_safe safe_bind0) simp_all

lemma safe_settleByDecision [evm_safe]:
  assumes "env_ok E" "c_chainID C = rq_ChainID req"
  shows "safe C F (settleByDecision C E req d) (\<lambda>_. {})"
  unfolding settleByDecision_def Let_def
  using assms by (intro safe_prod safe_loadOutcome_bind evm_safe safe_bind0) (auto intro!: decision_fits split: if_splits)

lemma safe_runCommand [evm_safe]:
  "env_ok E \<Longrightarrow> c_chainID C = rq_ChainID req \<Longrightarrow> safe C F (runCommand C E L D req d) (\<lambda>_. {})"
  unfolding runCommand_def by (intro evm_safe) simp_all

lemma dispose_cases:
  obtains "disposeEvmState C E L D req = ret (d_report (d_fail EvmDisposeExitError (newDisposer req)))"
  | c where "checkEvmDisposeRequest req"
      "disposeEvmState C E L D req = runCommand (disposeClient C req c) E L D req (newDisposer req) \<bind> (\<lambda>d. ret (d_report d))"
  by (cases "checkEvmDisposeRequest req"; cases "l_ParseChainID L (rq_ChainID req)"; cases "IsUint64 (the (l_ParseChainID L (rq_ChainID req)))")
     (auto simp: disposeEvmState_def)

lemma dispose_safe:
  assumes "env_ok E" "db_inv db" and w_def: "w = snd (run_state (disposeEvmState C E L D req) (newEvmState db))"
  shows "store_steps db (w_db w)" "tx \<in> set (w_sent w) \<Longrightarrow> fact_ok (rq_ChainID req) (w_db w) (Signed (tx_Hash (c_eth C) tx))"
proof (atomize (full), cases rule: dispose_cases [of C E L D req])
  case 1
  then show "store_steps db (w_db w) \<and> (tx \<in> set (w_sent w) \<longrightarrow> fact_ok (rq_ChainID req) (w_db w) (Signed (tx_Hash (c_eth C) tx)))"
    by (simp add: w_def State_Monad.return_def newEvmState_def)
next
  case (2 c)
  let ?C = "disposeClient C req c"
  have c: "c_chainID ?C = rq_ChainID req" "c_eth ?C = c_eth C" by (simp_all add: disposeClient_def)
  have "winv ?C w \<and> store_steps (w_db (newEvmState db :: 'a evmWorld)) (w_db w)"
    using safe_run [OF safe_runCommand [OF assms(1) c(1)] winv_new [OF assms(2)]] 2(2) by (simp add: w_def split_def)
  then show "store_steps db (w_db w) \<and> (tx \<in> set (w_sent w) \<longrightarrow> fact_ok (rq_ChainID req) (w_db w) (Signed (tx_Hash (c_eth C) tx)))"
    unfolding winv_def c by (auto simp: newEvmState_def)
qed

section \<open>A dry run\<close>

text \<open>\<open>quiet E m\<close>: \<open>m\<close> sends nothing, and what happens to the database while it runs is what other processes do.\<close>

named_theorems quiet_rules

definition others_between :: "'tx evmEnv \<Rightarrow> nat \<Rightarrow> nat \<Rightarrow> evm_db \<Rightarrow> evm_db" where
  "others_between E i j db = fold (env_others E) [i ..< j] db"

definition quiet :: "'tx evmEnv \<Rightarrow> ('tx, 'a) evm \<Rightarrow> bool" where
  "quiet E m \<longleftrightarrow> (\<forall>w a w'. run_state m w = (a, w') \<longrightarrow>
     w_sent w' = w_sent w \<and> w_tick w \<le> w_tick w' \<and> w_db w' = others_between E (w_tick w) (w_tick w') (w_db w))"

lemma others_between_trans: "i \<le> j \<Longrightarrow> j \<le> k \<Longrightarrow> others_between E j k (others_between E i j db) = others_between E i k db"
  using upt_add_eq_append [of i j "k - j"] by (simp add: others_between_def)

lemma quiet_ret [quiet_rules]: "quiet E (ret a)"
  by (simp add: quiet_def State_Monad.return_def others_between_def)

lemma quiet_bind [quiet_rules]:
  assumes "quiet E m" "\<And>a. quiet E (k a)"
  shows "quiet E (State_Monad.bind m k)"
  unfolding quiet_def
proof (intro allI impI)
  fix w b w'' assume "run_state (State_Monad.bind m k) w = (b, w'')"
  then obtain a w' where "run_state m w = (a, w')" "run_state (k a) w' = (b, w'')"
    by (cases "run_state m w") (simp add: State_Monad.bind_def)
  then show "w_sent w'' = w_sent w \<and> w_tick w \<le> w_tick w'' \<and> w_db w'' = others_between E (w_tick w) (w_tick w'') (w_db w)"
    using assms unfolding quiet_def by (metis others_between_trans order.trans)
qed

lemma quiet_call: "quiet E (call E)"
  by (simp add: quiet_def call_def others_between_def)

lemma quiet_ask [quiet_rules]: "quiet E (ask E f)"
  unfolding ask_def by (intro quiet_bind quiet_call quiet_ret)

lemma quiet_read [quiet_rules]: "quiet E (db_read E f)"
  unfolding db_read_def
  by (intro quiet_bind quiet_call quiet_ret) (simp add: quiet_def State_Monad.get_def others_between_def)

lemma quiet_cases [quiet_rules]:
  "(b \<Longrightarrow> quiet E m) \<Longrightarrow> (\<not> b \<Longrightarrow> quiet E m') \<Longrightarrow> quiet E (if b then m else m')"
  "(\<And>e. quiet E (fe e)) \<Longrightarrow> (\<And>v. quiet E (fv v)) \<Longrightarrow> quiet E (case s of Inl e \<Rightarrow> fe e | Inr v \<Rightarrow> fv v)"
  "quiet E m \<Longrightarrow> (\<And>v. quiet E (fo v)) \<Longrightarrow> quiet E (case p of None \<Rightarrow> m | Some v \<Rightarrow> fo v)"
  "(\<And>a b. quiet E (fp a b)) \<Longrightarrow> quiet E (case q of (a, b) \<Rightarrow> fp a b)"
  "quiet E m \<Longrightarrow> quiet E m' \<Longrightarrow> (\<And>v. quiet E (fl v)) \<Longrightarrow>
     quiet E (case l of LookupNotFound \<Rightarrow> m | LookupError \<Rightarrow> m' | LookupFound v \<Rightarrow> fl v)"
  "quiet E m \<Longrightarrow> quiet E m' \<Longrightarrow> (\<And>v. quiet E (fb v)) \<Longrightarrow>
     quiet E (case k of BlockUnavailable \<Rightarrow> m | BlockError \<Rightarrow> m' | BlockIs v \<Rightarrow> fb v)"
  by (simp_all split: sum.split option.split prod.split lookupAnswer.split blockAnswer.split)

lemma quiet_evmOccupier [quiet_rules]: "quiet E (evmOccupier C E D ev h s)"
  unfolding evmOccupier_def by (intro quiet_rules)

lemma quiet_scans [quiet_rules]: "quiet E (scanBlock C E D ev s txs)" "quiet E (scanBlocks C E D ev s heights d)"
proof -
  show t: "quiet E (scanBlock C E D ev s txs)" for txs
    by (induction txs) (simp_all only: scanBlock.simps, (intro quiet_rules | assumption)+)
  show "quiet E (scanBlocks C E D ev s heights d)"
    by (induction heights arbitrary: d) (simp_all only: scanBlocks.simps Let_def, (intro quiet_rules t | assumption)+)
qed

lemma quiet_loops [quiet_rules]: "quiet E (codeFree E D a ats)" "quiet E (waitPolls E deadline want n)"
proof -
  show "quiet E (codeFree E D a ats)"
    by (induction ats) (simp_all only: codeFree.simps, (intro quiet_rules | assumption)+)
  show "quiet E (waitPolls E deadline want n)"
    by (induction n) (simp_all only: waitPolls.simps, (intro quiet_rules | assumption)+)
qed

lemma quiet_assess [quiet_rules]: "\<not> tg_probeGap tgt \<Longrightarrow> quiet E (assess C E L D req tgt h d)"
  unfolding assess_def assessGap_def assessUsed_def originalInCosmos_def disposeCheckCosmos_def findOccupier_def
    givenCosmosTx_def searchCosmos_def classify_def classifyUnknownTx_def Let_def
  by (simp only: if_True if_False not_True_eq_False not_False_eq_True, intro quiet_rules)

lemma quiet_reject [quiet_rules]: "rq_DryRun req \<Longrightarrow> quiet E (d_reject E req base code d)"
  by (simp add: d_reject_def Let_def quiet_ret)

lemma quiet_assessTwice [quiet_rules]: "rq_DryRun req \<Longrightarrow> \<not> tg_probeGap tgt \<Longrightarrow> quiet E (assessTwice C E L D req tgt base d)"
  unfolding assessTwice_def waitHeight_def Let_def by (intro quiet_rules)

lemma quiet_checkEvidence [quiet_rules]: "rq_DryRun req \<Longrightarrow> quiet E (checkEvidence C E req ref base d)"
  unfolding checkEvidence_def Let_def by (simp, intro quiet_rules)

lemma quiet_loadOutcome [quiet_rules]: "rq_DryRun req \<Longrightarrow> quiet E (loadOutcome E req states d)"
  unfolding loadOutcome_def Let_def by (intro quiet_rules)

lemma quiet_runCommand: "rq_DryRun req \<Longrightarrow> quiet E (runCommand C E L D req d)"
  unfolding runCommand_def resolve_def resolveChecked_def resolveOutcome_def outcomeChecked_def settleByDecision_def decisionEvidence_def settle_def Let_def
  by (simp, intro impI conjI quiet_rules; simp)

section \<open>What a deletion needs\<close>

text \<open>Properties of every result of a computation; an answer of a node is the value of the oracle at some call.\<close>

named_theorems results


lemma returns_read_bind [results]:
  "returns P (k (Inl ErrDatabase)) \<Longrightarrow> (\<And>db. returns P (k (Inr (f db)))) \<Longrightarrow> returns P (db_read E f \<bind> k)"
  by (simp add: returns_def db_read_def call_def)

lemma returns_write_bind [results]: "(\<And>r. returns P (k r)) \<Longrightarrow> returns P (db_write E f \<bind> k)"
  by (rule returns_bind)

lemma returns_send_bind [results]: "(\<And>r. returns P (k r)) \<Longrightarrow> returns P (sendEvmTx E tx \<bind> k)"
  by (rule returns_bind)



lemma returns_cases [results]:
  "(b \<Longrightarrow> returns P m) \<Longrightarrow> (\<not> b \<Longrightarrow> returns P m') \<Longrightarrow> returns P (if b then m else m')"
  "(\<And>e. s = Inl e \<Longrightarrow> returns P (fe e)) \<Longrightarrow> (\<And>v. s = Inr v \<Longrightarrow> returns P (fv v)) \<Longrightarrow> returns P (case s of Inl e \<Rightarrow> fe e | Inr v \<Rightarrow> fv v)"
  "(p = None \<Longrightarrow> returns P m) \<Longrightarrow> (\<And>v. p = Some v \<Longrightarrow> returns P (fo v)) \<Longrightarrow> returns P (case p of None \<Rightarrow> m | Some v \<Rightarrow> fo v)"
  "(\<And>a b. q = (a, b) \<Longrightarrow> returns P (fp a b)) \<Longrightarrow> returns P (case q of (a, b) \<Rightarrow> fp a b)"
  "(l = LookupNotFound \<Longrightarrow> returns P m) \<Longrightarrow> (l = LookupError \<Longrightarrow> returns P m') \<Longrightarrow> (\<And>v. l = LookupFound v \<Longrightarrow> returns P (fl v)) \<Longrightarrow>
     returns P (case l of LookupNotFound \<Rightarrow> m | LookupError \<Rightarrow> m' | LookupFound v \<Rightarrow> fl v)"
  by (simp_all split: sum.split option.split prod.split lookupAnswer.split)


text \<open>The transaction that took the nonce: from the sender, at the nonce, another than the recorded one, in a block
  up to the height. And what makes it irrelevant to the operation.\<close>

definition occupies :: "'tx signClient \<Rightarrow> 'tx evmEnv \<Rightarrow> 'tx disposeChain \<Rightarrow> signedTxEvidence \<Rightarrow> u64 \<Rightarrow> 'tx EvmDisposeOccupier \<Rightarrow> bool" where
  "occupies C E D ev height oc \<longleftrightarrow> oc_Block oc \<le> height \<and> (case oc_cosmos oc of
     None \<Rightarrow> (\<exists>tx n rc. oc_tx oc = Some tx \<and> tx_Sender (c_eth C) (uint (e_EvmChainID ev)) tx = Some (e_From ev)
       \<and> tx_Nonce (c_eth C) tx = e_Nonce ev \<and> tx_Hash (c_eth C) tx \<noteq> e_TxHash ev
       \<and> env_receipt E n (tx_Hash (c_eth C) tx) = ReceiptIs rc \<and> rc_BlockNumber rc = Some (oc_Block oc)
       \<and> oc_Succeeded oc = (rc_Status rc = ReceiptStatusSuccessful))
   | Some view \<Rightarrow> list_ex (\<lambda>accSeq. strings_EqualFold accSeq (accSeqOf D ev)) (v_AccSeqs view)
       \<and> v_Height view = oc_Block oc \<and> oc_Succeeded oc = (v_Code view = 0))"

definition unrelated :: "'tx signClient \<Rightarrow> 'tx disposeChain \<Rightarrow> hash \<Rightarrow> 'tx EvmDisposeOccupier \<Rightarrow> bool" where
  "unrelated C D operation oc \<longleftrightarrow>
     \<not> oc_Succeeded oc \<and> c_failedTxRollsBack C
   \<or> (\<exists>tx own tx'. oc_tx oc = Some tx \<and> e_TxHash own = tx_Hash (c_eth C) tx \<and> evidence_valid (c_eth C) own (evidence_ref own) tx'
        \<and> e_Operation own \<noteq> operation)
   \<or> (\<exists>tx recipient n m. oc_tx oc = Some tx \<and> dj_txTo D tx = Some recipient \<and> dj_txData D tx = [] \<and> \<not> isPossiblePrecompile recipient
        \<and> dj_codeAt D n recipient (oc_Block oc - 1) = Some [] \<and> dj_codeAt D m recipient (oc_Block oc) = Some [])"

definition no_effect :: "'tx signClient \<Rightarrow> 'tx evmEnv \<Rightarrow> 'tx disposeChain \<Rightarrow> hash \<Rightarrow> signedTxEvidence \<Rightarrow> 'tx EvmDisposeSample \<Rightarrow> bool" where
  "no_effect C E D operation ev s \<longleftrightarrow>
     (\<exists>n rc b. env_receipt E n (e_TxHash ev) = ReceiptIs rc \<and> rc_BlockNumber rc = Some b \<and> b \<le> sm_Height s
        \<and> rc_Status rc \<noteq> ReceiptStatusSuccessful)
   \<or> (\<exists>n view. env_searchEthereumTx E n (e_TxHash ev) (sm_Height s) = SearchFound (Some view) \<and> v_Code view \<noteq> 0
        \<and> c_failedTxRollsBack C)
   \<or> e_Nonce ev < sm_ChainNonce s \<and> (\<exists>n. env_nonceAt E n (e_From ev) (sm_Height s) = Some (sm_ChainNonce s))
      \<and> (\<exists>oc. sm_Occupier s = Some oc \<and> occupies C E D ev (sm_Height s) oc \<and> unrelated C D operation oc)"

definition found_ok :: "'tx signClient \<Rightarrow> 'tx evmEnv \<Rightarrow> 'tx disposeChain \<Rightarrow> signedTxEvidence \<Rightarrow> u64 \<Rightarrow> evm_error + 'tx EvmDisposeOccupier option \<Rightarrow> bool" where
  "found_ok C E D ev height r \<longleftrightarrow> (case r of Inr (Some oc) \<Rightarrow> occupies C E D ev height oc | _ \<Rightarrow> True)"

lemma found_ok_simps [simp]:
  "found_ok C E D ev height (Inl e)" "found_ok C E D ev height (Inr None)"
  "found_ok C E D ev height (Inr (Some oc)) \<longleftrightarrow> occupies C E D ev height oc"
  by (simp_all add: found_ok_def)





abbreviation same_report :: "'tx evmDisposer \<Rightarrow> 'tx evmDisposer \<Rightarrow> bool" where
  "same_report d d' \<equiv> d_report d' = d_report d"


definition found_with :: "'tx signClient \<Rightarrow> 'tx evmEnv \<Rightarrow> 'tx disposeChain \<Rightarrow> signedTxEvidence \<Rightarrow> u64 \<Rightarrow> 'tx evmDisposer
    \<Rightarrow> (evm_error + 'tx EvmDisposeOccupier option) \<times> 'tx evmDisposer \<Rightarrow> bool" where
  "found_with C E D ev height d r \<longleftrightarrow> found_ok C E D ev height (fst r) \<and> same_report d (snd r)"

lemma found_with_simps [simp]:
  "found_with C E D ev height d (r, d') \<longleftrightarrow> found_ok C E D ev height r \<and> same_report d d'"
  by (simp add: found_with_def)





text \<open>A sample whose branch deletes the row shows that the recorded transaction had no effect.\<close>

definition deletes :: "evmBranch \<Rightarrow> bool" where
  "deletes b \<longleftrightarrow> b \<in> {BranchOriginalFailed, BranchOtherTxFailed, BranchOwnOtherOp, BranchPlainTransfer}"

lemma deletes_simps [simp]:
  "deletes BranchOriginalFailed" "deletes BranchOtherTxFailed" "deletes BranchOwnOtherOp" "deletes BranchPlainTransfer"
  "\<not> deletes BranchNone" "\<not> deletes BranchOriginalSucceeded" "\<not> deletes BranchNonceUnused" "\<not> deletes BranchNonceNotReached"
  "\<not> deletes BranchSameCall" "\<not> deletes BranchCosmosSameOp" "\<not> deletes BranchUndetermined" "\<not> deletes BranchOccupierMissing"
  "\<not> deletes BranchNonceGap" "\<not> deletes BranchGapUnproven" "\<not> deletes BranchGapNotProbed"
  by (simp_all add: deletes_def)







lemma occupies_operation [simp]: "occupies C E D ev h (oc\<lparr>oc_Operation := x\<rparr>) = occupies C E D ev h oc"
  by (simp add: occupies_def split: option.split)









text \<open>What ends a command without a change leaves the report without \<open>Applied\<close>.\<close>

abbreviation applied :: "'tx evmDisposer \<Rightarrow> bool" where
  "applied d \<equiv> rp_Applied (d_report d)"

lemma applied_simps [simp]:
  "applied (d_fail code d) = applied d" "applied (d_describe ev d) = applied d" "applied (addSample s d) = applied d"
  "applied (resolveReport i res d) = applied d" "applied (outcomeReport i res d) = applied d" "\<not> applied (newDisposer req)"
  by (simp_all add: d_fail_def d_describe_def addSample_def resolveReport_def outcomeReport_def updReport_def newDisposer_def
      newReport_def split: option.split)







definition proven :: "'tx signClient \<Rightarrow> 'tx evmEnv \<Rightarrow> 'tx disposeChain \<Rightarrow> 'tx EvmDisposeReport \<Rightarrow> bool" where
  "proven C E D rep \<longleftrightarrow> (\<exists>ev tx a b. evidence_valid (c_eth C) ev (evidence_ref ev) tx
     \<and> rp_TxHash rep = Some (e_TxHash ev) \<and> rp_Operation rep = Some (e_Operation ev)
     \<and> rp_Samples rep = [a, b] \<and> sm_Height a + 1 \<le> sm_Height b
     \<and> no_effect C E D (e_Operation ev) ev a \<and> no_effect C E D (e_Operation ev) ev b)"

lemma proven_simps [simp]:
  "proven C E D (r\<lparr>rp_Applied := x\<rparr>) = proven C E D r" "proven C E D (r\<lparr>rp_Event := e\<rparr>) = proven C E D r"
  "proven C E D (r\<lparr>rp_ExitCode := n\<rparr>) = proven C E D r" "proven C E D (r\<lparr>rp_Action := a\<rparr>) = proven C E D r"
  by (simp_all add: proven_def)














section \<open>The wait for the second height ends\<close>

text \<open>What the loop reads of the clock when it starts at call \<open>t\<close>: time does not go back, and the readings of two
  polls, three calls apart, differ by at least \<open>Poll\<close>.\<close>

definition clock_ok :: "'tx evmEnv \<Rightarrow> EvmDisposeRequest \<Rightarrow> nat \<Rightarrow> bool" where
  "clock_ok E req t \<longleftrightarrow> env_time E t \<le> env_time E (t + 2)
     \<and> (\<forall>i. env_time E (t + 2 + 3 * i) + pollOf req \<le> env_time E (t + 5 + 3 * i))"

lemma waitPolls_enough:
  assumes "\<And>i. env_time E (w_tick w + 1 + 3 * i) + P \<le> env_time E (w_tick w + 4 + 3 * i)"
    and "deadline < env_time E (w_tick w + 1) + int n * P"
  shows "fst (run_state (waitPolls E deadline want (Suc n)) w) \<noteq> Inl WaitOutOfPolls"
  using assms
proof (induction n arbitrary: w)
  case 0
  then show ?case by (simp add: run_calls split: option.split)
next
  case (Suc n)
  have "deadline < env_time E (w_tick w + 4) + int n * P" using Suc.prems(1) [of 0] Suc.prems(2) by (simp add: algebra_simps)
  moreover have "env_time E (w_tick w + 4 + 3 * i) + P \<le> env_time E (w_tick w + 7 + 3 * i)" for i
    using Suc.prems(1) [of "Suc i"] by (simp add: ac_simps)
  ultimately have IH: "fst (run_state (waitPolls E deadline want (Suc n)) w') \<noteq> Inl WaitOutOfPolls" if "w_tick w' = w_tick w + 3" for w'
    using Suc.IH [of w'] that by (simp add: ac_simps del: waitPolls.simps)
  show ?case
    by (subst waitPolls.simps(2)) (auto simp: run_calls simp del: waitPolls.simps intro!: IH split: option.split)
qed

lemma waitHeight_enough: "clock_ok E req (w_tick w) \<Longrightarrow> fst (run_state (waitHeight E req want) w) \<noteq> Inl WaitOutOfPolls"
proof -
  assume c: "clock_ok E req (w_tick w)"
  let ?W = "blockWait req" and ?P = "pollOf req"
  have pos: "0 < ?P" "0 < ?W" by (simp_all add: pollOf_def blockWait_def)
  have "?W mod ?P < ?P" using pos(1) by simp
  then have "?W < ?P * (?W div ?P) + ?P" using mult_div_mod_eq [of ?P ?W] by linarith
  then have "?W < (?W div ?P + 1) * ?P" by (simp add: int_distrib mult.commute)
  moreover have "int (Suc (nat (?W div ?P))) = ?W div ?P + 1" using pos by (simp add: pos_imp_zdiv_nonneg_iff)
  moreover let ?w = "w\<lparr>w_tick := w_tick w + 1, w_db := env_others E (w_tick w) (w_db w)\<rparr>"
  have "env_time E (w_tick ?w + 1 + 3 * i) + ?P \<le> env_time E (w_tick ?w + 4 + 3 * i)" for i
    using c by (simp add: clock_ok_def ac_simps)
  ultimately show ?thesis
    unfolding waitHeight_def pollBudget_def run_bind run_ask
    using waitPolls_enough [of E ?w ?P "env_time E (w_tick w) + ?W" "Suc (nat (?W div ?P))" want] c
    by (simp add: clock_ok_def add_2_eq_Suc' del: waitPolls.simps of_nat_Suc)
qed

section \<open>A concrete command\<close>

text \<open>A seal is pending; the node reports its transaction as failed, in a block below both heights.\<close>

definition ex_dispose_env :: "bytes evmEnv" where
  "ex_dispose_env = (ex_env None)\<lparr>env_receipt := (\<lambda>_ _. ReceiptIs \<lparr>rc_Status = 0, rc_BlockNumber = Some 90\<rparr>),
     env_blockNumber := (\<lambda>n. Some (100 + of_nat n)), env_time := (\<lambda>n. 1000000000 * int n)\<rparr>"

definition ex_dispose_chain :: "bytes disposeChain" where
  "ex_dispose_chain = \<lparr>dj_txByHash = (\<lambda>_ _. LookupNotFound), dj_codeAt = (\<lambda>_ _ _. None), dj_blockTransactions = (\<lambda>_ _. BlockUnavailable),
     dj_hasCosmos = False, dj_cosmosTx = (\<lambda>_ _. ViewsDisabled), dj_searchAccSeq = (\<lambda>_ _ _. ViewsDisabled), dj_txTo = (\<lambda>_. None),
     dj_txValue = (\<lambda>_. 0), dj_txData = (\<lambda>_. []), dj_addressHex = (\<lambda>_. []), dj_HexToHash = (\<lambda>_. 0)\<rparr>"

definition ex_dispose :: "bool \<Rightarrow> EvmDisposeRequest" where
  "ex_dispose dryRun = \<lparr>rq_Command = EvmDisposeResolve, rq_ChainID = ex_chain, rq_Scope = SignSeal, rq_TxHash = 3, rq_OutcomeID = 0,
     rq_Operator = ''ops'', rq_Reason = ''stuck'', rq_BusinessEvidence = [], rq_DecisionRef = [], rq_EvidenceTx = 0, rq_EvidenceCosmosTx = [],
     rq_ScanBlocks = 0, rq_AcceptUnknown = False, rq_AcceptGap = False, rq_DryRun = dryRun, rq_BlockWait = 0, rq_Poll = 0\<rparr>"

definition ex_disposed :: "bool \<Rightarrow> bytes EvmDisposeReport \<times> bytes evmWorld" where
  "ex_disposed dryRun = run_state (disposeEvmState ex_client ex_dispose_env ex_lib ex_dispose_chain (ex_dispose dryRun)) (newEvmState ex_sealing_db)"

lemma ex_sealing_reach: "store_steps empty_db ex_sealing_db"
  unfolding ex_sealing_db_def
  by (rule rtranclp.rtrancl_into_rtrancl [OF ex_leased_reach s_record]) (simp add: describes_def ex_ev_def ex_pending_def)

lemma ex_dispose_env_ok: "env_ok ex_dispose_env"
  by (simp add: env_ok_def ex_dispose_env_def ex_env_def)

lemma ex_dispose_env_sel:
  "env_dbCall ex_dispose_env n = ex_call" "\<not> env_readFails ex_dispose_env n" "env_others ex_dispose_env n db = db"
  "env_time ex_dispose_env n = 1000000000 * int n" "env_receipt ex_dispose_env n h = ReceiptIs \<lparr>rc_Status = 0, rc_BlockNumber = Some 90\<rparr>"
  "env_blockNumber ex_dispose_env n = Some (100 + of_nat n)" "env_evmChainID ex_dispose_env n = Some 5151"
  "env_nonceAt ex_dispose_env n a b = Some 4"
  by (simp_all add: ex_dispose_env_def ex_env_def)

lemma ex_dispose_sel:
  "rq_Command (ex_dispose b) = EvmDisposeResolve" "rq_ChainID (ex_dispose b) = ex_chain" "rq_Scope (ex_dispose b) = SignSeal"
  "rq_TxHash (ex_dispose b) = 3" "rq_DryRun (ex_dispose b) = b"
  by (simp_all add: ex_dispose_def)

lemma ex_dispose_checked: "checkEvmDisposeRequest (ex_dispose b)"
  by (cases b) code_simp+

lemma ex_dispose_polls: "pollBudget (ex_dispose b) = Suc 121" "blockWait (ex_dispose b) = 120000000000"
  by (simp_all add: pollBudget_def blockWait_def pollOf_def ex_dispose_def)

definition ex_sealing_ev :: signedTxEvidence where
  "ex_sealing_ev = ex_ev\<lparr>e_Scope := SignSeal, e_TxHash := 3, e_ID := 1, e_LeaseEpoch := 1\<rparr>"

lemma ex_sealing_reads:
  "GetPending ex_chain SignSeal ex_sealing_db = Some ex_sealing" "p_TxHash ex_sealing = 3" "p_ID ex_sealing = 1"
  "GetSignedTx (r_SignedTxID (pending_ref ex_sealing)) ex_sealing_db = Some ex_sealing_ev"
  by code_simp+

lemma ex_sealing_verified:
  "st_verify (disposeClient ex_client (ex_dispose b) 5151) (Some ex_sealing_ev) (pending_ref ex_sealing) = Inr [1, 2, 3]"
  by (cases b) code_simp+

lemma ex_assess:
  "\<not> h < 90 \<Longrightarrow> run_state (assess C ex_dispose_env L D req tgt h d) w
     = ((None, (newSample h)\<lparr>sm_ChainNonce := 4, sm_Branch := BranchOriginalFailed, sm_ReceiptBlock := 90\<rparr>, d), w\<lparr>w_tick := w_tick w + 2\<rparr>)"
  unfolding assess_def Let_def
  by (simp add: run_calls ex_dispose_env_sel originalReceipt_def newSample_def ReceiptStatusSuccessful_def)

lemma ex_manual: "fst (ManualResolvePending ex_call ex_sealing None ev ex_sealing_db) = Inr ()"
proof -
  have "lockPending ex_sealing ex_sealing_db = None \<and> fst (deleteState (\<lambda>r. sr_ID r = p_ID ex_sealing \<and> sr_TxHash r = p_TxHash ex_sealing
      \<and> sr_State r = RowPending) ex_sealing_db) = 1 \<and> dc_fault ex_call = NoFault"
    by code_simp
  then show ?thesis
    by (simp add: ManualResolvePending_def resolvePendingTo_def txn_def resolvePendingTo_txn_def fenceFails_def Let_def split_def)
qed

lemma ex_assessTwice:
  assumes "e_EvmChainID (tg_evidence tgt) = 5151" "w_tick w = 2"
  shows "run_state (assessTwice C ex_dispose_env L D (ex_dispose b) tgt base d) w
     = (let s = (\<lambda>h. (newSample h)\<lparr>sm_ChainNonce := 4, sm_Branch := BranchOriginalFailed, sm_ReceiptBlock := 90\<rparr>) in
       ((Some (s 107), updReport (\<lambda>r. r\<lparr>rp_Branch := BranchOriginalFailed\<rparr>) (addSample (s 107) (addSample (s 103) d))), w\<lparr>w_tick := 10\<rparr>))"
  unfolding assessTwice_def waitHeight_def Let_def ex_dispose_polls waitPolls.simps
  using assms by (simp add: run_calls ex_dispose_env_sel IsUint64_def ex_assess sample_key_def newSample_def cong: lazy)

lemma ex_disposed_run:
  "rp_Applied (fst (ex_disposed b)) = (\<not> b)" "rp_Action (fst (ex_disposed b)) = DeletePending 1"
  "w_tick (snd (ex_disposed True)) = 10"
proof -
  define db where "db = (\<lambda>ev. snd (ManualResolvePending ex_call ex_sealing None ev ex_sealing_db))"
  have m: "ManualResolvePending ex_call ex_sealing None ev ex_sealing_db = (Inr (), db ev)" for ev
    using ex_manual [of ev] unfolding db_def by (simp add: prod_eq_iff)
  have ev: "e_EvmChainID ex_sealing_ev = 5151" by (simp add: ex_sealing_ev_def ex_ev_def)
  note run = run_calls ex_dispose_env_sel ex_dispose_sel ex_dispose_checked ex_lib_sel IsUint64_def newEvmState_def ex_sealing_reads
    ex_sealing_verified ex_assessTwice m resolveDecision_def resolveReport_def updReport_def
  show "rp_Applied (fst (ex_disposed b)) = (\<not> b)" "rp_Action (fst (ex_disposed b)) = DeletePending 1" "w_tick (snd (ex_disposed True)) = 10"
    unfolding ex_disposed_def disposeEvmState_def runCommand_def resolve_def resolveChecked_def checkEvidence_def writeResolve_def finishWrite_def
    by (simp_all add: run ev Let_def newDisposer_def newReport_def addSample_def d_describe_def newSample_def cong: lazy)
qed

section \<open>Properties\<close>

text \<open>C10: Manual disposition refines the store. A command, run at any moment beside any number of signers on a
  database the store's calls can produce, with any fault of the database and any answers of the nodes, moves the
  database by the store's steps only; so the ledger of every operation still balances, at most one row of it is
  active, and the bytes the command re-sends as a probe are bytes whose evidence was committed before.\<close>

theorem dispose_refines_store:
  assumes "store_steps empty_db db" "env_ok E" "w = snd (run_state (disposeEvmState C E L D req) (newEvmState db))"
  shows "store_steps empty_db (w_db w)
    \<and> recordings (chain, scope, operation) (w_db w) = closings (chain, scope, operation) (w_db w) + active (chain, scope, operation) (w_db w)
    \<and> active (chain, scope, operation) (w_db w) \<le> 1
    \<and> list_all (\<lambda>tx. \<exists>e. GetSignedTxByHash (rq_ChainID req) (tx_Hash (c_eth C) tx) (w_db w) = Some e) (w_sent w)"
proof -
  note s = dispose_safe [OF assms(2) store_reach_inv [OF assms(1)] assms(3)]
  have r: "store_steps empty_db (w_db w)" using assms(1) s(1) by (rule rtranclp_trans)
  have "list_all (\<lambda>tx. \<exists>e. GetSignedTxByHash (rq_ChainID req) (tx_Hash (c_eth C) tx) (w_db w) = Some e) (w_sent w)"
    using s(2) by (fastforce simp: list_all_iff GetSignedTxByHash_def filter_empty_conv split: list.split)
  then show ?thesis using r store_reach_ledger [OF r] active_le_1 [OF store_reach_inv [OF r]] by (auto simp: ledger_def)
qed

theorem dispose_refines_store_witness:
  "rp_Applied (fst (ex_disposed False)) \<and> store_steps empty_db (w_db (snd (ex_disposed False)))"
  using dispose_refines_store [OF ex_sealing_reach ex_dispose_env_ok, of "snd (ex_disposed False)" ex_client ex_lib ex_dispose_chain "ex_dispose False"]
  by (simp add: ex_disposed_def [symmetric] ex_disposed_run)



text \<open>C12: A dry run changes nothing. With \<open>DryRun\<close> set, whatever the command and the answers of the nodes, no
  transaction is handed to a node, no audit row or any other row is written, and the database afterwards is what the
  other processes made of it during the command's calls.\<close>

theorem dry_run_changes_nothing:
  assumes "rq_DryRun req" "run_state (disposeEvmState C E L D req) w = (rep, w')"
  shows "w_sent w' = w_sent w \<and> w_db w' = fold (env_others E) [w_tick w ..< w_tick w'] (w_db w)"
proof -
  have "quiet E (disposeEvmState C E L D req)"
    by (cases rule: dispose_cases [of C E L D req]) (simp_all add: quiet_ret quiet_bind quiet_runCommand [OF assms(1)])
  then show ?thesis using assms(2) unfolding quiet_def others_between_def by blast
qed

theorem dry_run_changes_nothing_witness:
  "rp_Action (fst (ex_disposed True)) = DeletePending 1 \<and> w_sent (snd (ex_disposed True)) = [] \<and> w_db (snd (ex_disposed True)) = ex_sealing_db"
proof -
  have f: "fold (env_others ex_dispose_env) ns db = db" for ns db
    by (induction ns) (simp_all add: ex_dispose_env_sel)
  show ?thesis
    using dry_run_changes_nothing [of "ex_dispose True" ex_client ex_dispose_env ex_lib ex_dispose_chain "newEvmState ex_sealing_db"
        "fst (ex_disposed True)" "snd (ex_disposed True)"]
    by (simp add: ex_disposed_def [symmetric] ex_disposed_run ex_dispose_sel f) (simp add: newEvmState_def)
qed

text \<open>C13: The wait for the second height ends by itself. If the clock the loop reads does not go back before its first
  poll and the readings of two polls are \<open>Poll\<close> apart, the loop leaves through one of its own exits (a height, an
  error of the node, the deadline or the end of the context) within \<open>BlockWait div Poll + 2\<close> polls: the bound of
  the model is never what ends it.\<close>

theorem wait_ends:
  assumes "env_time E (w_tick w) \<le> env_time E (w_tick w + 2)"
    and "\<And>i. env_time E (w_tick w + 2 + 3 * i) + pollOf req \<le> env_time E (w_tick w + 5 + 3 * i)"
  shows "fst (run_state (waitHeight E req want) w) \<in> {Inl WaitRpc, Inl WaitDeadline, Inl WaitContext} \<union> range Inr"
proof -
  have "fst (run_state (waitHeight E req want) w) \<noteq> Inl WaitOutOfPolls"
    by (rule waitHeight_enough) (use assms in \<open>simp add: clock_ok_def\<close>)
  then show ?thesis by (cases "fst (run_state (waitHeight E req want) w)") (use waitError.exhaust in auto)
qed

theorem wait_ends_witness:
  "fst (run_state (waitHeight ex_dispose_env (ex_dispose False) 104) (newEvmState ex_sealing_db))
     \<in> {Inl WaitRpc, Inl WaitDeadline, Inl WaitContext} \<union> range Inr"
  by (rule wait_ends) (simp_all add: ex_dispose_env_sel pollOf_def ex_dispose_def)

end
