(* ===== verification/Spec2Isabelle.thy ===== *)
theory Spec2Isabelle
  imports Scope_Invariant Task_Queue Task_Model Piece_Op Evm_Store_Safety Evm_Signer Evm_Costs Signer_Properties
    Evm_Disposition_Safety
begin

text \<open>
  \<^bold>\<open>A verification library for the storage provider.\<close>

  The repository is a storage provider of the moca chain, written in Go: a process that runs modules
  (gateway, uploader, downloader, manager, executor, signer and others) on a common base (resource
  manager, task queues, task types, piece addressing). A request becomes a task, the task reserves resources
  in the scope tree of the resource manager, waits in a task queue, works on pieces of objects named by
  their keys, and what it changes on the chain is signed and sent by the signer. This library models the
  base components a task passes through and the signer, the part that spends nonces and money and has to
  survive crashes.

  \<^bold>\<open>The theories and the code.\<close>

  \<^item> \<open>SP_Prelude\<close>: Go's int32 and int64 as \<open>int\<close> with the wrap-around written out (\<open>i64\<close>, \<open>i32\<close>), Go's
    truncating division, decimal printing, \<open>sort.Search\<close>. Unsigned integers are words.
  \<^item> \<open>Limits\<close>: \<open>base/types/gfsplimit/limit.go\<close> and \<open>core/rcmgr/limit.go\<close>, the limits and their
    arithmetic, with the order they satisfy (locale \<open>limit_order\<close>).
  \<^item> \<open>Resources\<close>: \<open>base/gfsprcmgr/resource.go\<close>, the counters of one scope; the locale \<open>reservation\<close> is the
    contract of its five reserve/release pairs.
  \<^item> \<open>Scopes\<close>, \<open>Scope_Accounting\<close>, \<open>Scope_Invariant\<close>: \<open>scope.go\<close> and \<open>rcmgr.go\<close>, the tree of scopes with owner
    and edges as a heap, every reservation and release along it, spans, services and the manager. Shown: in
    every state the calls can reach, a scope holds at least what its open children hold and stays within its
    limits; a reservation is all or nothing along the whole path; a release gives back exactly; \<open>BeginSpan\<close>
    and \<open>Done\<close> bracket; a second \<open>Done\<close> does nothing.
  \<^item> \<open>Task_Queue\<close>: \<open>base/gfsptqueue\<close>, both queues with capacity, retirement and filter functions and the
    round-robin cursor. Shown: refinement to a map under a capacity (locale \<open>keyed_queue\<close>), the order of pops,
    that pops drain and tops visit every live task, and that a looser limit never makes a pop fail.
  \<^item> \<open>Task_Model\<close>: \<open>base/types/gfsptask\<close>, \<open>core/task\<close> and \<open>base/gfspapp/task_options.go\<close>, the kinds of tasks,
    priorities, retries, keys, timeouts and resource estimates.
  \<^item> \<open>Piece_Op\<close>: \<open>base/gfsppieceop/piece_op.go\<close>, piece keys, their parsers and the sizes of pieces. Shown: keys
    are read back exactly and never collide, and segments and erasure-coded pieces cover the payload.
  \<^item> \<open>Evm_Records\<close>, \<open>Evm_Store\<close>: the signer's durable state, \<open>modular/signer/evm_state.go\<close>,
    \<open>evm_state_store_sql.go\<close> and \<open>store/sqldb/signer_evm*.go\<close>: four tables as lists of rows with their
    unique keys, and every transaction of the store as a function from the database and one \<open>dbCall\<close> (the
    database's clock and whether and how the COMMIT fails) to a result and the new database.
  \<^item> \<open>Evm_Store_Spec\<close>, \<open>Evm_Store_Refinement\<close>, \<open>Evm_Store_Safety\<close>: the abstract steps of the store
    (\<open>db_trans\<close>: append evidence, an audit event, a row; change or remove a row by its identity; move the
    lease), the proof that every transaction, faults included, is a sequence of them, and what follows for
    every reachable database: the ledger of recordings and closings, unique active operations, fencing of
    stale writers by lease epoch, append-only history.
  \<^item> \<open>Evm_World\<close>, \<open>Evm_Manager\<close>: the signer process, \<open>evm_lease.go\<close>, \<open>evm_state_manager.go\<close>,
    \<open>evm_state_auto.go\<close>, \<open>evm_state_recovery.go\<close> and \<open>submitEvmTx\<close> of \<open>signer_client.go\<close>, in a state monad over
    \<open>evmWorld\<close> (lease, per-scope memory, nonce caches, database, sent transactions, number of calls made).
  \<^item> \<open>Evm_Requests\<close>, \<open>Signer_Module\<close>: the nineteen requests of \<open>signer_client.go\<close> in EVM and Cosmos form, the
    gas options of \<open>session.go\<close>, and the deposit check and dispatch of \<open>signer.go\<close>.
  \<^item> \<open>Evm_Logic\<close>, \<open>Evm_Manager_Safety\<close>, \<open>Signer_Module_Safety\<close>: a program logic for the process. \<open>safe C F m Q\<close>
    says that \<open>m\<close>, run where the facts \<open>F\<close> hold, keeps the invariant \<open>winv\<close>, moves the database only by store
    steps and ends with the facts \<open>Q\<close>; facts (a row with this identity, evidence is committed, a row is no
    longer pending, an audit event is there) are stable under the steps of other processes.
  \<^item> \<open>Evm_Signer\<close>: runs of a process (\<open>signer_step\<close>: requests, lease keeping, recovery, background jobs, stop,
    restart). Shown: record before send, refinement of the store, what the answer of a submission means, that an
    applied terminal is final, and that recorded evidence can always be loaded again.
  \<^item> \<open>Evm_Costs\<close>: the locale \<open>meter\<close>, with three interpretations: a bound on the calls of a request, a bound on
    the sends, and that a request leaves the nonce caches of other accounts alone.
  \<^item> \<open>Signer_Properties\<close>: which call a request signs, what it may cost, which deposits pass, and the nonce after
    an accepted Cosmos broadcast.
  \<^item> \<open>Evm_Disposition\<close>, \<open>Evm_Disposition_Safety\<close>: the command an operator runs on a stuck row,
    \<open>modular/signer/evm_disposition.go\<close>: the request check, the assessment of the chain at two heights, the search
    for the transaction that took the nonce, the decisions and the writes. The report and the caches of the command
    are passed explicitly; \<open>disposeChain\<close> answers what only the command asks the nodes. Shown, in the logic of
    \<open>Evm_Logic\<close> and two small ones (\<open>quiet\<close>: no send and no write; \<open>returns\<close>: a property of every result): the command
    refines the store beside running signers, deletes a row only on proof, changes nothing in a dry run, and its
    wait for the second height ends.

  \<^bold>\<open>How state and effects are modelled.\<close>

  Scopes point to each other, so they live in a heap (a list) and are named by index. The signer's
  surroundings are parameters: \<open>evmEnv\<close> answers the calls of the process to its database, clock and nodes,
  the \<open>n\<close>-th call by the \<open>n\<close>-th answer, and moves the database by what other processes do before each call;
  \<open>env_ok\<close> asks only that those moves are steps of the same store. \<open>ethLib\<close> and \<open>requestLib\<close> are go-ethereum, the
  contract bindings, the key managers and the message encoding; what a property uses of them is a hypothesis of
  the property. Errors are values: constructors of an error type for each error a caller distinguishes, an
  index or a division that panics included.

  \<^bold>\<open>Bounds.\<close> Loops are structural recursions or have a termination proof. The one loop with a
  bound of the model is the wait of the disposition command: \<open>pollBudget\<close> polls, \<open>BlockWait div Poll + 2\<close>, after which
  its deadline has passed (\<open>wait_ends\<close>). The resolution of a request repeats at most \<open>evmResolveMaxDepth\<close> (4) times and reads at most \<open>evmSupersedeWindow\<close>
  (1000) rows, requests sign at most \<open>BroadcastTxRetry\<close> (3) times: constants of the source, from which
  \<open>request_bounded\<close> derives at most 10180 calls and 15 sends.

  \<^bold>\<open>Modelling decisions.\<close> A mutex makes the code between lock and unlock one step; processes that share the
  database interleave at every call. A transaction reads one database clock. The retirement and filter callbacks
  of a queue are pure functions of the task. Hashes and addresses are words; the hexadecimal text of an address is a
  parameter. Log records, metrics and error texts no caller reads are left out. \<open>sdkmath.Int\<close> is exact.

  \<^bold>\<open>Not modelled.\<close>

  \<^item> Of the signer: receipt polling (a call of the environment), the plain signatures, the construction of the client
    from configuration, and the command line around the disposition command.
  \<^item> Of the task types: the generated protobuf accessors and the string renderings.
  \<^item> The virtual group manager (\<open>base/gfspvgmgr\<close>): its picks are weighted by floating point arithmetic and
    random numbers, and its state is a copy of what the chain and the metadata service answer.
  \<^item> The manager, gateway and the other modules, the metadata service and block syncer, the piece store drivers,
    configuration, command line and generated code: I/O against services outside the repository around the
    components above.
\<close>

end
